(* ===== verification/Prelude.thy ===== *)
theory Prelude
  imports Main
begin

text \<open>
  Shared vocabulary of the development.  Go strings and byte slices are byte sequences, and an
  Isabelle \<open>char\<close> is a byte, so both are \<open>string\<close>.  Runes are natural numbers.
  The collections below gather the facts the component theories rest on:
  \<^item> \<open>go_defs\<close>: definitions of the Go operations that proofs unfold,
  \<^item> \<open>byte_simps\<close>: facts about bytes as numbers,
  \<^item> \<open>str_eval\<close>: rewrite rules that evaluate the string operations on literals,
  \<^item> \<open>frame\<close>: what an operation leaves unchanged.
\<close>

named_theorems go_defs \<open>definitions of Go operations\<close>
named_theorems byte_simps \<open>bytes as numbers\<close>
named_theorems str_eval \<open>evaluation of string operations on literals\<close>
named_theorems frame \<open>fields an operation leaves unchanged\<close>

type_synonym bytes = string
type_synonym rune = nat

section \<open>Bytes\<close>

definition byte_of :: "char \<Rightarrow> nat" where
  "byte_of c = of_char c"

definition chr_of :: "nat \<Rightarrow> char" where
  "chr_of n = char_of n"

lemmas byte_eval [str_eval] = byte_of_def chr_of_def char_of_def bit_0

lemma byte_of_less [byte_simps, simp]: "byte_of c < 256"
  by (cases c) (simp add: byte_of_def of_char_Char horner_sum_simps split: if_splits)

lemma byte_of_chr_of [byte_simps, simp]: "n < 256 \<Longrightarrow> byte_of (chr_of n) = n"
  by (simp add: byte_of_def chr_of_def)

lemma chr_of_byte_of [byte_simps, simp]: "chr_of (byte_of c) = c"
  by (simp add: byte_of_def chr_of_def)

lemma byte_of_inject [simp]: "byte_of c = byte_of d \<longleftrightarrow> c = d"
  by (metis chr_of_byte_of)

lemma chr_of_eq_iff: "n < 256 \<Longrightarrow> chr_of n = c \<longleftrightarrow> n = byte_of c"
  by auto

section \<open>Lists and maps\<close>

lemma concat_map_filter:
  "concat (map (\<lambda>x. if P x then [] else [x]) xs) = filter (\<lambda>x. \<not> P x) xs"
  by (induction xs) auto

lemma takeWhile_dropWhile_eq:
  "takeWhile P xs @ dropWhile P xs = xs"
  by simp

lemma drop_smaller: "xs \<noteq> [] \<Longrightarrow> 0 < n \<Longrightarrow> length (drop n xs) < length xs"
  by (cases xs) auto

lemma map_upd_same_dom: "k \<in> dom m \<Longrightarrow> dom (m(k \<mapsto> v)) = dom m"
  by auto

section \<open>Contracts several components share\<close>

text \<open>A normalising function: its results are its fixed points.\<close>

locale normaliser =
  fixes norm :: "'a \<Rightarrow> 'a"
  assumes norm_norm: "norm (norm x) = norm x"
begin

lemma range_fixed: "y \<in> range norm \<longleftrightarrow> norm y = y"
  by (metis norm_norm rangeE rangeI)

lemma iterate: "0 < n \<Longrightarrow> (norm ^^ n) x = norm x"
proof (induction n)
  case (Suc n)
  then show ?case by (cases n) (simp_all add: norm_norm)
qed simp

lemma same_class: "norm x = norm y \<Longrightarrow> norm (norm x) = norm y"
  by (simp add: norm_norm)

end

text \<open>An encoding with a decoder: no two values share an encoding.\<close>

locale codec =
  fixes enc :: "'a \<Rightarrow> string" and dec :: "string \<Rightarrow> 'a option"
  assumes dec_enc: "dec (enc x) = Some x"
begin

lemma enc_inject: "enc x = enc y \<longleftrightarrow> x = y"
  by (metis dec_enc option.inject)

lemma enc_inj: "inj enc"
  by (simp add: inj_def enc_inject)

end

text \<open>A normaliser built from a codec and a partial decoder: decode when possible, then encode.\<close>

locale recoder = codec enc dec for enc :: "string \<Rightarrow> string" and dec :: "string \<Rightarrow> string option"
begin

definition recode :: "string \<Rightarrow> string" where
  "recode s = (case dec s of Some x \<Rightarrow> enc x | None \<Rightarrow> enc s)"

lemma recode_recode: "recode (recode s) = recode s"
  by (simp add: recode_def dec_enc split: option.splits)

lemma recode_enc: "recode (enc s) = enc s"
  by (simp add: recode_def dec_enc)

end

sublocale recoder \<subseteq> recoded: normaliser recode
  by unfold_locales (rule recode_recode)

end
