(* ===== verification/Go_Utf8.thy ===== *)
theory Go_Utf8
  imports Prelude
begin

text \<open>
  The part of Go's package \<open>unicode/utf8\<close> the program uses: decoding the first rune of a
  string with its width (an ill-formed sequence is the replacement rune with width one),
  encoding a rune, and the runes a \<open>range\<close> loop over a string visits.
\<close>

definition rune_error :: rune where
  "rune_error = 0xFFFD"

definition is_cont :: "char \<Rightarrow> bool" where
  "is_cont c = (0x80 \<le> byte_of c \<and> byte_of c \<le> 0xBF)"

definition cont_bits :: "char \<Rightarrow> nat" where
  "cont_bits c = byte_of c - 0x80"

definition second_ok :: "nat \<Rightarrow> char \<Rightarrow> bool" where
  "second_ok b0 c =
     ((if b0 = 0xE0 then 0xA0 else if b0 = 0xF0 then 0x90 else 0x80) \<le> byte_of c \<and>
      byte_of c \<le> (if b0 = 0xED then 0x9F else if b0 = 0xF4 then 0x8F else 0xBF))"

definition decode_rune :: "string \<Rightarrow> rune \<times> nat" where
  "decode_rune s =
     (case s of
        [] \<Rightarrow> (rune_error, 0)
      | c # cs \<Rightarrow>
          let b0 = byte_of c in
          if b0 < 0x80 then (b0, 1)
          else if 0xC2 \<le> b0 \<and> b0 \<le> 0xDF then
            (case cs of
               c1 # _ \<Rightarrow> if is_cont c1 then ((b0 - 0xC0) * 64 + cont_bits c1, 2)
                          else (rune_error, 1)
             | _ \<Rightarrow> (rune_error, 1))
          else if 0xE0 \<le> b0 \<and> b0 \<le> 0xEF then
            (case cs of
               c1 # c2 # _ \<Rightarrow>
                 if second_ok b0 c1 \<and> is_cont c2
                 then ((b0 - 0xE0) * 4096 + cont_bits c1 * 64 + cont_bits c2, 3)
                 else (rune_error, 1)
             | _ \<Rightarrow> (rune_error, 1))
          else if 0xF0 \<le> b0 \<and> b0 \<le> 0xF4 then
            (case cs of
               c1 # c2 # c3 # _ \<Rightarrow>
                 if second_ok b0 c1 \<and> is_cont c2 \<and> is_cont c3
                 then ((b0 - 0xF0) * 262144 + cont_bits c1 * 4096 + cont_bits c2 * 64
                        + cont_bits c3, 4)
                 else (rune_error, 1)
             | _ \<Rightarrow> (rune_error, 1))
          else (rune_error, 1))"

definition valid_rune :: "rune \<Rightarrow> bool" where
  "valid_rune r = (r < 0xD800 \<or> 0xDFFF < r \<and> r \<le> 0x10FFFF)"

definition encode_rune :: "rune \<Rightarrow> string" where
  "encode_rune r0 =
     (let r = (if valid_rune r0 then r0 else rune_error) in
      if r < 0x80 then [chr_of r]
      else if r < 0x800 then [chr_of (0xC0 + r div 64), chr_of (0x80 + r mod 64)]
      else if r < 0x10000 then
        [chr_of (0xE0 + r div 4096), chr_of (0x80 + r div 64 mod 64), chr_of (0x80 + r mod 64)]
      else
        [chr_of (0xF0 + r div 262144), chr_of (0x80 + r div 4096 mod 64),
         chr_of (0x80 + r div 64 mod 64), chr_of (0x80 + r mod 64)])"

section \<open>The decoder\<close>

lemma decode_rune_Nil [simp]: "decode_rune [] = (rune_error, 0)"
  by (simp add: decode_rune_def)

lemma decode_rune_ascii [simp]: "byte_of c < 128 \<Longrightarrow> decode_rune (c # cs) = (byte_of c, 1)"
  by (simp add: decode_rune_def)

lemma decode_rune_width_pos: "s \<noteq> [] \<Longrightarrow> 0 < snd (decode_rune s)"
  by (cases s) (auto simp: decode_rune_def Let_def split: list.splits)

lemma decode_rune_width_le: "snd (decode_rune s) \<le> length s"
  by (cases s) (auto simp: decode_rune_def Let_def split: list.splits)

text \<open>A sequence of width above one has no ASCII byte, and a width of one is either an ASCII
  byte or an ill-formed byte, which reads as the replacement rune.\<close>

lemma is_cont_high: "is_cont c \<Longrightarrow> 128 \<le> byte_of c"
  by (simp add: is_cont_def)

lemma second_ok_high: "second_ok b0 c \<Longrightarrow> 128 \<le> byte_of c"
  by (auto simp: second_ok_def split: if_splits)

lemma decode_rune_wide_cases:
  assumes "1 < snd (decode_rune s)"
  obtains (two) c c1 cs where "s = c # c1 # cs" "0xC2 \<le> byte_of c" "byte_of c \<le> 0xDF" "is_cont c1"
      "decode_rune s = ((byte_of c - 0xC0) * 64 + cont_bits c1, 2)"
    | (three) c c1 c2 cs where "s = c # c1 # c2 # cs" "0xE0 \<le> byte_of c" "byte_of c \<le> 0xEF"
      "second_ok (byte_of c) c1" "is_cont c2"
      "decode_rune s = ((byte_of c - 0xE0) * 4096 + cont_bits c1 * 64 + cont_bits c2, 3)"
    | (four) c c1 c2 c3 cs where "s = c # c1 # c2 # c3 # cs" "0xF0 \<le> byte_of c" "byte_of c \<le> 0xF4"
      "second_ok (byte_of c) c1" "is_cont c2" "is_cont c3"
      "decode_rune s = ((byte_of c - 0xF0) * 262144 + cont_bits c1 * 4096 + cont_bits c2 * 64
                         + cont_bits c3, 4)"
proof (cases s)
  case Nil
  with assms show ?thesis by simp
next
  case (Cons c cs)
  with assms that show ?thesis
    by (auto simp: decode_rune_def Let_def split: list.splits if_splits)
qed

lemma decode_rune_wide_bytes:
  assumes "1 < snd (decode_rune s)"
  shows "\<forall>c \<in> set (take (snd (decode_rune s)) s). 128 \<le> byte_of c"
  using assms
  by (cases rule: decode_rune_wide_cases) (auto dest: is_cont_high second_ok_high)

lemma decode_rune_wide_rune:
  assumes "1 < snd (decode_rune s)"
  shows "128 \<le> fst (decode_rune s)"
  using assms
proof (cases rule: decode_rune_wide_cases)
  case (two c c1 cs)
  then have "2 \<le> byte_of c - 0xC0" by simp
  then have "128 \<le> (byte_of c - 0xC0) * 64" by simp
  with two show ?thesis by (simp add: trans_le_add1)
next
  case (three c c1 c2 cs)
  then show ?thesis
    by (cases "byte_of c = 0xE0") (auto simp: cont_bits_def second_ok_def split: if_splits)
next
  case (four c c1 c2 c3 cs)
  then show ?thesis
    by (cases "byte_of c = 0xF0") (auto simp: cont_bits_def second_ok_def split: if_splits)
qed

lemma decode_rune_high_byte:
  assumes "128 \<le> byte_of c"
  shows "128 \<le> fst (decode_rune (c # cs))"
proof (cases "1 < snd (decode_rune (c # cs))")
  case True
  then show ?thesis by (rule decode_rune_wide_rune)
next
  case False
  with assms show ?thesis
    by (auto simp: decode_rune_def Let_def rune_error_def split: list.splits if_splits)
qed

function runes :: "string \<Rightarrow> rune list" where
  "runes s = (if s = [] then [] else fst (decode_rune s) # runes (drop (snd (decode_rune s)) s))"
  by pat_completeness auto
termination
  by (relation "measure length")
     (auto simp: decode_rune_width_pos intro: diff_less)

declare runes.simps [simp del]

lemma runes_Nil [simp]: "runes [] = []"
  by (subst runes.simps) simp

lemma runes_step: "s \<noteq> [] \<Longrightarrow> runes s = fst (decode_rune s) # runes (drop (snd (decode_rune s)) s)"
  by (subst runes.simps) simp

definition encode_runes :: "rune list \<Rightarrow> string" where
  "encode_runes rs = concat (map encode_rune rs)"

text \<open>The same loop keeping the bytes of each rune.\<close>

function chunks :: "string \<Rightarrow> (rune \<times> bytes) list" where
  "chunks s = (if s = [] then []
     else (fst (decode_rune s), take (snd (decode_rune s)) s) # chunks (drop (snd (decode_rune s)) s))"
  by pat_completeness auto
termination
  by (relation "measure length")
     (auto simp: decode_rune_width_pos intro: diff_less)

declare chunks.simps [simp del]

lemma chunks_Nil [simp]: "chunks [] = []"
  by (subst chunks.simps) simp

lemma chunks_step:
  "s \<noteq> [] \<Longrightarrow> chunks s =
     (fst (decode_rune s), take (snd (decode_rune s)) s) # chunks (drop (snd (decode_rune s)) s)"
  by (subst chunks.simps) simp

lemma chunks_bytes: "concat (map snd (chunks s)) = s"
proof (induction s rule: chunks.induct)
  case (1 s)
  then show ?case by (cases "s = []") (simp_all add: chunks_step)
qed

lemma chunks_runes: "map fst (chunks s) = runes s"
proof (induction s rule: chunks.induct)
  case (1 s)
  then show ?case by (cases "s = []") (simp_all add: chunks_step runes_step)
qed

lemma chunks_ascii: "\<forall>c \<in> set s. byte_of c < 128 \<Longrightarrow> chunks s = map (\<lambda>c. (byte_of c, [c])) s"
  by (induction s) (auto simp: chunks_step)

section \<open>Encoding and decoding are inverse\<close>

lemma encode_rune_length: "0 < length (encode_rune r)"
  by (simp add: encode_rune_def Let_def)

lemma split_64: "(n::nat) = n div 64 * 64 + n mod 64"
  by simp

lemma decode_encode_rune:
  assumes "valid_rune r"
  shows "decode_rune (encode_rune r @ t) = (r, length (encode_rune r))"
proof -
  consider "r < 0x80" | "0x80 \<le> r" "r < 0x800" | "0x800 \<le> r" "r < 0x10000" | "0x10000 \<le> r"
    by linarith
  then show ?thesis
  proof cases
    case 1
    with assms show ?thesis by (simp add: encode_rune_def)
  next
    case 2
    define a where "a = r div 64"
    define b where "b = r mod 64"
    have r: "r = a * 64 + b" and b: "b < 64"
      unfolding a_def b_def by auto
    have "2 \<le> a" "a < 32"
      using 2 b r by auto
    then show ?thesis using 2 assms b r
      unfolding encode_rune_def decode_rune_def Let_def
      by (simp add: is_cont_def cont_bits_def flip: a_def b_def)
  next
    case 3
    define a where "a = r div 4096"
    define b where "b = r div 64 mod 64"
    define c where "c = r mod 64"
    have a: "a = r div 64 div 64"
      by (simp add: a_def div_mult2_eq [of r 64 64, simplified])
    have r: "r = a * 4096 + b * 64 + c"
      using split_64 [of r] split_64 [of "r div 64"] unfolding a b_def c_def by linarith
    have bc: "b < 64" "c < 64"
      unfolding b_def c_def by simp_all
    have "a < 16" "a = 0 \<longrightarrow> 32 \<le> b" "a = 13 \<longrightarrow> b < 32"
      using 3 assms bc r by (auto simp: valid_rune_def)
    moreover have "encode_rune r = [chr_of (0xE0 + a), chr_of (0x80 + b), chr_of (0x80 + c)]"
      using 3 assms by (simp add: encode_rune_def Let_def a_def b_def c_def)
    moreover have "decode_rune ([chr_of (0xE0 + a), chr_of (0x80 + b), chr_of (0x80 + c)] @ t)
        = (a * 4096 + b * 64 + c, 3)"
      using \<open>a < 16\<close> bc \<open>a = 0 \<longrightarrow> 32 \<le> b\<close> \<open>a = 13 \<longrightarrow> b < 32\<close>
      by (auto simp: decode_rune_def Let_def is_cont_def cont_bits_def second_ok_def)
    ultimately show ?thesis using r by simp
  next
    case 4
    define a where "a = r div 262144"
    define b where "b = r div 4096 mod 64"
    define c where "c = r div 64 mod 64"
    define d where "d = r mod 64"
    have q: "r div 4096 = r div 64 div 64" "a = r div 4096 div 64"
      by (simp_all add: a_def div_mult2_eq [of r 64 64, simplified]
            div_mult2_eq [of r 4096 64, simplified])
    have r: "r = a * 262144 + b * 4096 + c * 64 + d"
      using split_64 [of r] split_64 [of "r div 64"] split_64 [of "r div 4096"] q
      unfolding b_def c_def d_def by linarith
    have bcd: "b < 64" "c < 64" "d < 64"
      unfolding b_def c_def d_def by simp_all
    have "a < 5" "a = 0 \<longrightarrow> 16 \<le> b" "a = 4 \<longrightarrow> b < 16"
      using 4 assms bcd r by (auto simp: valid_rune_def)
    moreover have "encode_rune r =
        [chr_of (0xF0 + a), chr_of (0x80 + b), chr_of (0x80 + c), chr_of (0x80 + d)]"
      using 4 assms by (simp add: encode_rune_def Let_def a_def b_def c_def d_def)
    moreover have "decode_rune
        ([chr_of (0xF0 + a), chr_of (0x80 + b), chr_of (0x80 + c), chr_of (0x80 + d)] @ t)
        = (a * 262144 + b * 4096 + c * 64 + d, 4)"
      using \<open>a < 5\<close> bcd \<open>a = 0 \<longrightarrow> 16 \<le> b\<close> \<open>a = 4 \<longrightarrow> b < 16\<close>
      by (auto simp: decode_rune_def Let_def is_cont_def cont_bits_def second_ok_def)
    ultimately show ?thesis using r by simp
  qed
qed

lemma runes_encode_rune:
  assumes "valid_rune r"
  shows "runes (encode_rune r @ t) = r # runes t"
proof -
  have "encode_rune r @ t \<noteq> []" using encode_rune_length [of r] by auto
  then show ?thesis using assms by (simp add: runes_step decode_encode_rune)
qed

lemma runes_encode_runes: "\<forall>r \<in> set rs. valid_rune r \<Longrightarrow> runes (encode_runes rs) = rs"
  by (induction rs) (auto simp: encode_runes_def runes_encode_rune)

lemma decode_rune_valid: "valid_rune (fst (decode_rune s))"
proof (cases s)
  case Nil
  then show ?thesis by (simp add: valid_rune_def rune_error_def)
next
  case (Cons c cs)
  show ?thesis
  proof (cases "1 < snd (decode_rune s)")
    case True
    then show ?thesis
    proof (cases rule: decode_rune_wide_cases)
      case (two c c1 cs)
      then have "byte_of c - 0xC0 \<le> 0x1F" "cont_bits c1 < 64"
        by (auto simp: cont_bits_def is_cont_def)
      then have "(byte_of c - 0xC0) * 64 + cont_bits c1 < 0xD800" by linarith
      with two show ?thesis by (simp add: valid_rune_def)
    next
      case (three c c1 c2 cs)
      then show ?thesis
        by (auto simp: valid_rune_def cont_bits_def is_cont_def second_ok_def split: if_splits)
    next
      case (four c c1 c2 c3 cs)
      then show ?thesis
        by (auto simp: valid_rune_def cont_bits_def is_cont_def second_ok_def split: if_splits)
    qed
  next
    case False
    with Cons show ?thesis
      by (auto simp: decode_rune_def Let_def rune_error_def valid_rune_def
          split: list.splits if_splits)
  qed
qed

lemma runes_valid: "r \<in> set (runes s) \<Longrightarrow> valid_rune r"
proof (induction s rule: runes.induct)
  case (1 s)
  then show ?case
    by (cases "s = []") (auto simp: runes_step decode_rune_valid)
qed

lemma runes_ascii: "\<forall>c \<in> set s. byte_of c < 128 \<Longrightarrow> runes s = map byte_of s"
  by (induction s) (auto simp: runes_step)

lemma encode_runes_ascii: "\<forall>c \<in> set s. byte_of c < 128 \<Longrightarrow> encode_runes (map byte_of s) = s"
  by (induction s) (auto simp: encode_runes_def encode_rune_def Let_def valid_rune_def)

end
