(* ===== verification/Go_Strings.thy ===== *)
theory Go_Strings
  imports Go_Utf8
begin

text \<open>
  The functions of Go's packages \<open>strings\<close>, \<open>bytes\<close>, \<open>path\<close>, \<open>path/filepath\<close> and
  \<open>net\<close> that the program calls, over byte strings.  \<open>ToUpper\<close> and \<open>ToLower\<close> map rune
  by rune through the simple case tables of the ASCII, Latin-1 and Cyrillic blocks (the letters
  of the program's users); runes of other blocks are left as they are.  An ill-formed byte of a
  string that is not pure ASCII becomes the replacement rune, as in Go.  \<open>filepath\<close> is that of
  the Linux build.
\<close>

section \<open>Prefixes, search, split, join, replace\<close>

definition has_prefix :: "string \<Rightarrow> string \<Rightarrow> bool" where
  "has_prefix s p = (take (length p) s = p)"

definition has_suffix :: "string \<Rightarrow> string \<Rightarrow> bool" where
  "has_suffix s p = (length p \<le> length s \<and> drop (length s - length p) s = p)"

fun str_index :: "string \<Rightarrow> string \<Rightarrow> nat option" where
  "str_index [] sub = (if sub = [] then Some 0 else None)"
| "str_index (c # cs) sub =
     (if has_prefix (c # cs) sub then Some 0 else map_option Suc (str_index cs sub))"

definition str_contains :: "string \<Rightarrow> string \<Rightarrow> bool" where
  "str_contains s sub = (str_index s sub \<noteq> None)"

text \<open>\<open>strings.Split\<close> for a non-empty separator: the scan keeps the piece read so far.\<close>

function split_from :: "string \<Rightarrow> string \<Rightarrow> string \<Rightarrow> string list" where
  "split_from sep piece s =
     (case s of
        [] \<Rightarrow> [piece]
      | c # cs \<Rightarrow>
          if sep \<noteq> [] \<and> has_prefix s sep
          then piece # split_from sep [] (drop (length sep) s)
          else split_from sep (piece @ [c]) cs)"
  by pat_completeness auto
termination
  by (relation "measure (\<lambda>(sep, piece, s). length s)") auto

declare split_from.simps [simp del]

definition str_split :: "string \<Rightarrow> string \<Rightarrow> string list" where
  "str_split s sep = split_from sep [] s"

fun str_join :: "string list \<Rightarrow> string \<Rightarrow> string" where
  "str_join [] sep = []"
| "str_join [x] sep = x"
| "str_join (x # y # ys) sep = x @ sep @ str_join (y # ys) sep"

text \<open>\<open>strings.Replace(s, old, new, -1)\<close> for a non-empty \<open>old\<close>.\<close>

function replace_all :: "string \<Rightarrow> string \<Rightarrow> string \<Rightarrow> string" where
  "replace_all old new s =
     (case s of
        [] \<Rightarrow> []
      | c # cs \<Rightarrow>
          if old \<noteq> [] \<and> has_prefix s old
          then new @ replace_all old new (drop (length old) s)
          else c # replace_all old new cs)"
  by pat_completeness auto
termination
  by (relation "measure (\<lambda>(old, new, s). length s)") auto

declare replace_all.simps [simp del]

definition trim_right_set :: "string \<Rightarrow> string \<Rightarrow> string" where
  "trim_right_set s cutset = rev (dropWhile (\<lambda>c. c \<in> set cutset) (rev s))"

definition trim_set :: "string \<Rightarrow> string \<Rightarrow> string" where
  "trim_set s cutset = trim_right_set (dropWhile (\<lambda>c. c \<in> set cutset) s) cutset"

section \<open>Case mapping and white space\<close>

definition rune_upper :: "rune \<Rightarrow> rune" where
  "rune_upper r =
     (if 0x61 \<le> r \<and> r \<le> 0x7A then r - 0x20
      else if r = 0xB5 then 0x39C
      else if 0xE0 \<le> r \<and> r \<le> 0xFE \<and> r \<noteq> 0xF7 then r - 0x20
      else if r = 0xFF then 0x178
      else if 0x430 \<le> r \<and> r \<le> 0x44F then r - 0x20
      else if 0x450 \<le> r \<and> r \<le> 0x45F then r - 0x50
      else r)"

definition rune_lower :: "rune \<Rightarrow> rune" where
  "rune_lower r =
     (if 0x41 \<le> r \<and> r \<le> 0x5A then r + 0x20
      else if 0xC0 \<le> r \<and> r \<le> 0xDE \<and> r \<noteq> 0xD7 then r + 0x20
      else if r = 0x178 then 0xFF
      else if 0x410 \<le> r \<and> r \<le> 0x42F then r + 0x20
      else if 0x400 \<le> r \<and> r \<le> 0x40F then r + 0x50
      else r)"

definition to_upper :: "string \<Rightarrow> string" where
  "to_upper s = encode_runes (map rune_upper (runes s))"

definition to_lower :: "string \<Rightarrow> string" where
  "to_lower s = encode_runes (map rune_lower (runes s))"

definition is_space :: "rune \<Rightarrow> bool" where
  "is_space r =
     (9 \<le> r \<and> r \<le> 13 \<or> r = 0x20 \<or> r = 0x85 \<or> r = 0xA0 \<or> r = 0x1680
      \<or> 0x2000 \<le> r \<and> r \<le> 0x200A \<or> r = 0x2028 \<or> r = 0x2029 \<or> r = 0x202F \<or> r = 0x205F
      \<or> r = 0x3000)"

definition trim_space :: "string \<Rightarrow> string" where
  "trim_space s =
     concat (map snd (rev (dropWhile (\<lambda>p. is_space (fst p))
       (rev (dropWhile (\<lambda>p. is_space (fst p)) (chunks s))))))"

lemma rune_upper_valid: "valid_rune r \<Longrightarrow> valid_rune (rune_upper r)"
  by (auto simp: valid_rune_def rune_upper_def)

lemma rune_lower_valid: "valid_rune r \<Longrightarrow> valid_rune (rune_lower r)"
  by (auto simp: valid_rune_def rune_lower_def)

lemma rune_upper_cases:
  obtains k where "r = 0x61 + k" "k \<le> 0x19" | "r = 0xB5"
    | k where "r = 0xE0 + k" "k \<le> 0x1E" "k \<noteq> 0x17" | "r = 0xFF"
    | k where "r = 0x430 + k" "k \<le> 0x1F" | k where "r = 0x450 + k" "k \<le> 0xF" | "rune_upper r = r"
proof -
  consider "0x61 \<le> r" "r \<le> 0x7A" | "r = 0xB5" | "0xE0 \<le> r" "r \<le> 0xFE" "r \<noteq> 0xF7" | "r = 0xFF"
    | "0x430 \<le> r" "r \<le> 0x44F" | "0x450 \<le> r" "r \<le> 0x45F" | "rune_upper r = r"
    unfolding rune_upper_def by argo
  then show ?thesis
    by cases (use that in \<open>auto dest!: le_Suc_ex\<close>)
qed

lemma rune_lower_cases:
  obtains "0x41 \<le> r" "r \<le> 0x5A" | "0xC0 \<le> r" "r \<le> 0xDE" "r \<noteq> 0xD7" | "r = 0x178"
    | "0x410 \<le> r" "r \<le> 0x42F" | "0x400 \<le> r" "r \<le> 0x40F" | "rune_lower r = r"
  unfolding rune_lower_def by argo

lemma rune_upper_idem: "rune_upper (rune_upper r) = rune_upper r"
  by (cases r rule: rune_upper_cases) (simp_all add: rune_upper_def)

lemma rune_lower_idem: "rune_lower (rune_lower r) = rune_lower r"
  by (cases r rule: rune_lower_cases) (simp_all add: rune_lower_def)

lemma to_upper_idem [simp]: "to_upper (to_upper s) = to_upper s"
proof -
  have "runes (encode_runes (map rune_upper (runes s))) = map rune_upper (runes s)"
    by (rule runes_encode_runes) (auto dest: runes_valid rune_upper_valid)
  then show ?thesis by (simp add: to_upper_def comp_def rune_upper_idem)
qed

lemma to_lower_idem [simp]: "to_lower (to_lower s) = to_lower s"
proof -
  have "runes (encode_runes (map rune_lower (runes s))) = map rune_lower (runes s)"
    by (rule runes_encode_runes) (auto dest: runes_valid rune_lower_valid)
  then show ?thesis by (simp add: to_lower_def comp_def rune_lower_idem)
qed

lemma to_upper_Nil [simp]: "to_upper [] = []"
  by (simp add: to_upper_def encode_runes_def)

lemma to_lower_Nil [simp]: "to_lower [] = []"
  by (simp add: to_lower_def encode_runes_def)

text \<open>On ASCII strings the case mapping works byte by byte.\<close>

definition upper_char :: "char \<Rightarrow> char" where
  "upper_char c = (if 97 \<le> byte_of c \<and> byte_of c \<le> 122 then chr_of (byte_of c - 32) else c)"

definition lower_char :: "char \<Rightarrow> char" where
  "lower_char c = (if 65 \<le> byte_of c \<and> byte_of c \<le> 90 then chr_of (byte_of c + 32) else c)"

lemma to_upper_ascii [str_eval]:
  "\<forall>c \<in> set s. byte_of c < 128 \<Longrightarrow> to_upper s = map upper_char s"
  unfolding to_upper_def
  by (simp add: runes_ascii, induction s)
     (auto simp: encode_runes_def encode_rune_def Let_def valid_rune_def rune_upper_def
       upper_char_def)

lemma to_lower_ascii [str_eval]:
  "\<forall>c \<in> set s. byte_of c < 128 \<Longrightarrow> to_lower s = map lower_char s"
  unfolding to_lower_def
  by (simp add: runes_ascii, induction s)
     (auto simp: encode_runes_def encode_rune_def Let_def valid_rune_def rune_lower_def
       lower_char_def)

lemma trim_space_ascii [str_eval]:
  "\<forall>c \<in> set s. byte_of c < 128 \<Longrightarrow>
     trim_space s = rev (dropWhile (\<lambda>c. is_space (byte_of c))
       (rev (dropWhile (\<lambda>c. is_space (byte_of c)) s)))"
  by (simp add: trim_space_def chunks_ascii dropWhile_map comp_def rev_map)

lemmas case_eval [str_eval] = upper_char_def lower_char_def is_space_def

section \<open>Facts about search, split and replace\<close>

lemma has_prefix_append [simp]: "has_prefix (p @ s) p"
  by (simp add: has_prefix_def)

lemma has_prefix_Nil [simp]: "has_prefix s []"
  by (simp add: has_prefix_def)

lemma has_prefix_single: "has_prefix s [c] \<longleftrightarrow> (\<exists>cs. s = c # cs)"
  by (cases s) (auto simp: has_prefix_def)

lemma has_prefix_decomp: "has_prefix s p \<Longrightarrow> s = p @ drop (length p) s"
  unfolding has_prefix_def by (metis append_take_drop_id)

lemma replace_all_Nil [simp]: "replace_all old new [] = []"
  by (subst replace_all.simps) simp

lemma replace_all_Cons:
  "replace_all old new (c # cs) =
     (if old \<noteq> [] \<and> has_prefix (c # cs) old
      then new @ replace_all old new (drop (length old) (c # cs))
      else c # replace_all old new cs)"
  by (subst replace_all.simps) simp

lemmas search_eval [str_eval] = has_prefix_def str_split_def replace_all_Cons trim_right_set_def

lemma replace_all_single:
  "replace_all [d] new s = concat (map (\<lambda>c. if c = d then new else [c]) s)"
  by (induction s) (auto simp: replace_all_Cons has_prefix_single)

lemma replace_all_delete: "replace_all [d] [] s = filter (\<lambda>c. c \<noteq> d) s"
proof -
  have "replace_all [d] [] s = concat (map (\<lambda>c. if c = d then [] else [c]) s)"
    by (rule replace_all_single)
  then show ?thesis by (simp only: concat_map_filter)
qed

lemma replace_all_absent: "str_index s old = None \<Longrightarrow> replace_all old new s = s"
  by (induction s) (auto simp: replace_all_Cons split: if_splits)

lemma split_from_Nil [simp]: "split_from sep piece [] = [piece]"
  by (subst split_from.simps) simp

lemma split_from_Cons:
  "split_from sep piece (c # cs) =
     (if sep \<noteq> [] \<and> has_prefix (c # cs) sep
      then piece # split_from sep [] (drop (length sep) (c # cs))
      else split_from sep (piece @ [c]) cs)"
  by (subst split_from.simps) simp

lemmas split_eval [str_eval] = split_from_Cons

lemma split_from_not_Nil [simp]: "split_from sep piece s \<noteq> []"
proof (induction sep piece s rule: split_from.induct)
  case (1 sep piece s)
  then show ?case by (cases s) (auto simp: split_from_Cons)
qed

lemma str_split_not_Nil [simp]: "str_split s sep \<noteq> []"
  by (simp add: str_split_def)

lemma str_join_Cons: "ys \<noteq> [] \<Longrightarrow> str_join (x # ys) sep = x @ sep @ str_join ys sep"
  by (cases ys) auto

text \<open>Joining the pieces of a split gives the string back.\<close>

lemma str_join_split_from: "sep \<noteq> [] \<Longrightarrow> str_join (split_from sep piece s) sep = piece @ s"
proof (induction sep piece s rule: split_from.induct)
  case (1 sep piece s)
  show ?case
  proof (cases s)
    case Nil
    then show ?thesis by simp
  next
    case (Cons c cs)
    show ?thesis
    proof (cases "has_prefix s sep")
      case True
      with 1 Cons have "str_join (split_from sep [] (drop (length sep) s)) sep = drop (length sep) s"
        by simp
      with True Cons 1 show ?thesis
        using has_prefix_decomp [OF True] by (simp add: split_from_Cons str_join_Cons)
    next
      case False
      with 1 Cons show ?thesis by (simp add: split_from_Cons)
    qed
  qed
qed

lemma str_join_split: "sep \<noteq> [] \<Longrightarrow> str_join (str_split s sep) sep = s"
  by (simp add: str_split_def str_join_split_from)

lemma split_from_single_clean:
  "p \<in> set (split_from [d] piece s) \<Longrightarrow> d \<notin> set piece \<Longrightarrow> d \<notin> set p"
proof (induction s arbitrary: piece)
  case Nil
  then show ?case by simp
next
  case (Cons c cs)
  show ?case
  proof (cases "c = d")
    case True
    with Cons.prems Cons.IH [of "[]"] show ?thesis
      by (auto simp: split_from_Cons has_prefix_single)
  next
    case False
    with Cons.prems have "p \<in> set (split_from [d] (piece @ [c]) cs)" "d \<notin> set (piece @ [c])"
      by (auto simp: split_from_Cons has_prefix_single)
    then show ?thesis by (rule Cons.IH)
  qed
qed

lemma str_split_single_clean: "p \<in> set (str_split s [d]) \<Longrightarrow> d \<notin> set p"
  unfolding str_split_def by (erule split_from_single_clean) simp

lemma split_from_absent: "d \<notin> set s \<Longrightarrow> split_from [d] piece s = [piece @ s]"
  by (induction s arbitrary: piece) (auto simp: split_from_Cons has_prefix_single)

lemma str_split_absent: "d \<notin> set s \<Longrightarrow> str_split s [d] = [s]"
  by (simp add: str_split_def split_from_absent)

lemma split_from_first:
  "d \<notin> set a \<Longrightarrow> split_from [d] piece (a @ d # b) = (piece @ a) # split_from [d] [] b"
  by (induction a arbitrary: piece) (auto simp: split_from_Cons has_prefix_single)

lemma str_split_first: "d \<notin> set a \<Longrightarrow> str_split (a @ d # b) [d] = a # str_split b [d]"
  by (simp add: str_split_def split_from_first)

section \<open>Paths and network addresses\<close>

text \<open>\<open>filepath.Split\<close>: the directory up to the last separator, and the file.\<close>

definition filepath_split :: "string \<Rightarrow> string \<times> string" where
  "filepath_split p =
     (let f = rev (takeWhile (\<lambda>c. c \<noteq> CHR ''/'') (rev p))
      in (take (length p - length f) p, f))"

lemma filepath_split_append: "fst (filepath_split p) @ snd (filepath_split p) = p"
proof -
  let ?f = "rev (takeWhile (\<lambda>c. c \<noteq> CHR ''/'') (rev p))"
  have "p = rev (dropWhile (\<lambda>c. c \<noteq> CHR ''/'') (rev p)) @ ?f"
    by (metis rev_append rev_rev_ident takeWhile_dropWhile_id)
  then show ?thesis
    by (metis (no_types, lifting) append_eq_conv_conj append_take_drop_id diff_le_self
        filepath_split_def fst_conv length_append length_drop add_diff_cancel_right' snd_conv)
qed

lemma filepath_split_file: "CHR ''/'' \<notin> set (snd (filepath_split p))"
  by (auto simp: filepath_split_def Let_def dest: set_takeWhileD)

text \<open>\<open>net.SplitHostPort\<close>: host and port, or an error with empty results.\<close>

definition last_index :: "char \<Rightarrow> string \<Rightarrow> nat option" where
  "last_index c s =
     (if c \<in> set s then Some (length s - 1 - length (takeWhile (\<lambda>x. x \<noteq> c) (rev s))) else None)"

definition first_index :: "char \<Rightarrow> string \<Rightarrow> nat option" where
  "first_index c s = (if c \<in> set s then Some (length (takeWhile (\<lambda>x. x \<noteq> c) s)) else None)"

definition split_host_port :: "string \<Rightarrow> (string \<times> string) option" where
  "split_host_port hostport =
     (case last_index (CHR '':'') hostport of
        None \<Rightarrow> None
      | Some i \<Rightarrow>
          if has_prefix hostport ''['' then
            (case first_index (CHR '']'') hostport of
               None \<Rightarrow> None
             | Some e \<Rightarrow>
                 if e + 1 \<noteq> i then None
                 else if CHR ''['' \<in> set (drop 1 hostport) \<or> CHR '']'' \<in> set (drop (e + 1) hostport)
                 then None
                 else Some (drop 1 (take e hostport), drop (i + 1) hostport))
          else if CHR '':'' \<in> set (take i hostport) then None
          else if CHR ''['' \<in> set hostport \<or> CHR '']'' \<in> set hostport then None
          else Some (take i hostport, drop (i + 1) hostport))"

lemma split_host_port_no_colon: "CHR '':'' \<notin> set s \<Longrightarrow> split_host_port s = None"
  by (simp add: split_host_port_def last_index_def)

end
