(* ===== verification/Go_Fmt.thy ===== *)
theory Go_Fmt
  imports Go_Strings
begin

text \<open>
  The parts of packages \<open>strconv\<close> and \<open>fmt\<close> the program uses: decimal numbers, and
  \<open>fmt.Sprintf\<close> with string operands and the verbs \<open>%s\<close> and \<open>%%\<close>.
\<close>

fun nat_digits :: "nat \<Rightarrow> string" where
  "nat_digits n = (if n < 10 then [chr_of (48 + n)] else nat_digits (n div 10) @ [chr_of (48 + n mod 10)])"

declare nat_digits.simps [simp del]

definition itoa :: "int \<Rightarrow> string" where
  "itoa i = (if i < 0 then ''-'' @ nat_digits (nat (- i)) else nat_digits (nat i))"

text \<open>\<open>%0nd\<close>: zero padding counts the sign.\<close>

definition pad0 :: "nat \<Rightarrow> int \<Rightarrow> string" where
  "pad0 w i =
     (let ds = nat_digits (nat \<bar>i\<bar>); sign = (if i < 0 then ''-'' else [])
      in sign @ replicate (w - length sign - length ds) (CHR ''0'') @ ds)"

definition digit_val :: "char \<Rightarrow> nat" where
  "digit_val c = byte_of c - 48"

definition digits_val :: "string \<Rightarrow> nat" where
  "digits_val s = foldl (\<lambda>n c. 10 * n + digit_val c) 0 s"

lemma digits_val_digits: "digits_val (nat_digits n) = n"
proof (induction n rule: nat_digits.induct)
  case (1 n)
  show ?case
  proof (cases "n < 10")
    case True
    then show ?thesis by (subst nat_digits.simps) (simp add: digits_val_def digit_val_def)
  next
    case False
    with 1 show ?thesis
      by (subst nat_digits.simps) (simp add: digits_val_def digit_val_def)
  qed
qed

definition is_digit :: "char \<Rightarrow> bool" where
  "is_digit c = (48 \<le> byte_of c \<and> byte_of c \<le> 57)"

lemma nat_digits_digits: "c \<in> set (nat_digits n) \<Longrightarrow> is_digit c"
proof (induction n rule: nat_digits.induct)
  case (1 n)
  show ?case
  proof (cases "n < 10")
    case True
    with 1(2) show ?thesis by (subst (asm) nat_digits.simps) (simp add: is_digit_def)
  next
    case False
    with 1 show ?thesis by (subst (asm) (2) nat_digits.simps) (auto simp: is_digit_def)
  qed
qed

lemma nat_digits_not_Nil [simp]: "nat_digits n \<noteq> []"
  by (subst nat_digits.simps) simp

interpretation decimal: codec nat_digits "\<lambda>s. Some (digits_val s)"
  by unfold_locales (simp add: digits_val_digits)

lemma itoa_inject: "itoa i = itoa j \<longleftrightarrow> i = j"
proof
  have sign: "nat_digits n \<noteq> CHR ''-'' # ds" for n ds
  proof
    assume "nat_digits n = CHR ''-'' # ds"
    then have "CHR ''-'' \<in> set (nat_digits n)" by simp
    from nat_digits_digits [OF this] show False by (simp add: is_digit_def byte_of_def)
  qed
  assume "itoa i = itoa j"
  then show "i = j"
    using sign sign [THEN not_sym] by (auto simp: itoa_def decimal.enc_inject split: if_splits)
qed simp

text \<open>\<open>fmt.Sprintf\<close> with string operands.\<close>

fun sprintf_extra :: "string list \<Rightarrow> string" where
  "sprintf_extra [] = []"
| "sprintf_extra [a] = ''string='' @ a"
| "sprintf_extra (a # b # as) = ''string='' @ a @ '', '' @ sprintf_extra (b # as)"

fun sprintf :: "string \<Rightarrow> string list \<Rightarrow> string" where
  "sprintf [] as = (if as = [] then [] else ''%!(EXTRA '' @ sprintf_extra as @ '')'')"
| "sprintf (c # cs) as =
     (if c \<noteq> CHR ''%'' then c # sprintf cs as
      else case cs of
             [] \<Rightarrow> ''%!(NOVERB)'' @ sprintf [] as
           | v # ds \<Rightarrow>
               if v = CHR ''%'' then CHR ''%'' # sprintf ds as
               else (case as of
                       [] \<Rightarrow> ''%!'' @ [v] @ ''(MISSING)'' @ sprintf ds []
                     | a # as' \<Rightarrow>
                         (if v = CHR ''s'' then a else ''%!'' @ [v] @ ''(string='' @ a @ '')'') @
                         sprintf ds as'))"

lemma sprintf_text: "CHR ''%'' \<notin> set a \<Longrightarrow> sprintf (a @ b) as = a @ sprintf b as"
  by (induction a) auto

lemma sprintf_plain: "CHR ''%'' \<notin> set a \<Longrightarrow> sprintf a [] = a"
  using sprintf_text [of a "[]" "[]"] by simp

lemma sprintf_verb: "sprintf (''%s'' @ b) (a # as) = a @ sprintf b as"
  by simp

end
