(* ===== verification/Owa_Types.thy ===== *)
theory Owa_Types
  imports Go_Fmt
begin

text \<open>
  Data types the packages share: the internal status codes and the result of a task
  (\<open>otasker/oratasker.go\<close>), HTTP headers and form values, multipart forms
  (\<open>otasker/oraparsemultipart.go\<close>; the vendored \<open>mltpart\<close> package has the same types).
  A Go map that the code ranges over is an association list; the list order is one of the
  iteration orders Go allows.
\<close>

section \<open>Status codes\<close>

definition StatusOK :: int where "StatusOK = 200"
definition StatusMovedPermanently :: int where "StatusMovedPermanently = 301"
definition StatusFound :: int where "StatusFound = 302"
definition StatusUnauthorized :: int where "StatusUnauthorized = 401"
definition StatusNotFound :: int where "StatusNotFound = 404"

definition StatusErrorPage :: int where "StatusErrorPage = 561"
definition StatusWaitPage :: int where "StatusWaitPage = 562"
definition StatusBreakPage :: int where "StatusBreakPage = 563"
definition StatusRequestWasInterrupted :: int where "StatusRequestWasInterrupted = 564"
definition StatusInvalidUsernameOrPassword :: int where "StatusInvalidUsernameOrPassword = 565"
definition StatusInsufficientPrivileges :: int where "StatusInsufficientPrivileges = 566"
definition StatusAccountIsLocked :: int where "StatusAccountIsLocked = 567"

lemmas status_defs = StatusOK_def StatusMovedPermanently_def StatusFound_def
  StatusUnauthorized_def StatusNotFound_def StatusErrorPage_def StatusWaitPage_def
  StatusBreakPage_def StatusRequestWasInterrupted_def StatusInvalidUsernameOrPassword_def
  StatusInsufficientPrivileges_def StatusAccountIsLocked_def

section \<open>Multi-valued maps: \<open>http.Header\<close> and \<open>url.Values\<close>\<close>

type_synonym multimap = "(string \<times> string list) list"

definition vals_lookup :: "multimap \<Rightarrow> string \<Rightarrow> string list" where
  "vals_lookup h k = (case map_of h k of None \<Rightarrow> [] | Some vs \<Rightarrow> vs)"

definition vals_get :: "multimap \<Rightarrow> string \<Rightarrow> string" where
  "vals_get h k = (case vals_lookup h k of [] \<Rightarrow> [] | v # _ \<Rightarrow> v)"

fun vals_set :: "multimap \<Rightarrow> string \<Rightarrow> string list \<Rightarrow> multimap" where
  "vals_set [] k vs = [(k, vs)]"
| "vals_set ((k', vs') # h) k vs = (if k' = k then (k, vs) # h else (k', vs') # vals_set h k vs)"

definition vals_append :: "multimap \<Rightarrow> string \<Rightarrow> string list \<Rightarrow> multimap" where
  "vals_append h k vs = vals_set h k (vals_lookup h k @ vs)"

definition vals_del :: "multimap \<Rightarrow> string \<Rightarrow> multimap" where
  "vals_del h k = filter (\<lambda>p. fst p \<noteq> k) h"

lemma map_of_vals_set: "map_of (vals_set h k vs) = (map_of h)(k \<mapsto> vs)"
  by (induction h k vs rule: vals_set.induct) auto

lemma vals_lookup_set [simp]:
  "vals_lookup (vals_set h k vs) k' = (if k' = k then vs else vals_lookup h k')"
  by (simp add: vals_lookup_def map_of_vals_set)

lemma vals_lookup_append [simp]:
  "vals_lookup (vals_append h k vs) k' =
     (if k' = k then vals_lookup h k @ vs else vals_lookup h k')"
  by (simp add: vals_append_def)

lemma vals_lookup_del [simp]:
  "vals_lookup (vals_del h k) k' = (if k' = k then [] else vals_lookup h k')"
proof -
  have "map_of (vals_del h k) k' = (if k' = k then None else map_of h k')"
    by (induction h) (auto simp: vals_del_def)
  then show ?thesis by (simp add: vals_lookup_def)
qed

lemma vals_lookup_Nil [simp]: "vals_lookup [] k = []"
  by (simp add: vals_lookup_def)

section \<open>Results and multipart forms\<close>

record OracleTaskResult =
  StatusCode :: int
  ContentType :: string
  Headers :: "multimap option"
  Content :: bytes
  Duration :: int

definition empty_result :: OracleTaskResult where
  "empty_result =
     \<lparr>StatusCode = 0, ContentType = [], Headers = None, Content = [], Duration = 0\<rparr>"

record FileHeader =
  Filename :: string
  Header :: "multimap option"
  content :: "bytes option"
  tmpfile :: string
  LastArg :: string

record Form =
  form_Value :: multimap
  form_File :: "(string \<times> FileHeader list) list"

text \<open>Time is counted in nanoseconds, as \<open>time.Duration\<close> counts it.\<close>

type_synonym time = int

definition Second :: time where "Second = 1000000000"
definition Millisecond :: time where "Millisecond = 1000000"

end
