(* ===== verification/Worker.thy ===== *)
theory Worker
  imports Owa_Types
begin

text \<open>
  The task scheduler of \<open>otasker/worker.go\<close>.  Every session of a virtual directory has a
  worker: a goroutine (\<open>listen\<close>) that takes one task after another from \<open>inChan\<close>.  Request
  goroutines call \<open>Run\<close>: they find or create the worker, take the worker's idle token from
  \<open>signalChan\<close>, register a result channel and hand the task over; they come back with the
  result, or after \<open>waitTimeout\<close> with a wait page (their task runs) or a break page (another
  task runs).  A later \<open>Run\<close> with the same task identifier collects the result.

  The model is a transition system.  Goroutines are program counters, one per atomic action of
  the source (a channel operation, a critical section); a step moves one goroutine, joins
  sender and receiver at the unbuffered \<open>inChan\<close>, or lets time pass.  Workers and result
  channels live in a store addressed by numbers, as Go's pointers.  What a tasker answers to a
  task is the parameter \<open>R\<close>.
\<close>

section \<open>State\<close>

type_synonym wid = nat
type_synonym cid = nat
type_synonym tid = nat

record work =
  sessionID :: string
  taskID :: string
  reqUserName :: string
  reqUserPass :: string
  reqConnStr :: string
  reqParamStoreProc :: string
  reqBeforeScript :: string
  reqAfterScript :: string
  reqDocumentTable :: string
  reqCGIEnv :: "(string \<times> string) list"
  reqProc :: string
  reqParams :: "multimap"
  reqFiles :: "Form option"
  dumpFileName :: string

text \<open>The arguments of \<open>Run\<close>.\<close>

record run_args =
  path :: string
  typeTasker :: int
  args_work :: work
  waitTimeout :: time
  idleTimeout :: time

record worker =
  signal :: bool                        \<comment> \<open>\<open>signalChan\<close>, capacity one, holds its token\<close>
  outChanList :: "string \<rightharpoonup> cid"
  startedAt :: time
  started :: bool

text \<open>The program counter of \<open>listen\<close>, and its arguments.\<close>

datatype lpc =
    L_None
  | L_Announce
  | L_Select time
  | L_Start work
  | L_Running work
  | L_Reply work OracleTaskResult
  | L_Put cid OracleTaskResult
  | L_Finish OracleTaskResult
  | L_Signal OracleTaskResult
  | L_Remove
  | L_Close
  | L_Count
  | L_Done

record listener =
  l_path :: string
  l_ID :: string
  l_idle :: time
  l_pc :: lpc

text \<open>The program counters of goroutines that call \<open>Run\<close> or \<open>Break\<close>.\<close>

datatype cpc =
    C_Idle
  | C_Lookup run_args
  | C_Create run_args
  | C_OutChan run_args wid
  | C_Acquire run_args wid time
  | C_Register run_args wid
  | C_Send run_args wid cid
  | C_Receive run_args wid cid time
  | C_Release run_args wid OracleTaskResult
  | C_Return run_args OracleTaskResult
  | C_Panic run_args
  | B_Lookup string string
  | B_Select wid
  | B_Interrupt wid
  | B_Return "string option"

record sys =
  clock :: time
  wlist :: "string \<rightharpoonup> (string \<rightharpoonup> wid)"
  workers :: "wid \<Rightarrow> worker"
  listeners :: "wid \<Rightarrow> listener"
  next_w :: wid
  chans :: "cid \<Rightarrow> OracleTaskResult option"   \<comment> \<open>result channels, capacity one\<close>
  next_c :: cid
  callers :: "tid \<Rightarrow> cpc"
  numberOfSessions :: int

definition new_worker :: worker where
  "new_worker = \<lparr>signal = False, outChanList = Map.empty, startedAt = 0, started = False\<rparr>"

definition init_sys :: sys where
  "init_sys =
     \<lparr>clock = 0, wlist = Map.empty, workers = (\<lambda>_. new_worker),
      listeners = (\<lambda>_. \<lparr>l_path = [], l_ID = [], l_idle = 0, l_pc = L_None\<rparr>), next_w = 0,
      chans = (\<lambda>_. None), next_c = 0, callers = (\<lambda>_. C_Idle), numberOfSessions = 0\<rparr>"

definition wlookup :: "sys \<Rightarrow> string \<Rightarrow> string \<Rightarrow> wid option" where
  "wlookup s p i = (case wlist s p of None \<Rightarrow> None | Some m \<Rightarrow> m i)"

definition args_path :: "run_args \<Rightarrow> string" where
  "args_path a = to_upper (path a)"

definition args_session :: "run_args \<Rightarrow> string" where
  "args_session a = to_upper (sessionID (args_work a))"

definition args_task :: "run_args \<Rightarrow> string" where
  "args_task a = taskID (args_work a)"

definition goto :: "tid \<Rightarrow> cpc \<Rightarrow> sys \<Rightarrow> sys" where
  "goto t pc s = s\<lparr>callers := (callers s)(t := pc)\<rparr>"

definition upd_worker :: "wid \<Rightarrow> (worker \<Rightarrow> worker) \<Rightarrow> sys \<Rightarrow> sys" where
  "upd_worker w f s = s\<lparr>workers := (workers s)(w := f (workers s w))\<rparr>"

definition lgoto :: "wid \<Rightarrow> lpc \<Rightarrow> sys \<Rightarrow> sys" where
  "lgoto w pc s = s\<lparr>listeners := (listeners s)(w := (listeners s w)\<lparr>l_pc := pc\<rparr>)\<rparr>"

abbreviation listener_at :: "sys \<Rightarrow> wid \<Rightarrow> lpc" where
  "listener_at s w \<equiv> l_pc (listeners s w)"

text \<open>Whole seconds since the worker started its task (\<open>time.Since(..) / time.Second\<close>, which
  truncates; the clock never runs backwards).\<close>

definition worked :: "sys \<Rightarrow> wid \<Rightarrow> int" where
  "worked s w =
     (if started (workers s w) then (clock s - startedAt (workers s w)) div Second else 0)"

section \<open>\<open>Run\<close>\<close>

definition run_lookup :: "tid \<Rightarrow> run_args \<Rightarrow> sys \<Rightarrow> sys" where
  "run_lookup t a s =
     goto t (case wlookup s (args_path a) (args_session a) of
               None \<Rightarrow> C_Create a
             | Some w \<Rightarrow> C_OutChan a w) s"

text \<open>The worker is made and entered in \<open>wlist\<close> under the write lock; the list is not looked
  at again.  \<open>taskerFactory\<close> has an entry for each of the three tasker types; calling the
  missing entry of another type panics.\<close>

definition run_create :: "tid \<Rightarrow> run_args \<Rightarrow> sys \<Rightarrow> sys" where
  "run_create t a s =
     (if typeTasker a \<notin> {0, 1, 2} then goto t (C_Panic a) s
      else
        let w = next_w s; p = args_path a; i = args_session a;
            m = (case wlist s p of None \<Rightarrow> Map.empty | Some m \<Rightarrow> m)
        in goto t (C_OutChan a w)
             (s\<lparr>workers := (workers s)(w := new_worker),
                wlist := (wlist s)(p \<mapsto> m(i \<mapsto> w)),
                listeners := (listeners s)
                  (w := \<lparr>l_path = p, l_ID = i, l_idle = idleTimeout a, l_pc = L_Announce\<rparr>),
                next_w := w + 1,
                numberOfSessions := numberOfSessions s + 1\<rparr>))"

definition run_out_chan :: "tid \<Rightarrow> run_args \<Rightarrow> wid \<Rightarrow> sys \<Rightarrow> sys" where
  "run_out_chan t a w s =
     goto t (case outChanList (workers s w) (args_task a) of
               None \<Rightarrow> C_Acquire a w (clock s + waitTimeout a)
             | Some c \<Rightarrow> C_Receive a w c (clock s + waitTimeout a)) s"

definition run_acquire :: "tid \<Rightarrow> run_args \<Rightarrow> wid \<Rightarrow> sys \<Rightarrow> sys option" where
  "run_acquire t a w s =
     (if signal (workers s w)
      then Some (goto t (C_Register a w) (upd_worker w (\<lambda>k. k\<lparr>signal := False\<rparr>) s))
      else None)"

definition break_page :: "sys \<Rightarrow> wid \<Rightarrow> OracleTaskResult" where
  "break_page s w = empty_result\<lparr>StatusCode := StatusBreakPage, Duration := worked s w\<rparr>"

definition wait_page :: "sys \<Rightarrow> wid \<Rightarrow> OracleTaskResult" where
  "wait_page s w = empty_result\<lparr>StatusCode := StatusWaitPage, Duration := worked s w\<rparr>"

definition run_register :: "tid \<Rightarrow> run_args \<Rightarrow> wid \<Rightarrow> sys \<Rightarrow> sys" where
  "run_register t a w s =
     (let c = next_c s
      in goto t (C_Send a w c)
           (upd_worker w (\<lambda>k. k\<lparr>outChanList := (outChanList k)(args_task a \<mapsto> c)\<rparr>)
             (s\<lparr>chans := (chans s)(c := None), next_c := c + 1\<rparr>)))"

text \<open>The rendezvous on \<open>inChan\<close>: the caller goes on to wait for its result, the listener
  starts the task.\<close>

definition run_handoff :: "tid \<Rightarrow> sys \<Rightarrow> sys option" where
  "run_handoff t s =
     (case callers s t of
        C_Send a w c \<Rightarrow>
          (case listener_at s w of
             L_Select d \<Rightarrow>
               Some (goto t (C_Receive a w c (clock s + waitTimeout a))
                      (lgoto w (L_Start (args_work a)) s))
           | _ \<Rightarrow> None)
      | _ \<Rightarrow> None)"

definition run_receive :: "tid \<Rightarrow> run_args \<Rightarrow> wid \<Rightarrow> cid \<Rightarrow> sys \<Rightarrow> sys option" where
  "run_receive t a w c s =
     (case chans s c of
        None \<Rightarrow> None
      | Some res \<Rightarrow> Some (goto t (C_Release a w res) (s\<lparr>chans := (chans s)(c := None)\<rparr>)))"

definition run_release :: "tid \<Rightarrow> run_args \<Rightarrow> wid \<Rightarrow> OracleTaskResult \<Rightarrow> sys \<Rightarrow> sys" where
  "run_release t a w res s =
     goto t (C_Return a res)
       (upd_worker w (\<lambda>k. k\<lparr>outChanList := (outChanList k)(args_task a := None)\<rparr>) s)"

section \<open>\<open>Break\<close>\<close>

definition break_lookup :: "tid \<Rightarrow> string \<Rightarrow> string \<Rightarrow> sys \<Rightarrow> sys" where
  "break_lookup t p i s =
     goto t (case wlookup s (to_upper p) (to_upper i) of
               None \<Rightarrow> B_Return None
             | Some w \<Rightarrow> B_Select w) s"

text \<open>\<open>select\<close> with a default: an idle worker has nothing to interrupt, and its token has now
  been read; a busy one is interrupted.\<close>

definition break_select :: "tid \<Rightarrow> wid \<Rightarrow> sys \<Rightarrow> sys" where
  "break_select t w s =
     (if signal (workers s w)
      then goto t (B_Return None) (upd_worker w (\<lambda>k. k\<lparr>signal := False\<rparr>) s)
      else goto t (B_Interrupt w) s)"

text \<open>The next action of a calling goroutine, when it can move by itself.\<close>

definition caller_step :: "tid \<Rightarrow> sys \<Rightarrow> sys option" where
  "caller_step t s =
     (case callers s t of
        C_Lookup a \<Rightarrow> Some (run_lookup t a s)
      | C_Create a \<Rightarrow> Some (run_create t a s)
      | C_OutChan a w \<Rightarrow> Some (run_out_chan t a w s)
      | C_Acquire a w d \<Rightarrow> run_acquire t a w s
      | C_Register a w \<Rightarrow> Some (run_register t a w s)
      | C_Receive a w c d \<Rightarrow> run_receive t a w c s
      | C_Release a w res \<Rightarrow> Some (run_release t a w res s)
      | B_Lookup p i \<Rightarrow> Some (break_lookup t p i s)
      | B_Select w \<Rightarrow> Some (break_select t w s)
      | _ \<Rightarrow> None)"

text \<open>The \<open>time.After\<close> branches of the two selects in \<open>Run\<close>.\<close>

definition caller_timeout :: "tid \<Rightarrow> sys \<Rightarrow> sys option" where
  "caller_timeout t s =
     (case callers s t of
        C_Acquire a w d \<Rightarrow>
          if d \<le> clock s then Some (goto t (C_Return a (break_page s w)) s) else None
      | C_Receive a w c d \<Rightarrow>
          if d \<le> clock s then Some (goto t (C_Return a (wait_page s w)) s) else None
      | _ \<Rightarrow> None)"

section \<open>\<open>listen\<close>\<close>

definition listener_wait :: "wid \<Rightarrow> sys \<Rightarrow> sys" where
  "listener_wait w s = lgoto w (L_Select (clock s + l_idle (listeners s w))) s"

definition listener_start :: "wid \<Rightarrow> work \<Rightarrow> sys \<Rightarrow> sys" where
  "listener_start w wrk s =
     lgoto w (L_Running wrk)
       (upd_worker w (\<lambda>k. k\<lparr>startedAt := clock s, started := True\<rparr>) s)"

definition listener_reply :: "wid \<Rightarrow> work \<Rightarrow> OracleTaskResult \<Rightarrow> sys \<Rightarrow> sys" where
  "listener_reply w wrk res s =
     lgoto w (case outChanList (workers s w) (taskID wrk) of
                None \<Rightarrow> L_Finish res
              | Some c \<Rightarrow> L_Put c res) s"

definition listener_put :: "wid \<Rightarrow> cid \<Rightarrow> OracleTaskResult \<Rightarrow> sys \<Rightarrow> sys option" where
  "listener_put w c res s =
     (case chans s c of
        None \<Rightarrow> Some (lgoto w (L_Finish res) (s\<lparr>chans := (chans s)(c := Some res)\<rparr>))
      | Some _ \<Rightarrow> None)"

definition listener_finish :: "wid \<Rightarrow> OracleTaskResult \<Rightarrow> sys \<Rightarrow> sys" where
  "listener_finish w res s =
     lgoto w (L_Signal res)
       (upd_worker w (\<lambda>k. k\<lparr>startedAt := 0, started := False\<rparr>) s)"

text \<open>Sending the token blocks while the channel holds one.\<close>

definition listener_announce :: "wid \<Rightarrow> sys \<Rightarrow> sys option" where
  "listener_announce w s =
     (if signal (workers s w) then None
      else Some (listener_wait w (upd_worker w (\<lambda>k. k\<lparr>signal := True\<rparr>) s)))"

definition listener_signal :: "wid \<Rightarrow> OracleTaskResult \<Rightarrow> sys \<Rightarrow> sys option" where
  "listener_signal w res s =
     (if signal (workers s w) then None
      else
        let s' = upd_worker w (\<lambda>k. k\<lparr>signal := True\<rparr>) s
        in Some (if StatusCode res = StatusRequestWasInterrupted then lgoto w L_Remove s'
                 else listener_wait w s'))"

text \<open>The deferred clean-up: the entry under the worker's own path and identifier is deleted,
  whatever worker it names by now; then the connection and the result channels go.\<close>

definition listener_remove :: "wid \<Rightarrow> sys \<Rightarrow> sys" where
  "listener_remove w s =
     (let p = l_path (listeners s w); i = l_ID (listeners s w)
      in lgoto w L_Close
           (case wlist s p of
              None \<Rightarrow> s
            | Some m \<Rightarrow> s\<lparr>wlist := (wlist s)(p \<mapsto> m(i := None))\<rparr>))"

definition listener_close :: "wid \<Rightarrow> sys \<Rightarrow> sys" where
  "listener_close w s =
     lgoto w L_Count (upd_worker w (\<lambda>k. k\<lparr>outChanList := Map.empty\<rparr>) s)"

definition listener_count :: "wid \<Rightarrow> sys \<Rightarrow> sys" where
  "listener_count w s = lgoto w L_Done (s\<lparr>numberOfSessions := numberOfSessions s - 1\<rparr>)"

definition listener_step :: "wid \<Rightarrow> sys \<Rightarrow> sys option" where
  "listener_step w s =
     (case listener_at s w of
        L_Announce \<Rightarrow> listener_announce w s
      | L_Start wrk \<Rightarrow> Some (listener_start w wrk s)
      | L_Reply wrk res \<Rightarrow> Some (listener_reply w wrk res s)
      | L_Put c res \<Rightarrow> listener_put w c res s
      | L_Finish res \<Rightarrow> Some (listener_finish w res s)
      | L_Signal res \<Rightarrow> listener_signal w res s
      | L_Remove \<Rightarrow> Some (listener_remove w s)
      | L_Close \<Rightarrow> Some (listener_close w s)
      | L_Count \<Rightarrow> Some (listener_count w s)
      | _ \<Rightarrow> None)"

definition listener_timeout :: "wid \<Rightarrow> sys \<Rightarrow> sys option" where
  "listener_timeout w s =
     (case listener_at s w of
        L_Select d \<Rightarrow> if d \<le> clock s then Some (lgoto w L_Remove s) else None
      | _ \<Rightarrow> None)"

text \<open>The embedded tasker's \<open>Run\<close> returns.\<close>

definition tasker_done :: "(work \<Rightarrow> OracleTaskResult \<Rightarrow> bool) \<Rightarrow> wid \<Rightarrow> OracleTaskResult \<Rightarrow> sys
    \<Rightarrow> sys option" where
  "tasker_done R w res s =
     (case listener_at s w of
        L_Running wrk \<Rightarrow> if R wrk res then Some (lgoto w (L_Reply wrk res) s) else None
      | _ \<Rightarrow> None)"

definition break_done :: "tid \<Rightarrow> string option \<Rightarrow> sys \<Rightarrow> sys option" where
  "break_done t e s =
     (case callers s t of B_Interrupt w \<Rightarrow> Some (goto t (B_Return e) s) | _ \<Rightarrow> None)"

section \<open>Steps and runs\<close>

datatype action =
    A_Call tid run_args
  | A_Break tid string string
  | A_Tick nat
  | A_Caller tid
  | A_CallerTimeout tid
  | A_Handoff tid
  | A_Listener wid
  | A_ListenerTimeout wid
  | A_TaskerDone wid OracleTaskResult
  | A_BreakDone tid "string option"

fun exec_action :: "(work \<Rightarrow> OracleTaskResult \<Rightarrow> bool) \<Rightarrow> action \<Rightarrow> sys \<Rightarrow> sys option" where
  "exec_action R (A_Call t a) s =
     (if callers s t = C_Idle then Some (goto t (C_Lookup a) s) else None)"
| "exec_action R (A_Break t p i) s =
     (if callers s t = C_Idle then Some (goto t (B_Lookup p i) s) else None)"
| "exec_action R (A_Tick n) s = Some (s\<lparr>clock := clock s + int n\<rparr>)"
| "exec_action R (A_Caller t) s = caller_step t s"
| "exec_action R (A_CallerTimeout t) s = caller_timeout t s"
| "exec_action R (A_Handoff t) s = run_handoff t s"
| "exec_action R (A_Listener w) s = listener_step w s"
| "exec_action R (A_ListenerTimeout w) s = listener_timeout w s"
| "exec_action R (A_TaskerDone w res) s = tasker_done R w res s"
| "exec_action R (A_BreakDone t e) s = break_done t e s"

inductive step :: "(work \<Rightarrow> OracleTaskResult \<Rightarrow> bool) \<Rightarrow> sys \<Rightarrow> sys \<Rightarrow> bool" for R where
  step_action: "exec_action R a s = Some s' \<Longrightarrow> step R s s'"

inductive reachable :: "(work \<Rightarrow> OracleTaskResult \<Rightarrow> bool) \<Rightarrow> sys \<Rightarrow> bool" for R where
  reach_init: "reachable R init_sys"
| reach_step: "reachable R s \<Longrightarrow> step R s s' \<Longrightarrow> reachable R s'"

fun run_actions :: "(work \<Rightarrow> OracleTaskResult \<Rightarrow> bool) \<Rightarrow> action list \<Rightarrow> sys \<Rightarrow> sys option" where
  "run_actions R [] s = Some s"
| "run_actions R (a # as) s =
     (case exec_action R a s of None \<Rightarrow> None | Some s' \<Rightarrow> run_actions R as s')"

lemma run_actions_reachable:
  "reachable R s \<Longrightarrow> run_actions R as s = Some s' \<Longrightarrow> reachable R s'"
proof (induction as arbitrary: s)
  case Nil
  then show ?case by simp
next
  case (Cons a as)
  then obtain s1 where "exec_action R a s = Some s1" "run_actions R as s1 = Some s'"
    by (auto split: option.splits)
  with Cons show ?case by (blast intro: reach_step step_action)
qed

text \<open>The transitions one by one: what each step needs and does.\<close>

lemmas caller_defs = run_lookup_def run_create_def run_out_chan_def run_acquire_def
  run_register_def run_handoff_def run_receive_def run_release_def break_lookup_def
  break_select_def break_done_def

lemmas listener_defs = listener_wait_def listener_start_def listener_reply_def listener_put_def
  listener_finish_def listener_announce_def listener_signal_def listener_close_def
  listener_count_def tasker_done_def listener_timeout_def

lemma exec_action_elim:
  assumes "exec_action R act s = Some s'"
  obtains
    (call) t a where "callers s t = C_Idle" "s' = goto t (C_Lookup a) s" "act = A_Call t a"
  | (break_call) t p i where "callers s t = C_Idle" "s' = goto t (B_Lookup p i) s"
  | (tick) n where "s' = s\<lparr>clock := clock s + int n\<rparr>"
  | (look_found) t a w where "callers s t = C_Lookup a"
      "wlookup s (args_path a) (args_session a) = Some w" "s' = goto t (C_OutChan a w) s"
  | (look_missing) t a where "callers s t = C_Lookup a"
      "wlookup s (args_path a) (args_session a) = None" "s' = goto t (C_Create a) s"
  | (create) t a where "callers s t = C_Create a" "typeTasker a \<in> {0, 1, 2}" "s' = run_create t a s"
  | (create_panic) t a where "callers s t = C_Create a" "s' = goto t (C_Panic a) s"
  | (known_task) t a w c where "callers s t = C_OutChan a w"
      "outChanList (workers s w) (args_task a) = Some c"
      "s' = goto t (C_Receive a w c (clock s + waitTimeout a)) s"
  | (new_task) t a w where "callers s t = C_OutChan a w"
      "outChanList (workers s w) (args_task a) = None"
      "s' = goto t (C_Acquire a w (clock s + waitTimeout a)) s"
  | (acquire) t a w d where "callers s t = C_Acquire a w d" "signal (workers s w)"
      "s' = goto t (C_Register a w) (upd_worker w (\<lambda>k. k\<lparr>signal := False\<rparr>) s)"
  | (register) t a w where "callers s t = C_Register a w" "s' = run_register t a w s"
  | (handoff) t a w c d where "callers s t = C_Send a w c" "listener_at s w = L_Select d"
      "s' = goto t (C_Receive a w c (clock s + waitTimeout a)) (lgoto w (L_Start (args_work a)) s)"
  | (receive) t a w c d res where "callers s t = C_Receive a w c d" "chans s c = Some res"
      "s' = goto t (C_Release a w res) (s\<lparr>chans := (chans s)(c := None)\<rparr>)"
  | (release) t a w res where "callers s t = C_Release a w res" "s' = run_release t a w res s"
  | (acquire_timeout) t a w d where "callers s t = C_Acquire a w d" "d \<le> clock s"
      "s' = goto t (C_Return a (break_page s w)) s"
  | (receive_timeout) t a w c d where "callers s t = C_Receive a w c d" "d \<le> clock s"
      "s' = goto t (C_Return a (wait_page s w)) s"
  | (break_missing) t p i where "callers s t = B_Lookup p i"
      "wlookup s (to_upper p) (to_upper i) = None" "s' = goto t (B_Return None) s"
  | (break_found) t p i w where "callers s t = B_Lookup p i"
      "wlookup s (to_upper p) (to_upper i) = Some w" "s' = goto t (B_Select w) s"
  | (break_idle) t w where "callers s t = B_Select w" "signal (workers s w)"
      "s' = goto t (B_Return None) (upd_worker w (\<lambda>k. k\<lparr>signal := False\<rparr>) s)"
  | (break_busy) t w where "callers s t = B_Select w" "\<not> signal (workers s w)"
      "s' = goto t (B_Interrupt w) s"
  | (break_done) t w e where "callers s t = B_Interrupt w" "s' = goto t (B_Return e) s"
  | (announce) w where "listener_at s w = L_Announce" "\<not> signal (workers s w)"
      "s' = listener_wait w (upd_worker w (\<lambda>k. k\<lparr>signal := True\<rparr>) s)"
  | (start) w wrk where "listener_at s w = L_Start wrk" "s' = listener_start w wrk s"
  | (task_done) w wrk res where "listener_at s w = L_Running wrk" "R wrk res"
      "s' = lgoto w (L_Reply wrk res) s"
  | (reply_put) w wrk res c where "listener_at s w = L_Reply wrk res"
      "outChanList (workers s w) (taskID wrk) = Some c" "s' = lgoto w (L_Put c res) s"
  | (reply_drop) w wrk res where "listener_at s w = L_Reply wrk res"
      "outChanList (workers s w) (taskID wrk) = None" "s' = lgoto w (L_Finish res) s"
  | (put) w c res where "listener_at s w = L_Put c res" "chans s c = None"
      "s' = lgoto w (L_Finish res) (s\<lparr>chans := (chans s)(c := Some res)\<rparr>)"
  | (finish) w res where "listener_at s w = L_Finish res" "s' = listener_finish w res s"
  | (signal_exit) w res where "listener_at s w = L_Signal res" "\<not> signal (workers s w)"
      "StatusCode res = StatusRequestWasInterrupted"
      "s' = lgoto w L_Remove (upd_worker w (\<lambda>k. k\<lparr>signal := True\<rparr>) s)"
  | (signal_wait) w res where "listener_at s w = L_Signal res" "\<not> signal (workers s w)"
      "StatusCode res \<noteq> StatusRequestWasInterrupted"
      "s' = listener_wait w (upd_worker w (\<lambda>k. k\<lparr>signal := True\<rparr>) s)"
  | (idle) w d where "listener_at s w = L_Select d" "d \<le> clock s" "s' = lgoto w L_Remove s"
  | (remove) w where "listener_at s w = L_Remove" "s' = listener_remove w s"
  | (close) w where "listener_at s w = L_Close" "s' = listener_close w s"
  | (count) w where "listener_at s w = L_Count" "s' = listener_count w s"
proof (cases act)
  case (A_Call t a)
  with assms call show ?thesis by (auto split: if_splits)
next
  case (A_Break t p i)
  with assms break_call show ?thesis by (auto split: if_splits)
next
  case (A_Tick n)
  with assms tick show ?thesis by auto
next
  case (A_CallerTimeout t)
  with assms acquire_timeout receive_timeout show ?thesis
    by (auto simp: caller_timeout_def split: cpc.splits if_splits)
next
  case (A_Handoff t)
  with assms handoff show ?thesis
    by (auto simp: run_handoff_def split: cpc.splits lpc.splits)
next
  case (A_ListenerTimeout w)
  with assms idle show ?thesis
    by (auto simp: listener_timeout_def split: lpc.splits if_splits)
next
  case (A_TaskerDone w res)
  with assms task_done show ?thesis
    by (auto simp: tasker_done_def split: lpc.splits if_splits)
next
  case (A_BreakDone t e)
  with assms break_done show ?thesis
    by (auto simp: break_done_def split: cpc.splits)
next
  case (A_Listener w)
  with assms have eq: "listener_step w s = Some s'" by simp
  show ?thesis
  proof (cases "listener_at s w")
    case L_Announce
    with eq announce show ?thesis
      by (auto simp: listener_step_def listener_announce_def split: if_splits)
  next
    case (L_Reply wrk res)
    with eq reply_put reply_drop show ?thesis
      by (auto simp: listener_step_def listener_reply_def split: option.splits)
  next
    case (L_Put c res)
    with eq put show ?thesis
      by (auto simp: listener_step_def listener_put_def split: option.splits)
  next
    case (L_Signal res)
    with eq signal_exit signal_wait show ?thesis
      by (auto simp: listener_step_def listener_signal_def Let_def split: if_splits)
  qed (use eq start finish remove close count in \<open>auto simp: listener_step_def\<close>)
next
  case (A_Caller t)
  with assms have eq: "caller_step t s = Some s'" by simp
  show ?thesis
  proof (cases "callers s t")
    case (C_Lookup a)
    with eq look_found look_missing show ?thesis
      by (auto simp: caller_step_def run_lookup_def split: option.splits)
  next
    case (C_Create a)
    with eq create create_panic show ?thesis
      by (cases "typeTasker a \<in> {0, 1, 2}") (auto simp: caller_step_def run_create_def)
  next
    case (C_OutChan a w)
    with eq known_task new_task show ?thesis
      by (auto simp: caller_step_def run_out_chan_def split: option.splits)
  next
    case (C_Acquire a w d)
    with eq acquire show ?thesis
      by (auto simp: caller_step_def run_acquire_def split: if_splits)
  next
    case (C_Receive a w c d)
    with eq receive show ?thesis
      by (auto simp: caller_step_def run_receive_def split: option.splits)
  next
    case (B_Lookup p i)
    with eq break_missing break_found show ?thesis
      by (auto simp: caller_step_def break_lookup_def split: option.splits)
  next
    case (B_Select w)
    with eq break_idle break_busy show ?thesis
      by (auto simp: caller_step_def break_select_def split: if_splits)
  qed (use eq register release in \<open>auto simp: caller_step_def\<close>)
qed

lemma reachable_inv:
  assumes "reachable R s" and "P init_sys"
    and "\<And>s act s'. reachable R s \<Longrightarrow> P s \<Longrightarrow> exec_action R act s = Some s' \<Longrightarrow> P s'"
  shows "P s"
  using assms(1)
proof (induction rule: reachable.induct)
  case reach_init
  show ?case by (rule assms(2))
next
  case (reach_step s s')
  then show ?case by (auto elim: step.cases intro: assms(3))
qed

end
