(* ===== verification/Worker_Inv.thy ===== *)
theory Worker_Inv
  imports Worker
begin

text \<open>
  Invariants of the scheduler: which goroutine owns a worker's idle token, which store
  addresses are in use, what the result channels may hold, which workers are registered and
  how many sessions are counted.
\<close>

section \<open>What the updates change\<close>

lemma goto_sel [simp]:
  "clock (goto t pc s) = clock s" "wlist (goto t pc s) = wlist s"
  "workers (goto t pc s) = workers s" "listeners (goto t pc s) = listeners s"
  "next_w (goto t pc s) = next_w s" "chans (goto t pc s) = chans s"
  "next_c (goto t pc s) = next_c s" "callers (goto t pc s) = (callers s)(t := pc)"
  "numberOfSessions (goto t pc s) = numberOfSessions s"
  by (simp_all add: goto_def)

lemma lgoto_sel [simp]:
  "clock (lgoto w l s) = clock s" "wlist (lgoto w l s) = wlist s"
  "workers (lgoto w l s) = workers s"
  "listeners (lgoto w l s) = (listeners s)(w := (listeners s w)\<lparr>l_pc := l\<rparr>)"
  "next_w (lgoto w l s) = next_w s" "chans (lgoto w l s) = chans s"
  "next_c (lgoto w l s) = next_c s" "callers (lgoto w l s) = callers s"
  "numberOfSessions (lgoto w l s) = numberOfSessions s"
  by (simp_all add: lgoto_def)

lemma upd_worker_sel [simp]:
  "clock (upd_worker w f s) = clock s" "wlist (upd_worker w f s) = wlist s"
  "workers (upd_worker w f s) = (workers s)(w := f (workers s w))"
  "listeners (upd_worker w f s) = listeners s"
  "next_w (upd_worker w f s) = next_w s" "chans (upd_worker w f s) = chans s"
  "next_c (upd_worker w f s) = next_c s" "callers (upd_worker w f s) = callers s"
  "numberOfSessions (upd_worker w f s) = numberOfSessions s"
  by (simp_all add: upd_worker_def)

lemma wlookup_frame [simp]:
  "wlookup (goto t pc s) = wlookup s" "wlookup (lgoto w l s) = wlookup s"
  "wlookup (upd_worker w f s) = wlookup s"
  by (simp_all add: wlookup_def fun_eq_iff)

section \<open>The idle token\<close>

text \<open>The worker whose token a caller has taken and not yet handed back with a task.\<close>

fun holder :: "cpc \<Rightarrow> wid option" where
  "holder (C_Register a w) = Some w"
| "holder (C_Send a w c) = Some w"
| "holder _ = None"

text \<open>The listener owes the channel a token: it will send one before it selects again.\<close>

fun busy :: "lpc \<Rightarrow> bool" where
  "busy L_Announce = True"
| "busy (L_Start _) = True"
| "busy (L_Running _) = True"
| "busy (L_Reply _ _) = True"
| "busy (L_Put _ _) = True"
| "busy (L_Finish _) = True"
| "busy (L_Signal _) = True"
| "busy _ = False"

text \<open>The worker a caller refers to.\<close>

fun target :: "cpc \<Rightarrow> wid option" where
  "target (C_OutChan a w) = Some w"
| "target (C_Acquire a w d) = Some w"
| "target (C_Register a w) = Some w"
| "target (C_Send a w c) = Some w"
| "target (C_Receive a w c d) = Some w"
| "target (C_Release a w res) = Some w"
| "target (B_Select w) = Some w"
| "target (B_Interrupt w) = Some w"
| "target _ = None"

lemma holder_target: "holder pc = Some w \<Longrightarrow> target pc = Some w"
  by (cases pc) auto

definition fresh_inv :: "sys \<Rightarrow> bool" where
  "fresh_inv s =
     ((\<forall>w \<ge> next_w s. listener_at s w = L_None \<and> workers s w = new_worker) \<and>
      (\<forall>w < next_w s. listener_at s w \<noteq> L_None) \<and>
      (\<forall>t w. target (callers s t) = Some w \<longrightarrow> w < next_w s) \<and>
      (\<forall>p i w. wlookup s p i = Some w \<longrightarrow> w < next_w s) \<and>
      (\<forall>w k c. outChanList (workers s w) k = Some c \<longrightarrow> c < next_c s) \<and>
      (\<forall>w c res. listener_at s w = L_Put c res \<longrightarrow> c < next_c s) \<and>
      (\<forall>c \<ge> next_c s. chans s c = None))"

definition token_inv :: "sys \<Rightarrow> bool" where
  "token_inv s =
     ((\<forall>w. signal (workers s w) \<longrightarrow>
           \<not> busy (listener_at s w) \<and> (\<forall>t. holder (callers s t) \<noteq> Some w)) \<and>
      (\<forall>t w. holder (callers s t) = Some w \<longrightarrow> \<not> busy (listener_at s w)) \<and>
      (\<forall>t t' w. holder (callers s t) = Some w \<longrightarrow> holder (callers s t') = Some w \<longrightarrow> t = t'))"

lemma fresh_inv_init: "fresh_inv init_sys"
  by (simp add: fresh_inv_def init_sys_def wlookup_def new_worker_def)

lemma token_inv_init: "token_inv init_sys"
  by (simp add: token_inv_def init_sys_def new_worker_def)

lemma wlookup_create:
  "typeTasker a \<in> {0, 1, 2} \<Longrightarrow>
   wlookup (run_create t a s) p i =
     (if p = args_path a \<and> i = args_session a then Some (next_w s) else wlookup s p i)"
  by (auto simp: run_create_def wlookup_def Let_def split: option.splits)

lemma wlookup_remove:
  "wlookup (listener_remove w s) p i =
     (if p = l_path (listeners s w) \<and> i = l_ID (listeners s w) then None else wlookup s p i)"
  by (auto simp: listener_remove_def wlookup_def Let_def split: option.splits)

lemma run_create_sel:
  assumes "typeTasker a \<in> {0, 1, 2}"
  shows "workers (run_create t a s) = (workers s)(next_w s := new_worker)"
    "listeners (run_create t a s) = (listeners s)(next_w s :=
        \<lparr>l_path = args_path a, l_ID = args_session a, l_idle = idleTimeout a, l_pc = L_Announce\<rparr>)"
    "next_w (run_create t a s) = next_w s + 1" "chans (run_create t a s) = chans s"
    "next_c (run_create t a s) = next_c s"
    "callers (run_create t a s) = (callers s)(t := C_OutChan a (next_w s))"
    "numberOfSessions (run_create t a s) = numberOfSessions s + 1"
    "clock (run_create t a s) = clock s"
  using assms by (simp_all add: run_create_def Let_def)

lemma listener_remove_sel [simp]:
  "workers (listener_remove w s) = workers s"
  "listeners (listener_remove w s) = (listeners s)(w := (listeners s w)\<lparr>l_pc := L_Close\<rparr>)"
  "next_w (listener_remove w s) = next_w s" "chans (listener_remove w s) = chans s"
  "next_c (listener_remove w s) = next_c s" "callers (listener_remove w s) = callers s"
  "numberOfSessions (listener_remove w s) = numberOfSessions s"
  "clock (listener_remove w s) = clock s"
  by (simp_all add: listener_remove_def Let_def split: option.splits)

lemma wlookup_upd [simp]:
  "wlookup (s\<lparr>clock := x\<rparr>) = wlookup s" "wlookup (s\<lparr>chans := y\<rparr>) = wlookup s"
  "wlookup (s\<lparr>chans := y, next_c := z\<rparr>) = wlookup s"
  "wlookup (s\<lparr>numberOfSessions := n\<rparr>) = wlookup s"
  by (simp_all add: wlookup_def fun_eq_iff)

lemmas move_defs = run_register_def run_release_def listener_wait_def listener_start_def
  listener_finish_def listener_close_def listener_count_def Let_def

lemma fresh_targets:
  assumes "fresh_inv s"
  shows "callers s t = C_OutChan a w \<Longrightarrow> w < next_w s"
    and "callers s t = C_Acquire a w d \<Longrightarrow> w < next_w s"
    and "callers s t = C_Register a w \<Longrightarrow> w < next_w s"
    and "callers s t = C_Send a w c \<Longrightarrow> w < next_w s"
    and "callers s t = C_Receive a w c d \<Longrightarrow> w < next_w s"
    and "callers s t = C_Release a w res \<Longrightarrow> w < next_w s"
    and "callers s t = B_Select w \<Longrightarrow> w < next_w s"
    and "callers s t = B_Interrupt w \<Longrightarrow> w < next_w s"
    and "listener_at s w \<noteq> L_None \<Longrightarrow> w < next_w s"
    and "listener_at s w = L_Put c res \<Longrightarrow> c < next_c s"
    and "outChanList (workers s w) k = Some c \<Longrightarrow> c < next_c s"
    and "chans s c = Some res \<Longrightarrow> c < next_c s"
    and "wlookup s p i = Some w \<Longrightarrow> w < next_w s"
proof -
  have *: "w < next_w s" if "target (callers s t) = Some w"
    using assms that unfolding fresh_inv_def by blast
  show "callers s t = C_OutChan a w \<Longrightarrow> w < next_w s"
    and "callers s t = C_Acquire a w d \<Longrightarrow> w < next_w s"
    and "callers s t = C_Register a w \<Longrightarrow> w < next_w s"
    and "callers s t = C_Send a w c \<Longrightarrow> w < next_w s"
    and "callers s t = C_Receive a w c d \<Longrightarrow> w < next_w s"
    and "callers s t = C_Release a w res \<Longrightarrow> w < next_w s"
    and "callers s t = B_Select w \<Longrightarrow> w < next_w s"
    and "callers s t = B_Interrupt w \<Longrightarrow> w < next_w s"
    by (rule *, simp)+
  show "listener_at s w \<noteq> L_None \<Longrightarrow> w < next_w s"
    using assms unfolding fresh_inv_def by (metis leI)
  show "listener_at s w = L_Put c res \<Longrightarrow> c < next_c s"
    and "outChanList (workers s w) k = Some c \<Longrightarrow> c < next_c s"
    and "wlookup s p i = Some w \<Longrightarrow> w < next_w s"
    using assms unfolding fresh_inv_def by blast+
  show "chans s c = Some res \<Longrightarrow> c < next_c s"
    using assms unfolding fresh_inv_def by (metis leI option.distinct(1))
qed

lemma fresh_inv_step:
  assumes "fresh_inv s" "exec_action R act s = Some s'"
  shows "fresh_inv s'"
  using assms(2)
proof (cases rule: exec_action_elim)
  case (create t a)
  with assms(1) show ?thesis
    by (auto simp: fresh_inv_def run_create_sel wlookup_create less_Suc_eq Suc_le_eq new_worker_def)
next
  case (remove w)
  with assms(1) show ?thesis
    by (auto simp: fresh_inv_def wlookup_remove)
qed (use assms(1) in
      \<open>auto simp: fresh_inv_def move_defs intro: less_SucI
         dest: fresh_targets(1-8,10) [OF assms(1)]\<close>)

lemma token_holderD:
  assumes "token_inv s" "holder (callers s t) = Some w"
  shows "\<not> signal (workers s w)" "\<not> busy (listener_at s w)"
    "\<And>t'. holder (callers s t') = Some w \<Longrightarrow> t' = t"
  using assms unfolding token_inv_def by blast+

lemma token_busyD:
  assumes "token_inv s" "busy (listener_at s w)"
  shows "\<not> signal (workers s w)" "holder (callers s t) \<noteq> Some w"
  using assms unfolding token_inv_def by blast+

lemma token_inv_step:
  assumes "fresh_inv s" "token_inv s" "exec_action R act s = Some s'"
  shows "token_inv s'"
  using assms(3)
proof (cases rule: exec_action_elim)
  case (create t a)
  have "holder (callers s u) \<noteq> Some (next_w s)" for u
    using assms(1) holder_target [of "callers s u" "next_w s"] by (auto simp: fresh_inv_def)
  with create assms(1,2) show ?thesis
    by (auto simp: token_inv_def fresh_inv_def run_create_sel new_worker_def)
next
  case (register t a w)
  then have "holder (callers s t) = Some w" by simp
  note this_holder = token_holderD [OF assms(2) this]
  from register assms(2) this_holder show ?thesis
    by (auto simp: token_inv_def move_defs)
next
  case (handoff t a w c d)
  then have "holder (callers s t) = Some w" by simp
  note this_holder = token_holderD [OF assms(2) this]
  from handoff assms(2) this_holder show ?thesis
    by (auto simp: token_inv_def)
next
  case (announce w)
  then have "busy (listener_at s w)" by simp
  note owes = token_busyD [OF assms(2) this]
  from announce assms(2) owes show ?thesis by (auto simp: token_inv_def move_defs)
next
  case (start w wrk)
  then have "busy (listener_at s w)" by simp
  note owes = token_busyD [OF assms(2) this]
  from start assms(2) owes show ?thesis by (auto simp: token_inv_def move_defs)
next
  case (task_done w wrk res)
  then have "busy (listener_at s w)" by simp
  note owes = token_busyD [OF assms(2) this]
  from task_done assms(2) owes show ?thesis by (auto simp: token_inv_def move_defs)
next
  case (reply_put w wrk res c)
  then have "busy (listener_at s w)" by simp
  note owes = token_busyD [OF assms(2) this]
  from reply_put assms(2) owes show ?thesis by (auto simp: token_inv_def move_defs)
next
  case (reply_drop w wrk res)
  then have "busy (listener_at s w)" by simp
  note owes = token_busyD [OF assms(2) this]
  from reply_drop assms(2) owes show ?thesis by (auto simp: token_inv_def move_defs)
next
  case (put w c res)
  then have "busy (listener_at s w)" by simp
  note owes = token_busyD [OF assms(2) this]
  from put assms(2) owes show ?thesis by (auto simp: token_inv_def move_defs)
next
  case (finish w res)
  then have "busy (listener_at s w)" by simp
  note owes = token_busyD [OF assms(2) this]
  from finish assms(2) owes show ?thesis by (auto simp: token_inv_def move_defs)
next
  case (signal_exit w res)
  then have "busy (listener_at s w)" by simp
  note owes = token_busyD [OF assms(2) this]
  from signal_exit assms(2) owes show ?thesis by (auto simp: token_inv_def move_defs)
next
  case (signal_wait w res)
  then have "busy (listener_at s w)" by simp
  note owes = token_busyD [OF assms(2) this]
  from signal_wait assms(2) owes show ?thesis by (auto simp: token_inv_def move_defs)
qed (use assms(2) in \<open>auto simp: token_inv_def move_defs\<close>)

lemma reachable_fresh: "reachable R s \<Longrightarrow> fresh_inv s"
  by (erule reachable_inv [where P = fresh_inv]) (auto intro: fresh_inv_init fresh_inv_step)

lemma reachable_token: "reachable R s \<Longrightarrow> token_inv s"
  by (erule reachable_inv [where P = token_inv])
     (auto intro: token_inv_init token_inv_step reachable_fresh)

section \<open>Result channels\<close>

text \<open>The request a task was made from has the worker's path and session.\<close>

definition work_of :: "sys \<Rightarrow> wid \<Rightarrow> work \<Rightarrow> bool" where
  "work_of s w wrk = (to_upper (sessionID wrk) = l_ID (listeners s w))"

definition answer_of :: "(work \<Rightarrow> OracleTaskResult \<Rightarrow> bool) \<Rightarrow> sys \<Rightarrow> wid \<Rightarrow> string
    \<Rightarrow> OracleTaskResult \<Rightarrow> bool" where
  "answer_of R s w k res = (\<exists>wrk. R wrk res \<and> taskID wrk = k \<and> work_of s w wrk)"

fun caller_ok :: "(work \<Rightarrow> OracleTaskResult \<Rightarrow> bool) \<Rightarrow> (cid \<Rightarrow> wid \<times> string) \<Rightarrow> sys \<Rightarrow> cpc \<Rightarrow> bool"
where
  "caller_ok R own s (C_OutChan a w) = (l_ID (listeners s w) = args_session a)"
| "caller_ok R own s (C_Acquire a w d) = (l_ID (listeners s w) = args_session a)"
| "caller_ok R own s (C_Register a w) = (l_ID (listeners s w) = args_session a)"
| "caller_ok R own s (C_Send a w c) =
     (l_ID (listeners s w) = args_session a \<and> c < next_c s \<and> own c = (w, args_task a))"
| "caller_ok R own s (C_Receive a w c d) =
     (l_ID (listeners s w) = args_session a \<and> c < next_c s \<and> own c = (w, args_task a))"
| "caller_ok R own s (C_Release a w res) =
     (l_ID (listeners s w) = args_session a \<and> answer_of R s w (args_task a) res)"
| "caller_ok R own s (C_Return a res) =
     ((\<exists>n. res = empty_result\<lparr>StatusCode := StatusWaitPage, Duration := n\<rparr>) \<or>
      (\<exists>n. res = empty_result\<lparr>StatusCode := StatusBreakPage, Duration := n\<rparr>) \<or>
      (\<exists>wrk. R wrk res \<and> taskID wrk = args_task a \<and> to_upper (sessionID wrk) = args_session a))"
| "caller_ok R own s _ = True"

fun listener_ok :: "(work \<Rightarrow> OracleTaskResult \<Rightarrow> bool) \<Rightarrow> (cid \<Rightarrow> wid \<times> string) \<Rightarrow> sys \<Rightarrow> wid \<Rightarrow> lpc
    \<Rightarrow> bool" where
  "listener_ok R own s w (L_Start wrk) = work_of s w wrk"
| "listener_ok R own s w (L_Running wrk) = work_of s w wrk"
| "listener_ok R own s w (L_Reply wrk res) = (work_of s w wrk \<and> R wrk res)"
| "listener_ok R own s w (L_Put c res) =
     (fst (own c) = w \<and> answer_of R s w (snd (own c)) res)"
| "listener_ok R own s w _ = True"

definition chan_inv :: "(work \<Rightarrow> OracleTaskResult \<Rightarrow> bool) \<Rightarrow> (cid \<Rightarrow> wid \<times> string) \<Rightarrow> sys \<Rightarrow> bool" where
  "chan_inv R own s =
     ((\<forall>w k c. outChanList (workers s w) k = Some c \<longrightarrow> own c = (w, k)) \<and>
      (\<forall>c res. chans s c = Some res \<longrightarrow> answer_of R s (fst (own c)) (snd (own c)) res) \<and>
      (\<forall>c < next_c s. fst (own c) < next_w s) \<and>
      (\<forall>t. caller_ok R own s (callers s t)) \<and>
      (\<forall>w. listener_ok R own s w (listener_at s w)) \<and>
      (\<forall>p i w. wlookup s p i = Some w \<longrightarrow> l_path (listeners s w) = p \<and> l_ID (listeners s w) = i))"

lemma chan_inv_init: "chan_inv R own init_sys"
  by (simp add: chan_inv_def init_sys_def wlookup_def new_worker_def)

text \<open>Moves that keep the identity of every worker keep what is said about works and answers.\<close>

lemma caller_ok_mono:
  assumes ok: "caller_ok R own s pc" and c: "next_c s \<le> next_c s'"
    and id: "\<And>w. target pc = Some w \<Longrightarrow> l_ID (listeners s' w) = l_ID (listeners s w)"
    and own: "\<And>c. c < next_c s \<Longrightarrow> own' c = own c"
  shows "caller_ok R own' s' pc"
proof (cases pc)
  case (C_Release a w res)
  with id have "l_ID (listeners s' w) = l_ID (listeners s w)" by simp
  with C_Release ok show ?thesis by (auto simp: answer_of_def work_of_def)
qed (use ok c id own in auto)

lemma listener_ok_mono:
  assumes ok: "listener_ok R own s w pc" and id: "l_ID (listeners s' w) = l_ID (listeners s w)"
    and own: "\<And>c res. pc = L_Put c res \<Longrightarrow> own' c = own c"
  shows "listener_ok R own' s' w pc"
  using ok own by (cases pc) (auto simp: answer_of_def work_of_def id)

lemma chan_invI:
  assumes "\<And>w k c. outChanList (workers s w) k = Some c \<Longrightarrow> own c = (w, k)"
    and "\<And>c res. chans s c = Some res \<Longrightarrow> answer_of R s (fst (own c)) (snd (own c)) res"
    and "\<And>c. c < next_c s \<Longrightarrow> fst (own c) < next_w s"
    and "\<And>t. caller_ok R own s (callers s t)"
    and "\<And>w. listener_ok R own s w (listener_at s w)"
    and "\<And>p i w. wlookup s p i = Some w \<Longrightarrow> l_path (listeners s w) = p \<and> l_ID (listeners s w) = i"
  shows "chan_inv R own s"
  unfolding chan_inv_def by (intro conjI allI impI; fact assms [rule_format] | simp add: assms)

lemma chan_invD:
  assumes "chan_inv R own s"
  shows "outChanList (workers s w) k = Some c \<Longrightarrow> own c = (w, k)"
    and "chans s c = Some res \<Longrightarrow> answer_of R s (fst (own c)) (snd (own c)) res"
    and "c < next_c s \<Longrightarrow> fst (own c) < next_w s"
    and "caller_ok R own s (callers s t)"
    and "listener_ok R own s w (listener_at s w)"
    and "wlookup s p i = Some w \<Longrightarrow> l_path (listeners s w) = p \<and> l_ID (listeners s w) = i"
  using assms unfolding chan_inv_def by blast+

lemma chan_inv_step_same:
  assumes inv: "chan_inv R own s"
    and ids: "\<And>w. l_path (listeners s' w) = l_path (listeners s w)"
       "\<And>w. l_ID (listeners s' w) = l_ID (listeners s w)"
    and c: "next_c s' = next_c s" and w: "next_w s' = next_w s"
    and outs: "\<And>w k c. outChanList (workers s' w) k = Some c \<Longrightarrow> outChanList (workers s w) k = Some c"
    and look: "\<And>p i w. wlookup s' p i = Some w \<Longrightarrow> wlookup s p i = Some w"
    and ch: "\<And>c res. chans s' c = Some res \<Longrightarrow>
        chans s c = Some res \<or> answer_of R s (fst (own c)) (snd (own c)) res"
    and cal: "\<And>t. callers s' t = callers s t \<or> caller_ok R own s (callers s' t)"
    and lis: "\<And>w. listener_at s' w = listener_at s w \<or> listener_ok R own s w (listener_at s' w)"
  shows "chan_inv R own s'"
proof (rule chan_invI)
  fix w k c
  assume "outChanList (workers s' w) k = Some c"
  then show "own c = (w, k)" by (rule chan_invD(1) [OF inv outs])
next
  fix c res
  assume "chans s' c = Some res"
  then have "answer_of R s (fst (own c)) (snd (own c)) res"
    using ch chan_invD(2) [OF inv] by blast
  then show "answer_of R s' (fst (own c)) (snd (own c)) res"
    by (simp add: answer_of_def work_of_def ids)
next
  fix d
  assume "d < next_c s'"
  then show "fst (own d) < next_w s'" using chan_invD(3) [OF inv] by (simp add: c w)
next
  fix t
  have "caller_ok R own s (callers s' t)"
    using cal [of t] chan_invD(4) [OF inv, of t] by auto
  then show "caller_ok R own s' (callers s' t)"
    by (rule caller_ok_mono) (simp_all add: ids c)
next
  fix w
  have "listener_ok R own s w (listener_at s' w)"
    using lis [of w] chan_invD(5) [OF inv, of w] by auto
  then show "listener_ok R own s' w (listener_at s' w)"
    by (rule listener_ok_mono) (simp_all add: ids)
next
  fix p i w
  assume "wlookup s' p i = Some w"
  then show "l_path (listeners s' w) = p \<and> l_ID (listeners s' w) = i"
    using chan_invD(6) [OF inv look] by (simp add: ids)
qed

lemma chan_inv_create:
  assumes fr: "fresh_inv s" and inv: "chan_inv R own s"
    and "callers s t = C_Create a" and ty: "typeTasker a \<in> {0, 1, 2}"
  shows "chan_inv R own (run_create t a s)"
proof -
  let ?s = "run_create t a s" and ?w = "next_w s"
  note sel = run_create_sel [OF ty]
  have id: "l_ID (listeners ?s w) = l_ID (listeners s w)" if "w < ?w" for w
    using that by (simp add: sel)
  show ?thesis
  proof (rule chan_invI)
    fix w k c
    assume "outChanList (workers ?s w) k = Some c"
    then have "outChanList (workers s w) k = Some c"
      by (auto simp: sel new_worker_def split: if_splits)
    then show "own c = (w, k)" by (rule chan_invD(1) [OF inv])
  next
    fix c res
    assume "chans ?s c = Some res"
    then have cs: "chans s c = Some res" by (simp add: sel)
    then have "fst (own c) < ?w" by (rule chan_invD(3) [OF inv fresh_targets(12) [OF fr]])
    with chan_invD(2) [OF inv cs] show "answer_of R ?s (fst (own c)) (snd (own c)) res"
      by (simp add: answer_of_def work_of_def id)
  next
    fix c
    assume "c < next_c ?s"
    then have "fst (own c) < ?w" using chan_invD(3) [OF inv] by (simp add: sel)
    then show "fst (own c) < next_w ?s" by (simp add: sel)
  next
    fix u
    have "caller_ok R own ?s (callers s u)"
    proof (rule caller_ok_mono [OF chan_invD(4) [OF inv]])
      fix w
      assume "target (callers s u) = Some w"
      with fr have "w < ?w" by (auto simp: fresh_inv_def)
      then show "l_ID (listeners ?s w) = l_ID (listeners s w)" by (rule id)
    qed (simp_all add: sel)
    then show "caller_ok R own ?s (callers ?s u)" by (simp add: sel)
  next
    fix w
    show "listener_ok R own ?s w (listener_at ?s w)"
    proof (cases "w = ?w")
      case True
      then show ?thesis by (simp add: sel)
    next
      case False
      have "listener_ok R own ?s w (listener_at s w)"
        by (rule listener_ok_mono [OF chan_invD(5) [OF inv]]) (use False in \<open>simp_all add: sel\<close>)
      with False show ?thesis by (simp add: sel)
    qed
  next
    fix p i w
    assume "wlookup ?s p i = Some w"
    moreover have "w \<noteq> ?w" if "wlookup s p i = Some w"
      using fresh_targets(13) [OF fr that] by simp
    ultimately show "l_path (listeners ?s w) = p \<and> l_ID (listeners ?s w) = i"
      using chan_invD(6) [OF inv, of p i w]
      by (auto simp: sel wlookup_create [OF ty] split: if_splits)
  qed
qed

lemma chan_inv_register:
  assumes fr: "fresh_inv s" and inv: "chan_inv R own s" and t: "callers s t = C_Register a w"
  shows "chan_inv R (own(next_c s := (w, args_task a))) (run_register t a w s)"
proof -
  let ?s = "run_register t a w s" and ?own = "own(next_c s := (w, args_task a))"
  have w: "w < next_w s" using fr t by (rule fresh_targets)
  have old: "c < next_c s \<Longrightarrow> ?own c = own c" for c by simp
  show ?thesis
  proof (rule chan_invI)
    fix v k c
    assume "outChanList (workers ?s v) k = Some c"
    then have "v = w \<and> k = args_task a \<and> c = next_c s \<or> outChanList (workers s v) k = Some c"
      by (auto simp: move_defs split: if_splits)
    moreover have "c < next_c s" if "outChanList (workers s v) k = Some c"
      using that by (rule fresh_targets(11) [OF fr])
    ultimately show "?own c = (v, k)"
      using chan_invD(1) [OF inv, of v k c] by auto
  next
    fix c res
    assume "chans ?s c = Some res"
    then have cs: "chans s c = Some res" and n: "c \<noteq> next_c s"
      by (auto simp: move_defs split: if_splits)
    from chan_invD(2) [OF inv cs] n show "answer_of R ?s (fst (?own c)) (snd (?own c)) res"
      by (simp add: answer_of_def work_of_def move_defs)
  next
    fix c
    assume "c < next_c ?s"
    then show "fst (?own c) < next_w ?s"
      using chan_invD(3) [OF inv, of c] w by (auto simp: move_defs less_Suc_eq)
  next
    fix u
    have "caller_ok R ?own ?s (callers s u)"
      by (rule caller_ok_mono [OF chan_invD(4) [OF inv]]) (simp_all add: move_defs)
    then show "caller_ok R ?own ?s (callers ?s u)"
      using chan_invD(4) [OF inv, of t] t by (simp add: move_defs)
  next
    fix v
    have "listener_ok R ?own ?s v (listener_at s v)"
      by (rule listener_ok_mono [OF chan_invD(5) [OF inv]])
         (use fresh_targets(10) [OF fr, of v] in \<open>auto simp: move_defs\<close>)
    then show "listener_ok R ?own ?s v (listener_at ?s v)" by (simp add: move_defs)
  next
    fix p i v
    assume "wlookup ?s p i = Some v"
    then show "l_path (listeners ?s v) = p \<and> l_ID (listeners ?s v) = i"
      using chan_invD(6) [OF inv, of p i v] by (simp add: move_defs)
  qed
qed

lemma chan_inv_step:
  assumes fr: "fresh_inv s" and inv: "chan_inv R own s" and st: "exec_action R act s = Some s'"
  shows "\<exists>own'. chan_inv R own' s'"
  using st
proof (cases rule: exec_action_elim)
  case (create t a)
  then show ?thesis using chan_inv_create [OF fr inv] by blast
next
  case (register t a w)
  then show ?thesis using chan_inv_register [OF fr inv] by blast
next
  case (look_found t a w)
  show ?thesis
    by (rule exI, rule chan_inv_step_same [OF inv])
       (use chan_invD(6) [OF inv] look_found in \<open>auto\<close>)
next
  case (known_task t a w c)
  show ?thesis
    by (rule exI, rule chan_inv_step_same [OF inv])
       (use chan_invD(4) [OF inv, of t] known_task chan_invD(1) [OF inv known_task(2)] fresh_targets(11) [OF fr known_task(2)] in \<open>auto\<close>)
next
  case (handoff t a w c d)
  show ?thesis
    by (rule exI, rule chan_inv_step_same [OF inv])
       (use chan_invD(4) [OF inv, of t] handoff in \<open>auto simp: work_of_def args_session_def\<close>)
next
  case (receive t a w c d res)
  show ?thesis
    by (rule exI, rule chan_inv_step_same [OF inv])
       (use chan_invD(4) [OF inv, of t] receive chan_invD(2) [OF inv receive(2)] in \<open>auto split: if_splits\<close>)
next
  case (release t a w res)
  show ?thesis
    by (rule exI, rule chan_inv_step_same [OF inv])
       (use chan_invD(4) [OF inv, of t] release in \<open>auto simp: move_defs answer_of_def work_of_def split: if_splits\<close>)
next
  case (reply_put w wrk res c)
  show ?thesis
    by (rule exI, rule chan_inv_step_same [OF inv])
       (use chan_invD(5) [OF inv, of w] reply_put chan_invD(1) [OF inv reply_put(2)] in \<open>auto simp: answer_of_def\<close>)
next
  case (task_done w wrk res)
  show ?thesis
    by (rule exI, rule chan_inv_step_same [OF inv])
       (use chan_invD(5) [OF inv, of w] task_done in \<open>auto\<close>)
next
  case (start w wrk)
  show ?thesis
    by (rule exI, rule chan_inv_step_same [OF inv])
       (use chan_invD(5) [OF inv, of w] start in \<open>auto simp: move_defs split: if_splits\<close>)
next
  case (put w c res)
  show ?thesis
    by (rule exI, rule chan_inv_step_same [OF inv])
       (use chan_invD(5) [OF inv, of w] put in \<open>auto split: if_splits\<close>)
next
  case (remove w)
  show ?thesis
    by (rule exI, rule chan_inv_step_same [OF inv])
       (use remove in \<open>auto simp: wlookup_remove split: if_splits\<close>)
next
  case (new_task t a w)
  show ?thesis
    by (rule exI, rule chan_inv_step_same [OF inv])
       (use chan_invD(4) [OF inv, of t] new_task in \<open>auto\<close>)
next
  case (acquire t a w d)
  show ?thesis
    by (rule exI, rule chan_inv_step_same [OF inv])
       (use chan_invD(4) [OF inv, of t] acquire in \<open>auto split: if_splits\<close>)
next
  case (acquire_timeout t a w d)
  show ?thesis
    by (rule exI, rule chan_inv_step_same [OF inv])
       (use acquire_timeout in \<open>auto simp: break_page_def\<close>)
next
  case (receive_timeout t a w c d)
  show ?thesis
    by (rule exI, rule chan_inv_step_same [OF inv])
       (use receive_timeout in \<open>auto simp: wait_page_def\<close>)
qed (rule exI, rule chan_inv_step_same [OF inv]; auto simp: move_defs split: if_splits)+

lemma reachable_chan: "reachable R s \<Longrightarrow> \<exists>own. chan_inv R own s"
proof (erule reachable_inv [where P = "\<lambda>s. \<exists>own. chan_inv R own s"])
  show "\<exists>own. chan_inv R own init_sys" using chan_inv_init by blast
next
  fix s act s'
  assume "reachable R s" "\<exists>own. chan_inv R own s" "exec_action R act s = Some s'"
  then show "\<exists>own. chan_inv R own s'" using chan_inv_step reachable_fresh by blast
qed

end
