(* ===== verification/Worker_Live.thy ===== *)
theory Worker_Live
  imports Worker_Inv
begin

text \<open>
  Invariants the delivery of results rests on (a result channel a listener will write to is
  empty), which workers the registry names, and the session counter.
\<close>

section \<open>The channel a listener writes to is empty\<close>

fun pending :: "lpc \<Rightarrow> string option" where
  "pending (L_Start wrk) = Some (taskID wrk)"
| "pending (L_Running wrk) = Some (taskID wrk)"
| "pending (L_Reply wrk res) = Some (taskID wrk)"
| "pending _ = None"

definition delivery_inv :: "sys \<Rightarrow> bool" where
  "delivery_inv s =
     ((\<forall>t a w c. callers s t = C_Send a w c \<longrightarrow> chans s c = None) \<and>
      (\<forall>t a w c c'. callers s t = C_Send a w c \<longrightarrow>
         outChanList (workers s w) (args_task a) = Some c' \<longrightarrow> c' = c) \<and>
      (\<forall>w k c. pending (listener_at s w) = Some k \<longrightarrow> outChanList (workers s w) k = Some c \<longrightarrow>
         chans s c = None) \<and>
      (\<forall>w c res. listener_at s w = L_Put c res \<longrightarrow> chans s c = None))"

lemma delivery_inv_init: "delivery_inv init_sys"
  by (simp add: delivery_inv_def init_sys_def)

lemma deliveryD:
  assumes "delivery_inv s"
  shows "callers s t = C_Send a w c \<Longrightarrow> chans s c = None"
    and "callers s t = C_Send a w c \<Longrightarrow> outChanList (workers s w) (args_task a) = Some c' \<Longrightarrow> c' = c"
    and "pending (listener_at s w) = Some k \<Longrightarrow> outChanList (workers s w) k = Some c \<Longrightarrow> chans s c = None"
    and "listener_at s w = L_Put c res \<Longrightarrow> chans s c = None"
  using assms unfolding delivery_inv_def by blast+

lemma pending_busy: "pending l = Some k \<Longrightarrow> busy l"
  by (cases l) auto

lemma delivery_same:
  assumes inv: "delivery_inv s"
    and ch: "\<And>c. chans s c = None \<Longrightarrow> chans s' c = None"
    and outs: "\<And>w k c. outChanList (workers s' w) k = Some c \<Longrightarrow> outChanList (workers s w) k = Some c"
    and cal: "\<And>t a w c. callers s' t = C_Send a w c \<Longrightarrow> callers s t = C_Send a w c"
    and pend: "\<And>w k. pending (listener_at s' w) = Some k \<Longrightarrow> pending (listener_at s w) = Some k"
    and lput: "\<And>w c res. listener_at s' w = L_Put c res \<Longrightarrow> listener_at s w = L_Put c res \<or> chans s c = None"
  shows "delivery_inv s'"
  unfolding delivery_inv_def
  by (intro conjI allI impI; use deliveryD [OF inv] ch outs cal pend lput in metis)

lemma delivery_inv_step:
  assumes fr: "fresh_inv s" and tok: "token_inv s" and ch: "chan_inv R own s"
    and inv: "delivery_inv s" and st: "exec_action R act s = Some s'"
  shows "delivery_inv s'"
  using st
proof (cases rule: exec_action_elim)
  case (create t a)
  show ?thesis
    by (rule delivery_same [OF inv])
       (use create in \<open>auto simp: run_create_sel new_worker_def split: if_splits\<close>)
next
  case (register t a w)
  have own: "holder (callers s t) = Some w" using register by simp
  have sole: "u = t" if "callers s u = C_Send b w c" for u b c
    using token_holderD(3) [OF tok own, of u] that by simp
  have free: "pending (listener_at s w) = None"
    using token_holderD(2) [OF tok own] pending_busy by fastforce
  note old = fresh_targets(10-11) [OF fr]
  from register inv sole free show ?thesis
    by (auto simp: delivery_inv_def move_defs dest: old)
next
  case (handoff t a w c d)
  have "holder (callers s t) = Some w" using handoff by simp
  note tok = token_holderD [OF tok this]
  have empty: "chans s c' = None"
    if "outChanList (workers s w) (taskID (args_work a)) = Some c'" for c'
    using deliveryD(1,2) [OF inv handoff(1)] that by (auto simp: args_task_def)
  from handoff inv tok show ?thesis
    by (auto simp: delivery_inv_def args_task_def split: if_splits intro: empty)
next
  case (reply_put w wrk res c)
  show ?thesis
    by (rule delivery_same [OF inv])
       (use reply_put deliveryD(3) [OF inv, of w] in \<open>auto split: if_splits\<close>)
next
  case (put w c res)
  have w: "fst (own c) = w" using chan_invD(5) [OF ch, of w] put by simp
  have b: "busy (listener_at s w)" using put by simp
  have 1: False if "callers s t = C_Send a w' c" for t a w'
    using chan_invD(4) [OF ch, of t] token_busyD(2) [OF tok b, of t] that w by auto
  have 2: "w' = w" if "outChanList (workers s w') k = Some c" for k w'
    using chan_invD(1) [OF ch that(1)] w by auto
  have 3: "w' = w" if "listener_at s w' = L_Put c res'" for w' res'
    using chan_invD(5) [OF ch, of w'] w that by auto
  from put inv show ?thesis
    by (auto simp: delivery_inv_def split: if_splits dest: 1 2 3)
qed (rule delivery_same [OF inv]; auto simp: move_defs split: if_splits)+

lemma reachable_delivery: "reachable R s \<Longrightarrow> delivery_inv s"
proof (erule reachable_inv [where P = delivery_inv])
  fix s act s'
  assume "reachable R s" "delivery_inv s" "exec_action R act s = Some s'"
  then show "delivery_inv s'"
    using delivery_inv_step reachable_fresh reachable_token reachable_chan by metis
qed (rule delivery_inv_init)

text \<open>What a listener does next never waits for another goroutine, except for a task to arrive
  and for its tasker to return.\<close>

lemma listener_step_enabled:
  assumes "reachable R s" "busy (listener_at s w)" "\<nexists>wrk. listener_at s w = L_Running wrk"
  shows "listener_step w s \<noteq> None"
  using assms(2,3) token_busyD(1) [OF reachable_token [OF assms(1)] assms(2)]
    deliveryD(4) [OF reachable_delivery [OF assms(1)], of w]
  by (cases "listener_at s w")
     (auto simp: listener_step_def listener_announce_def listener_signal_def listener_put_def Let_def)

section \<open>The registry and the session counter\<close>

fun listening :: "lpc \<Rightarrow> bool" where
  "listening L_None = False"
| "listening L_Close = False"
| "listening L_Count = False"
| "listening L_Done = False"
| "listening _ = True"

definition registry_inv :: "sys \<Rightarrow> bool" where
  "registry_inv s =
     (\<forall>p i w. wlookup s p i = Some w \<longrightarrow>
        listening (listener_at s w) \<and> l_path (listeners s w) = p \<and> l_ID (listeners s w) = i)"

definition live_workers :: "sys \<Rightarrow> wid set" where
  "live_workers s = {w. w < next_w s \<and> listener_at s w \<noteq> L_Done}"

definition session_inv :: "sys \<Rightarrow> bool" where
  "session_inv s = (numberOfSessions s = int (card (live_workers s)))"

lemma registry_same:
  assumes "registry_inv s"
    and "\<And>p i w. wlookup s' p i = Some w \<Longrightarrow> wlookup s p i = Some w"
    and "\<And>w. listening (listener_at s w) \<Longrightarrow> listening (listener_at s' w) "
    and "\<And>w. l_path (listeners s' w) = l_path (listeners s w)"
    and "\<And>w. l_ID (listeners s' w) = l_ID (listeners s w)"
  shows "registry_inv s'"
  using assms unfolding registry_inv_def by metis

lemma registry_inv_step:
  assumes fr: "fresh_inv s" and inv: "registry_inv s" and st: "exec_action R act s = Some s'"
  shows "registry_inv s'"
  using st
proof (cases rule: exec_action_elim)
  case (create t a)
  with inv show ?thesis
    by (auto simp: registry_inv_def run_create_sel wlookup_create dest: fresh_targets(13) [OF fr])
next
  case (remove w)
  with inv show ?thesis
    by (auto simp: registry_inv_def wlookup_remove split: if_splits)
qed (rule registry_same [OF inv]; auto simp: move_defs split: if_splits)+

lemma registry_inv_init: "registry_inv init_sys"
  by (simp add: registry_inv_def init_sys_def wlookup_def)

lemma reachable_registry: "reachable R s \<Longrightarrow> registry_inv s"
  by (erule reachable_inv [where P = registry_inv])
     (auto intro: registry_inv_init registry_inv_step reachable_fresh)

lemma live_workers_finite [simp]: "finite (live_workers s)"
  by (simp add: live_workers_def)

lemma session_same:
  assumes "session_inv s" "numberOfSessions s' = numberOfSessions s" "next_w s' = next_w s"
    and "\<And>w. (listener_at s' w = L_Done) = (listener_at s w = L_Done)"
  shows "session_inv s'"
  using assms by (simp add: session_inv_def live_workers_def)

lemma session_inv_step:
  assumes fr: "fresh_inv s" and inv: "session_inv s" and st: "exec_action R act s = Some s'"
  shows "session_inv s'"
  using st
proof (cases rule: exec_action_elim)
  case (create t a)
  then have "live_workers s' = insert (next_w s) (live_workers s)"
    by (auto simp: live_workers_def run_create_sel)
  moreover have "next_w s \<notin> live_workers s" by (simp add: live_workers_def)
  ultimately show ?thesis using inv create by (simp add: session_inv_def run_create_sel)
next
  case (count w)
  then have "w < next_w s" by (intro fresh_targets(9) [OF fr]) simp
  with count have w: "w \<in> live_workers s" by (simp add: live_workers_def)
  from count have "live_workers s' = live_workers s - {w}"
    by (auto simp: live_workers_def move_defs)
  moreover have "card (live_workers s) > 0" using w by (auto simp: card_gt_0_iff)
  ultimately show ?thesis using inv count w
    by (simp add: session_inv_def move_defs card_Diff_singleton of_nat_diff)
qed (rule session_same [OF inv]; auto simp: move_defs split: if_splits)+

lemma session_inv_init: "session_inv init_sys"
  by (simp add: session_inv_def live_workers_def init_sys_def)

lemma reachable_session: "reachable R s \<Longrightarrow> session_inv s"
  by (erule reachable_inv [where P = session_inv])
     (auto intro: session_inv_init session_inv_step reachable_fresh)

end
