(* ===== verification/Worker_Props.thy ===== *)
theory Worker_Props
  imports Worker_Live
begin

text \<open>
  What the scheduler guarantees, and the orders of events in which it does not do what its
  comments say: a second worker for one session, a caller that waits for a worker that is gone,
  an idle worker that \<open>Break\<close> leaves without its token.
\<close>

section \<open>Concrete runs\<close>

definition some_args :: "string \<Rightarrow> string \<Rightarrow> run_args" where
  "some_args i k =
     \<lparr>path = ''asu'', typeTasker = 0,
      args_work = \<lparr>sessionID = i, taskID = k, reqUserName = [], reqUserPass = [], reqConnStr = [],
        reqParamStoreProc = [], reqBeforeScript = [], reqAfterScript = [], reqDocumentTable = [],
        reqCGIEnv = [], reqProc = ''root'', reqParams = [], reqFiles = None, dumpFileName = []\<rparr>,
      waitTimeout = 10, idleTimeout = 100\<rparr>"

definition ok_result :: OracleTaskResult where
  "ok_result = empty_result\<lparr>StatusCode := StatusOK\<rparr>"

definition answers :: "work \<Rightarrow> OracleTaskResult \<Rightarrow> bool" where
  "answers wrk res = (res = ok_result \<or> res = empty_result\<lparr>StatusCode := StatusRequestWasInterrupted\<rparr>)"

text \<open>A request that finds no worker, makes one and hands its task over.\<close>

definition submit :: "tid \<Rightarrow> wid \<Rightarrow> run_args \<Rightarrow> action list" where
  "submit t w a =
     [A_Call t a, A_Caller t, A_Caller t, A_Listener w, A_Caller t, A_Caller t, A_Caller t,
      A_Handoff t, A_Listener w]"

lemmas run_simps = run_actions.simps exec_action.simps caller_step_def listener_step_def
  caller_timeout_def listener_remove_def run_create_def
  caller_defs listener_defs init_sys_def goto_def lgoto_def upd_worker_def wlookup_def
  args_path_def args_session_def args_task_def some_args_def new_worker_def submit_def
  answers_def ok_result_def empty_result_def Let_def status_defs

definition run_state :: "action list \<Rightarrow> sys" where
  "run_state as = the (run_actions answers as init_sys)"

lemma run_state_reachable:
  assumes "run_actions answers as init_sys \<noteq> None"
  shows "reachable answers (run_state as)"
  using assms run_actions_reachable [OF reach_init] by (auto simp: run_state_def)


section \<open>One task at a time\<close>

text \<open>C1: the idle token of a worker is conserved.  At any moment at most one request holds it
  on its way to hand over a task, then the listener is not working; while the channel holds the
  token nobody is; so no worker ever has two tasks at a time.  This is a statement on one worker: a session can
  come to have two of them.\<close>

theorem task_exclusion:
  assumes "reachable R s"
  shows "(\<forall>t u. holder (callers s t) = Some w \<and> holder (callers s u) = Some w \<longrightarrow> t = u) \<and>
         (\<forall>t. holder (callers s t) = Some w \<longrightarrow> \<not> busy (listener_at s w)) \<and>
         (signal (workers s w) \<longrightarrow>
            \<not> busy (listener_at s w) \<and> (\<forall>t. holder (callers s t) \<noteq> Some w))"
  using reachable_token [OF assms] unfolding token_inv_def by blast

definition running_state :: sys where
  "running_state = run_state (submit 0 0 (some_args ''s'' ''t''))"

lemma running_reachable: "reachable answers running_state"
  unfolding running_state_def
  by (rule run_state_reachable) (simp add: run_simps str_eval)

lemma running_state_at:
  "listener_at running_state 0 = L_Running (args_work (some_args ''s'' ''t''))"
  "outChanList (workers running_state 0) ''t'' = Some 0"
  "clock running_state = 0" "l_idle (listeners running_state 0) = 100"
  "callers running_state 0 = C_Receive (some_args ''s'' ''t'') 0 0 10"
  "wlookup running_state ''ASU'' ''S'' = Some 0"
  by (simp_all add: running_state_def run_state_def run_simps str_eval)

theorem task_exclusion_witness:
  "busy (listener_at running_state 0) \<and> \<not> signal (workers running_state 0)"
  using task_exclusion [OF running_reachable, of 0] by (simp add: running_state_at)

section \<open>A task's answer\<close>

text \<open>C22: a listener that has work to do is never blocked by other goroutines: outside its
  select, and while its tasker is not running, its next action is enabled.  Sending the token
  and sending a result never wait.\<close>

theorem listener_never_blocks:
  assumes "reachable R s"
    and "listener_at s w \<noteq> L_None" "listener_at s w \<noteq> L_Done"
    and "\<And>d. listener_at s w \<noteq> L_Select d" "\<And>wrk. listener_at s w \<noteq> L_Running wrk"
  shows "\<exists>s'. exec_action R (A_Listener w) s = Some s'"
proof (cases "busy (listener_at s w)")
  case True
  then show ?thesis using listener_step_enabled [OF assms(1) True] assms(5) by auto
next
  case False
  with assms(2-4) show ?thesis by (cases "listener_at s w") (auto simp: listener_step_def)
qed

definition answered_state :: sys where
  "answered_state =
     run_state (submit 0 0 (some_args ''s'' ''t'') @ [A_TaskerDone 0 ok_result, A_Listener 0])"

lemma answered_reachable: "reachable answers answered_state"
  unfolding answered_state_def
  by (rule run_state_reachable) (simp add: run_simps str_eval)

lemma answered_state_at: "listener_at answered_state 0 = L_Put 0 ok_result"
  by (simp add: answered_state_def run_state_def run_simps str_eval)

theorem listener_never_blocks_witness:
  "\<exists>s'. exec_action answers (A_Listener 0) answered_state = Some s'"
  using listener_never_blocks [OF answered_reachable, of 0] by (simp add: answered_state_at)

text \<open>C7: when the tasker answers a running task, the listener alone, without help from any
  request, stores the answer in the channel the task is registered under, returns the token and
  goes back to waiting, or to its clean-up when the request was interrupted.\<close>

theorem answer_is_delivered:
  assumes "reachable R s" "listener_at s w = L_Running wrk" "R wrk res"
  shows "\<exists>s'. run_actions R
      ([A_TaskerDone w res, A_Listener w] @
       (if outChanList (workers s w) (taskID wrk) = None then [] else [A_Listener w]) @
       [A_Listener w, A_Listener w]) s = Some s' \<and>
     signal (workers s' w) \<and> \<not> started (workers s' w) \<and>
     (\<forall>c. outChanList (workers s w) (taskID wrk) = Some c \<longrightarrow> chans s' c = Some res) \<and>
     listener_at s' w =
       (if StatusCode res = StatusRequestWasInterrupted then L_Remove
        else L_Select (clock s + l_idle (listeners s w)))"
proof -
  have "\<not> signal (workers s w)"
    using token_busyD(1) [OF reachable_token [OF assms(1)]] assms(2) by simp
  moreover have "chans s c = None" if "outChanList (workers s w) (taskID wrk) = Some c" for c
    using deliveryD(3) [OF reachable_delivery [OF assms(1)] _ that] assms(2) by simp
  ultimately show ?thesis using assms(2,3)
    by (cases "outChanList (workers s w) (taskID wrk)")
       (simp_all add: tasker_done_def listener_step_def listener_reply_def listener_put_def
         listener_finish_def listener_signal_def listener_wait_def)
qed

theorem answer_is_delivered_witness:
  "\<exists>s'. run_actions answers
      [A_TaskerDone 0 ok_result, A_Listener 0, A_Listener 0, A_Listener 0, A_Listener 0]
      running_state = Some s' \<and> chans s' 0 = Some ok_result \<and> signal (workers s' 0)"
  using answer_is_delivered [OF running_reachable running_state_at(1), of ok_result]
  by (auto simp: running_state_at some_args_def answers_def)

text \<open>C2: what \<open>Run\<close> returns is a wait page, a break page, or an answer of the tasker to a task
  with the caller's task identifier, submitted for the caller's session: results are never
  routed to another session or another task.\<close>

theorem answer_is_own:
  assumes "reachable R s" "callers s t = C_Return a res"
  shows "(\<exists>n. res = empty_result\<lparr>StatusCode := StatusWaitPage, Duration := n\<rparr>) \<or>
         (\<exists>n. res = empty_result\<lparr>StatusCode := StatusBreakPage, Duration := n\<rparr>) \<or>
         (\<exists>wrk. R wrk res \<and> taskID wrk = taskID (args_work a) \<and>
            to_upper (sessionID wrk) = to_upper (sessionID (args_work a)))"
proof -
  obtain own where "chan_inv R own s" using reachable_chan [OF assms(1)] by blast
  from chan_invD(4) [OF this, of t] assms(2) show ?thesis
    by (simp add: args_task_def args_session_def)
qed

definition returned_state :: sys where
  "returned_state =
     run_state (submit 0 0 (some_args ''s'' ''t'') @
       [A_TaskerDone 0 ok_result, A_Listener 0, A_Listener 0, A_Caller 0, A_Caller 0])"

lemma returned_reachable: "reachable answers returned_state"
  unfolding returned_state_def
  by (rule run_state_reachable) (simp add: run_simps str_eval)

lemma returned_state_at: "callers returned_state 0 = C_Return (some_args ''s'' ''t'') ok_result"
  by (simp add: returned_state_def run_state_def run_simps str_eval)

theorem answer_is_own_witness:
  "\<exists>wrk. answers wrk ok_result \<and> taskID wrk = ''t'' \<and> to_upper (sessionID wrk) = to_upper ''s''"
  using answer_is_own [OF returned_reachable returned_state_at]
  by (auto simp: ok_result_def empty_result_def status_defs some_args_def)

section \<open>Registry and session counter\<close>

text \<open>C32: a worker found in \<open>wlist\<close> was made for that path and session, and its listener has not
  closed the connection or left.\<close>

theorem registry_sound:
  assumes "reachable R s" "wlookup s p i = Some w"
  shows "listening (listener_at s w) \<and> l_path (listeners s w) = p \<and> l_ID (listeners s w) = i"
  using reachable_registry [OF assms(1)] assms(2) unfolding registry_inv_def by blast

theorem registry_sound_witness: "listening (listener_at running_state 0)"
  using registry_sound [OF running_reachable running_state_at(6)] by simp

text \<open>The metric \<open>numberOfSessions\<close> is at any moment the number of workers made and not yet
  gone.\<close>

theorem sessions_counted:
  assumes "reachable R s"
  shows "numberOfSessions s = int (card {w. w < next_w s \<and> listener_at s w \<noteq> L_Done})"
  using reachable_session [OF assms] by (simp add: session_inv_def live_workers_def)

theorem sessions_counted_witness:
  "numberOfSessions running_state =
     int (card {w. w < next_w running_state \<and> listener_at running_state w \<noteq> L_Done})"
  by (rule sessions_counted [OF running_reachable])

section \<open>Unlucky orders of events\<close>

text \<open>C37: \<open>Run\<close> looks a worker up and makes one in two critical sections.  Two requests of one new
  session can both make a worker: whatever the tasker, a state is reachable where two listeners
  serve the same path and session, of which \<open>wlist\<close> names one, and a later one where the clean-up of
  the other has taken the entry away from the worker that still listens.\<close>

theorem two_workers_one_session:
  "\<exists>s s'. reachable R s \<and> reachable R s' \<and>
     listening (listener_at s 0) \<and> listening (listener_at s 1) \<and>
     l_path (listeners s 0) = l_path (listeners s 1) \<and> l_ID (listeners s 0) = l_ID (listeners s 1) \<and>
     wlookup s (l_path (listeners s 1)) (l_ID (listeners s 1)) = Some 1 \<and>
     listening (listener_at s' 1) \<and>
     wlookup s' (l_path (listeners s' 1)) (l_ID (listeners s' 1)) = None"
proof -
  let ?race = "[A_Call 0 (some_args ''s'' ''t''), A_Call 1 (some_args ''S'' ''u''),
     A_Caller 0, A_Caller 1, A_Caller 0, A_Caller 1]"
  let ?s = "the (run_actions R ?race init_sys)"
  let ?more = "[A_Listener 0, A_Tick 100, A_ListenerTimeout 0, A_Listener 0]"
  let ?s' = "the (run_actions R (?race @ ?more) init_sys)"
  have runs: "run_actions R ?race init_sys \<noteq> None" "run_actions R (?race @ ?more) init_sys \<noteq> None"
    by (simp_all add: run_simps str_eval)
  then have "reachable R ?s" "reachable R ?s'"
    using run_actions_reachable [OF reach_init] by fastforce+
  moreover have
    "listening (listener_at ?s 0) \<and> listening (listener_at ?s 1) \<and>
     l_path (listeners ?s 0) = l_path (listeners ?s 1) \<and> l_ID (listeners ?s 0) = l_ID (listeners ?s 1) \<and>
     wlookup ?s (l_path (listeners ?s 1)) (l_ID (listeners ?s 1)) = Some 1"
    by (simp add: run_simps str_eval)
  moreover have "listening (listener_at ?s' 1)"
     "wlookup ?s' (l_path (listeners ?s' 1)) (l_ID (listeners ?s' 1)) = None"
    by (simp_all add: run_simps str_eval)
  ultimately show ?thesis by blast
qed

fun leaving :: "lpc \<Rightarrow> bool" where
  "leaving L_Remove = True"
| "leaving L_Close = True"
| "leaving L_Count = True"
| "leaving L_Done = True"
| "leaving _ = False"

lemma leaving_step:
  assumes "reachable R s" "leaving (listener_at s w)" "exec_action R act s = Some s'"
  shows "leaving (listener_at s' w)"
proof -
  have w: "w < next_w s"
    by (rule fresh_targets(9) [OF reachable_fresh [OF assms(1)]]) (use assms(2) in auto)
  show ?thesis using assms(3)
  proof (cases rule: exec_action_elim)
    case (create t a)
    with w assms(2) show ?thesis by (simp add: run_create_sel)
  qed (use assms(2) in \<open>auto simp: move_defs\<close>)
qed

lemma sender_step:
  assumes "callers s t = C_Send a w c" "leaving (listener_at s w)" "exec_action R act s = Some s'"
  shows "callers s' t = C_Send a w c"
  using assms(3)
proof (cases rule: exec_action_elim)
  case (create t a)
  with assms(1) show ?thesis by (auto simp: run_create_sel)
qed (use assms(1,2) in \<open>auto simp: move_defs\<close>)

text \<open>C39: the hand-over on \<open>inChan\<close> has no timeout.  A request that took the token of a worker
  whose listener then leaves (the idle timer and the token race) waits for ever: no continuation
  of the run moves it on.\<close>

theorem sender_waits_forever:
  assumes "reachable R s" "callers s t = C_Send a w c" "leaving (listener_at s w)"
    and "run_actions R as s = Some s'"
  shows "callers s' t = C_Send a w c"
  using assms
proof (induction as arbitrary: s)
  case Nil
  then show ?case by simp
next
  case (Cons act as)
  from Cons.prems(4) obtain s1 where s1: "exec_action R act s = Some s1" "run_actions R as s1 = Some s'"
    by (auto split: option.splits)
  have "reachable R s1" by (rule reach_step [OF Cons.prems(1) step_action [OF s1(1)]])
  moreover have "callers s1 t = C_Send a w c" by (rule sender_step [OF Cons.prems(2,3) s1(1)])
  moreover have "leaving (listener_at s1 w)" by (rule leaving_step [OF Cons.prems(1,3) s1(1)])
  ultimately show ?case using Cons.IH s1(2) by blast
qed

definition stuck_state :: sys where
  "stuck_state = run_state
     [A_Call 0 (some_args ''s'' ''t''), A_Caller 0, A_Caller 0, A_Listener 0, A_Caller 0,
      A_Caller 0, A_Tick 100, A_ListenerTimeout 0, A_Caller 0]"

lemma stuck_reachable: "reachable answers stuck_state"
  unfolding stuck_state_def by (rule run_state_reachable) (simp add: run_simps str_eval)

lemma stuck_state_at:
  "callers stuck_state 0 = C_Send (some_args ''s'' ''t'') 0 0" "listener_at stuck_state 0 = L_Remove"
  by (simp_all add: stuck_state_def run_state_def run_simps str_eval)

theorem sender_waits_forever_witness:
  "\<exists>s'. run_actions answers [A_Tick 5, A_Listener 0] stuck_state = Some s' \<and>
     callers s' 0 = C_Send (some_args ''s'' ''t'') 0 0"
proof -
  obtain s' where s': "run_actions answers [A_Tick 5, A_Listener 0] stuck_state = Some s'"
    by (simp add: run_simps str_eval stuck_state_def run_state_def)
  with sender_waits_forever [OF stuck_reachable stuck_state_at(1) _ s'] show ?thesis
    by (simp add: stuck_state_at)
qed

text \<open>An idle worker without its token: nobody holds it and the listener owes none.\<close>

definition wedged :: "sys \<Rightarrow> wid \<Rightarrow> bool" where
  "wedged s w =
     (\<not> signal (workers s w) \<and> (\<exists>d. listener_at s w = L_Select d) \<and>
      (\<forall>t. holder (callers s t) \<noteq> Some w))"

lemma wedged_step:
  assumes "reachable R s" "wedged s w" "exec_action R act s = Some s'"
  shows "wedged s' w \<or> leaving (listener_at s' w)"
proof -
  have w: "w < next_w s"
    by (rule fresh_targets(9) [OF reachable_fresh [OF assms(1)]])
       (use assms(2) in \<open>auto simp: wedged_def\<close>)
  have free: "callers s t \<noteq> C_Register a w" "callers s t \<noteq> C_Send a w c" for t a c
    using assms(2) by (auto simp: wedged_def dest: spec [of _ t])
  show ?thesis using assms(3)
  proof (cases rule: exec_action_elim)
    case (create t a)
    with w assms(2) show ?thesis by (simp add: run_create_sel wedged_def)
  next
    case (register t a v)
    with free have "v \<noteq> w" by auto
    with register assms(2) show ?thesis by (auto simp: move_defs wedged_def)
  next
    case (handoff t a v c d)
    with free have "v \<noteq> w" by auto
    with handoff assms(2) show ?thesis by (auto simp: wedged_def)
  qed (use assms(2) in \<open>auto simp: move_defs wedged_def\<close>)
qed

text \<open>C38: \<open>Break\<close> asks whether a worker is idle by reading its token, and does not put the token
  back.  After \<open>Break\<close> of an idle worker no task of the session is ever started by that worker
  again: it stays idle without a token until its idle timeout ends it.\<close>

theorem break_disables_idle_worker:
  assumes "reachable R s" "callers s t = B_Select w" "signal (workers s w)"
    and "\<exists>d. listener_at s w = L_Select d"
    and "run_actions R (A_Caller t # as) s = Some s'"
  shows "wedged s' w \<or> leaving (listener_at s' w)"
proof -
  obtain s1 where s1: "exec_action R (A_Caller t) s = Some s1" "run_actions R as s1 = Some s'"
    using assms(5) by (auto split: option.splits)
  have "wedged s1 w"
    using s1(1) assms(2-4) reachable_token [OF assms(1)]
    by (auto simp: caller_step_def break_select_def wedged_def token_inv_def split: if_splits)
  moreover have "reachable R s1" by (rule reach_step [OF assms(1) step_action [OF s1(1)]])
  ultimately have "reachable R s1 \<and> (wedged s1 w \<or> leaving (listener_at s1 w))" by simp
  with s1(2) show ?thesis
  proof (induction as arbitrary: s1)
    case Nil
    then show ?case by simp
  next
    case (Cons act as)
    from Cons.prems(1) obtain s2 where
      s2: "exec_action R act s1 = Some s2" "run_actions R as s2 = Some s'"
      by (auto split: option.splits)
    have "reachable R s2" using Cons.prems(2) reach_step step_action s2(1) by blast
    moreover have "wedged s2 w \<or> leaving (listener_at s2 w)"
      using Cons.prems(2) wedged_step leaving_step s2(1) by blast
    ultimately show ?case using Cons.IH s2(2) by blast
  qed
qed

definition idle_state :: sys where
  "idle_state = run_state
     [A_Call 0 (some_args ''s'' ''t''), A_Caller 0, A_Caller 0, A_Listener 0,
      A_Break 1 ''asu'' ''s'', A_Caller 1]"

lemma idle_reachable: "reachable answers idle_state"
  unfolding idle_state_def by (rule run_state_reachable) (simp add: run_simps str_eval)

lemma idle_state_at:
  "callers idle_state 1 = B_Select 0" "signal (workers idle_state 0)"
  "listener_at idle_state 0 = L_Select 100" "callers idle_state 0 = C_OutChan (some_args ''s'' ''t'') 0"
  by (simp_all add: idle_state_def run_state_def run_simps str_eval)

theorem break_disables_idle_worker_witness:
  "\<exists>s'. run_actions answers [A_Caller 1, A_Caller 0] idle_state = Some s' \<and>
     (wedged s' 0 \<or> leaving (listener_at s' 0))"
proof -
  obtain s' where s': "run_actions answers [A_Caller 1, A_Caller 0] idle_state = Some s'"
    by (simp add: run_simps str_eval idle_state_def run_state_def)
  with break_disables_idle_worker [OF idle_reachable idle_state_at(1,2) _ s'] idle_state_at(3)
  show ?thesis by blast
qed

end
