(* ===== verification/Text_Filters.thy ===== *)
theory Text_Filters
  imports Owa_Types
begin

text \<open>
  The text filters of \<open>otasker/oratasker.go\<close> (line ends, file names) and of
  \<open>otasker/crutches.go\<close> (custom headers, file names in headers, charset of \<open>meta\<close> tags).
\<close>

section \<open>Line ends\<close>

definition CR :: char where "CR = CHR 0x0D"
definition LF :: char where "LF = CHR 0x0A"

definition trimRightCRLF :: "string \<Rightarrow> string" where
  "trimRightCRLF v = trim_right_set v [CR, LF]"

definition removeCR :: "string \<Rightarrow> string" where
  "removeCR v = replace_all [CR] [] v"

text \<open>The loop of \<open>addCR\<close>: it walks rune by rune and remembers the rune before.\<close>

function add_cr_loop :: "rune \<Rightarrow> string \<Rightarrow> string" where
  "add_cr_loop prev v =
     (if v = [] then []
      else
        let (r, wid) = decode_rune v
        in (if wid = 1 \<and> r = 10 \<and> prev \<noteq> 13 then [CR] else []) @
           take wid v @ add_cr_loop r (drop wid v))"
  by pat_completeness auto
termination
proof (relation "measure (length \<circ> snd)")
  fix v :: string and x r wid
  assume "v \<noteq> []" "x = decode_rune v" "(r, wid) = x"
  then show "((r, drop wid v), prev, v) \<in> measure (length \<circ> snd)" for prev
    using decode_rune_width_pos [of v] drop_smaller [of v "snd (decode_rune v)"]
    by (auto simp: prod_eq_iff)
qed simp

declare add_cr_loop.simps [simp del]

definition addCR :: "string \<Rightarrow> string" where
  "addCR v = add_cr_loop 0 v"

text \<open>What it amounts to: a carriage return before every line feed that has none, byte by byte.\<close>

fun add_cr_bytes :: "char \<Rightarrow> string \<Rightarrow> string" where
  "add_cr_bytes prev [] = []"
| "add_cr_bytes prev (c # cs) =
     (if c = LF \<and> prev \<noteq> CR then [CR, c] else [c]) @ add_cr_bytes c cs"

lemma byte_CR [simp]: "byte_of CR = 13" and byte_LF [simp]: "byte_of LF = 10"
  by (simp_all add: CR_def LF_def byte_of_def)

lemma CR_LF [simp]: "CR \<noteq> LF" "LF \<noteq> CR"
  by (simp_all add: CR_def LF_def)

lemma add_cr_bytes_append:
  "add_cr_bytes p (a @ b) = add_cr_bytes p a @ add_cr_bytes (last (p # a)) b"
  by (induction a arbitrary: p) auto

lemma add_cr_bytes_prev:
  "(p = CR) = (q = CR) \<Longrightarrow> add_cr_bytes p s = add_cr_bytes q s"
  by (cases s) auto

lemma add_cr_bytes_high:
  "\<forall>c \<in> set s. 128 \<le> byte_of c \<Longrightarrow> add_cr_bytes p s = s"
  by (induction s arbitrary: p) (auto simp: LF_def byte_of_def)

lemma decode_high:
  assumes "128 \<le> byte_of c"
  shows "\<forall>x \<in> set (take (snd (decode_rune (c # cs))) (c # cs)). 128 \<le> byte_of x"
proof (cases "1 < snd (decode_rune (c # cs))")
  case True
  then show ?thesis by (rule decode_rune_wide_bytes)
next
  case False
  moreover have "0 < snd (decode_rune (c # cs))" by (rule decode_rune_width_pos) simp
  ultimately have "snd (decode_rune (c # cs)) = 1" by simp
  with assms show ?thesis by simp
qed

lemma add_cr_loop_eq:
  "(prev = 13) = (p = CR) \<Longrightarrow> add_cr_loop prev v = add_cr_bytes p v"
proof (induction prev v arbitrary: p rule: add_cr_loop.induct)
  case (1 prev v)
  show ?case
  proof (cases v)
    case Nil
    then show ?thesis by (simp add: add_cr_loop.simps)
  next
    case (Cons c cs)
    let ?w = "snd (decode_rune v)" and ?r = "fst (decode_rune v)"
    have step: "add_cr_loop prev v =
        (if ?w = 1 \<and> ?r = 10 \<and> prev \<noteq> 13 then [CR] else []) @ take ?w v @ add_cr_loop ?r (drop ?w v)"
      using Cons by (subst add_cr_loop.simps) (simp add: case_prod_beta)
    have IH: "add_cr_loop ?r (drop ?w v) = add_cr_bytes q (drop ?w v)" if "(?r = 13) = (q = CR)" for q
      using 1(1) [of "decode_rune v" ?r ?w q] Cons that by simp
    show ?thesis
    proof (cases "byte_of c < 128")
      case True
      have cr: "(byte_of c = 13) = (c = CR)" and lf: "(byte_of c = 10) = (c = LF)"
        using byte_of_inject [of c CR] byte_of_inject [of c LF] by simp_all
      have "?r = byte_of c" "?w = 1" using Cons True by simp_all
      with step IH [of c] Cons cr lf 1(2) show ?thesis by simp
    next
      case False
      then have high: "\<forall>x \<in> set (take ?w v). 128 \<le> byte_of x"
        using decode_high [of c cs] Cons by simp
      have r: "128 \<le> ?r" using decode_rune_high_byte [of c cs] False Cons by simp
      have w: "0 < ?w" using Cons by (intro decode_rune_width_pos) simp
      let ?q = "last (p # take ?w v)"
      have "take ?w v \<noteq> []" using w Cons by simp
      then have "?q \<in> set (take ?w v)" by simp
      with high have "?q \<noteq> CR" by force
      with IH [of ?q] r have rest: "add_cr_loop ?r (drop ?w v) = add_cr_bytes ?q (drop ?w v)" by simp
      have "add_cr_bytes p v = add_cr_bytes p (take ?w v @ drop ?w v)" by simp
      also have "\<dots> = take ?w v @ add_cr_bytes ?q (drop ?w v)"
        unfolding add_cr_bytes_append by (simp only: add_cr_bytes_high [OF high])
      finally show ?thesis using step rest r by simp
    qed
  qed
qed

lemma addCR_bytes: "addCR v = add_cr_bytes LF v"
  unfolding addCR_def by (rule add_cr_loop_eq) simp

lemma removeCR_filter: "removeCR v = filter (\<lambda>c. c \<noteq> CR) v"
  by (simp add: removeCR_def replace_all_delete)

lemma remove_add: "filter (\<lambda>c. c \<noteq> CR) (add_cr_bytes p v) = filter (\<lambda>c. c \<noteq> CR) v"
  by (induction v arbitrary: p) auto

lemma add_cr_bytes_fixed: "add_cr_bytes q (add_cr_bytes p v) = add_cr_bytes p v"
  if "(p = CR) = (q = CR)"
  using that by (induction v arbitrary: p q) auto

text \<open>Every line feed of a text has a carriage return before it.\<close>

fun crlf_only :: "char \<Rightarrow> string \<Rightarrow> bool" where
  "crlf_only prev [] = True"
| "crlf_only prev (c # cs) = ((c = LF \<longrightarrow> prev = CR) \<and> crlf_only c cs)"

lemma crlf_only_add: "(p = CR) = (q = CR) \<Longrightarrow> crlf_only q (add_cr_bytes p v)"
  by (induction v arbitrary: p q) auto

text \<open>C25: \<open>addCR\<close>, which decodes the text rune by rune, puts a carriage return before exactly the
  line feeds that have none, whatever ill-formed UTF-8 the text holds: every line feed of the
  result follows a carriage return, a second pass changes nothing, and taking the carriage
  returns out of text and result gives the same.\<close>

theorem addCR_correct:
  "crlf_only LF (addCR v) \<and> addCR (addCR v) = addCR v \<and> removeCR (addCR v) = removeCR v \<and>
   addCR v = add_cr_bytes LF v"
  by (simp add: addCR_bytes crlf_only_add add_cr_bytes_fixed removeCR_filter remove_add)

text \<open>The content of a page arrives in chunks and \<open>addCR\<close> is applied to each of them.  That
  is the same as one pass over the whole text unless a chunk ends between a carriage return and its
  line feed; there the page gets a second carriage return.\<close>

theorem addCR_chunkwise:
  "addCR a @ addCR b =
     (if a \<noteq> [] \<and> last a = CR \<and> b \<noteq> [] \<and> hd b = LF
      then addCR a @ [CR] @ drop (length (addCR a)) (addCR (a @ b))
      else addCR (a @ b))"
proof -
  have eq: "add_cr_bytes LF (a @ b) = add_cr_bytes LF a @ add_cr_bytes (last (LF # a)) b"
    by (rule add_cr_bytes_append)
  show ?thesis
  proof (cases "last (LF # a) = CR")
    case False
    then show ?thesis
      using add_cr_bytes_prev [of "last (LF # a)" LF b] eq by (auto simp: addCR_bytes)
  next
    case True
    then have "a \<noteq> []" "last a = CR" by (auto split: if_splits)
    with True eq show ?thesis by (cases b) (auto simp: addCR_bytes intro: add_cr_bytes_prev)
  qed
qed

interpretation crlf: normaliser addCR
  by unfold_locales (simp add: addCR_bytes add_cr_bytes_fixed)

interpretation no_cr: normaliser removeCR
  by unfold_locales (simp add: removeCR_filter)

section \<open>File names\<close>

text \<open>\<open>url.QueryEscape\<close> and \<open>url.QueryUnescape\<close> of package \<open>net/url\<close>.\<close>

definition unreserved :: "char \<Rightarrow> bool" where
  "unreserved c =
     (let n = byte_of c
      in 48 \<le> n \<and> n \<le> 57 \<or> 65 \<le> n \<and> n \<le> 90 \<or> 97 \<le> n \<and> n \<le> 122 \<or>
         c = CHR ''-'' \<or> c = CHR ''_'' \<or> c = CHR ''.'' \<or> c = CHR ''~'')"

definition hex_digit :: "nat \<Rightarrow> char" where
  "hex_digit n = chr_of (if n < 10 then 48 + n else 55 + n)"

definition unhex :: "char \<Rightarrow> nat option" where
  "unhex c =
     (let n = byte_of c
      in if 48 \<le> n \<and> n \<le> 57 then Some (n - 48)
         else if 97 \<le> n \<and> n \<le> 102 then Some (n - 87)
         else if 65 \<le> n \<and> n \<le> 70 then Some (n - 55)
         else None)"

definition escape_char :: "char \<Rightarrow> string" where
  "escape_char c =
     (if c = CHR '' '' then ''+''
      else if unreserved c then [c]
      else [CHR ''%'', hex_digit (byte_of c div 16), hex_digit (byte_of c mod 16)])"

definition query_escape :: "string \<Rightarrow> string" where
  "query_escape s = concat (map escape_char s)"

fun query_unescape :: "string \<Rightarrow> string option" where
  "query_unescape [] = Some []"
| "query_unescape (c # cs) =
     (if c = CHR ''%'' then
        (case cs of
           a # b # ds \<Rightarrow>
             (case (unhex a, unhex b) of
                (Some x, Some y) \<Rightarrow> map_option (\<lambda>r. chr_of (16 * x + y) # r) (query_unescape ds)
              | _ \<Rightarrow> None)
         | _ \<Rightarrow> None)
      else map_option (\<lambda>r. (if c = CHR ''+'' then CHR '' '' else c) # r) (query_unescape cs))"

lemma unhex_digit: "n < 16 \<Longrightarrow> unhex (hex_digit n) = Some n"
  by (auto simp: unhex_def hex_digit_def)

lemma escape_percent: "unreserved c \<Longrightarrow> c \<noteq> CHR ''%'' \<and> c \<noteq> CHR ''+''"
  by (auto simp: unreserved_def byte_of_def)

lemma query_unescape_char:
  "query_unescape (escape_char c @ s) = map_option (\<lambda>r. c # r) (query_unescape s)"
proof -
  have "byte_of c div 16 < 16" "16 * (byte_of c div 16) + byte_of c mod 16 = byte_of c"
    using byte_of_less [of c] by (simp_all add: less_mult_imp_div_less)
  then show ?thesis
    by (auto simp: escape_char_def unhex_digit dest: escape_percent)
qed

lemma query_roundtrip: "query_unescape (query_escape s) = Some s"
  by (induction s) (simp_all add: query_escape_def query_unescape_char)

interpretation query: recoder query_escape query_unescape
  by unfold_locales (rule query_roundtrip)

definition encodeFilename :: "string \<Rightarrow> string" where
  "encodeFilename a =
     (if has_prefix a ''=?utf-8?'' then a
      else case query_unescape a of Some s \<Rightarrow> query_escape s | None \<Rightarrow> query_escape a)"

lemma encodeFilename_recode:
  "encodeFilename a = (if has_prefix a ''=?utf-8?'' then a else query.recode a)"
  by (simp add: encodeFilename_def query.recode_def)

lemma hex_digit_set: "n < 16 \<Longrightarrow> unreserved (hex_digit n)"
  by (auto simp: hex_digit_def unreserved_def Let_def)

lemma query_escape_set:
  "c \<in> set (query_escape s) \<Longrightarrow> unreserved c \<or> c = CHR ''+'' \<or> c = CHR ''%''"
proof -
  have "byte_of x div 16 < 16" for x using byte_of_less [of x] by (simp add: less_mult_imp_div_less)
  then show "c \<in> set (query_escape s) \<Longrightarrow> unreserved c \<or> c = CHR ''+'' \<or> c = CHR ''%''"
    by (auto simp: query_escape_def escape_char_def hex_digit_set split: if_splits)
qed

lemma recode_set:
  "c \<in> set (query.recode s) \<Longrightarrow> unreserved c \<or> c = CHR ''+'' \<or> c = CHR ''%''"
  by (auto simp: query.recode_def dest: query_escape_set split: option.splits)

lemma recode_no_prefix: "\<not> has_prefix (query.recode a) ''=?utf-8?''"
proof
  assume "has_prefix (query.recode a) ''=?utf-8?''"
  then obtain rest where "query.recode a = ''=?utf-8?'' @ rest"
    using has_prefix_decomp by blast
  then have "CHR ''='' \<in> set (query.recode a)" by simp
  from recode_set [OF this] show False by (simp add: unreserved_def byte_of_def)
qed

text \<open>\<open>encodeFilename\<close> does not encode twice: applied to a name it has already encoded it
  returns it, and a name it encodes (one that is not already marked \<open>=?utf-8?\<close>) consists of
  unreserved characters, plus and percent signs only.\<close>

theorem encodeFilename_stable:
  "encodeFilename (encodeFilename a) = encodeFilename a \<and>
   (\<not> has_prefix a ''=?utf-8?'' \<longrightarrow>
      list_all (\<lambda>c. unreserved c \<or> c = CHR ''+'' \<or> c = CHR ''%'') (encodeFilename a))"
  using recode_set [of _ a]
  by (auto simp: encodeFilename_recode recode_no_prefix query.recode_recode list_all_iff)

theorem encodeFilename_stable_witness:
  "list_all (\<lambda>c. unreserved c \<or> c = CHR ''+'' \<or> c = CHR ''%'') (encodeFilename ''a b.txt'')"
  using encodeFilename_stable [of "''a b.txt''"] by (simp add: has_prefix_def)

text \<open>\<open>ExtractFileName\<close>: the file part of the first \<open>filename=\<close> item of a content
  disposition, without its quotes.\<close>

definition extract_item :: "string \<Rightarrow> string" where
  "extract_item v =
     snd (filepath_split (replace_all ''\"'' [] (replace_all ''filename=\"'' [] v)))"

fun extract_first :: "string list \<Rightarrow> string" where
  "extract_first [] = []"
| "extract_first (v # vs) = (if has_prefix v ''filename='' then extract_item v else extract_first vs)"

definition ExtractFileName :: "string \<Rightarrow> string" where
  "ExtractFileName cd = extract_first (str_split cd ''; '')"

lemma filepath_split_subset: "set (snd (filepath_split p)) \<subseteq> set p"
  by (auto simp: filepath_split_def Let_def dest: set_takeWhileD)

lemma extract_item_clean: "CHR ''/'' \<notin> set (extract_item v) \<and> CHR ''\"'' \<notin> set (extract_item v)"
proof -
  have "CHR ''\"'' \<notin> set (replace_all ''\"'' [] w)" for w by (simp add: replace_all_delete)
  then show ?thesis
    using filepath_split_file filepath_split_subset unfolding extract_item_def by blast
qed

text \<open>The name of an uploaded file never contains a directory separator or a quote, whatever
  content disposition the browser sends.\<close>

theorem ExtractFileName_safe:
  "CHR ''/'' \<notin> set (ExtractFileName cd) \<and> CHR ''\"'' \<notin> set (ExtractFileName cd)"
proof -
  have "CHR ''/'' \<notin> set (extract_first vs) \<and> CHR ''\"'' \<notin> set (extract_first vs)" for vs
    by (induction vs) (auto simp: extract_item_clean)
  then show ?thesis by (simp add: ExtractFileName_def)
qed

section \<open>Meta tags\<close>

definition meta_1251 :: "string \<Rightarrow> bytes" where
  "meta_1251 attr = ''<meta http-equiv='' @ attr @ '' content=\"text/html; charset=windows-1251\">''"

definition bMeta :: "bytes list" where
  "bMeta = [meta_1251 ''\"Content-Type\"'', meta_1251 ''Content-Type'',
            meta_1251 ''\"CONTENT-TYPE'', meta_1251 ''\"Content-Type\"'']"

definition bMetaEmpty :: bytes where
  "bMetaEmpty = ''<meta http-equiv=\"Content-Type\" content=\"text/html; charset=utf-8\">''"

definition fixMeta :: "bytes \<Rightarrow> bytes" where
  "fixMeta b = foldl (\<lambda>buf m. replace_all m bMetaEmpty buf) b bMeta"

text \<open>A tag: it starts with a character it does not contain again.\<close>

definition tag :: "char \<Rightarrow> string \<Rightarrow> bool" where
  "tag d m = (\<exists>ms. m = d # ms \<and> d \<notin> set ms)"

fun mismatch :: "string \<Rightarrow> string \<Rightarrow> bool" where
  "mismatch (a # as) (b # bs) = (a \<noteq> b \<or> mismatch as bs)"
| "mismatch _ _ = False"

lemma mismatch_prefix: "mismatch a b \<Longrightarrow> \<not> has_prefix (a @ x) b"
  by (induction a b rule: mismatch.induct) (auto simp: has_prefix_def)

lemma has_prefix_Cons [simp]: "has_prefix (x # xs) (y # ys) = (x = y \<and> has_prefix xs ys)"
  by (auto simp: has_prefix_def)

lemma str_contains_Cons:
  "str_contains (c # cs) m = (has_prefix (c # cs) m \<or> str_contains cs m)"
  by (auto simp: str_contains_def)

lemma str_contains_skip:
  assumes "tag d m" "d \<notin> set ns"
  shows "str_contains (ns @ r) m = str_contains r m"
  using assms(2)
proof (induction ns)
  case (Cons n ns)
  obtain ms where "m = d # ms" using assms(1) by (auto simp: tag_def)
  with Cons show ?case by (auto simp: str_contains_Cons)
qed simp

lemma replaced_prefix:
  assumes "has_prefix (replace_all old new cs) os" "d \<notin> set os" "tag d new"
  shows "has_prefix cs os"
  using assms(1,2)
proof (induction os arbitrary: cs)
  case (Cons x os)
  show ?case
  proof (cases cs)
    case Nil
    with Cons.prems show ?thesis by (simp add: has_prefix_def)
  next
    case (Cons c cs')
    note prems = Cons.prems
    obtain ns where "new = d # ns" using assms(3) by (auto simp: tag_def)
    with prems Cons have "\<not> (old \<noteq> [] \<and> has_prefix (c # cs') old)"
      by (auto simp: replace_all_Cons)
    with prems Cons Cons.IH [of cs'] show ?thesis
      by (auto simp: replace_all_Cons split: if_splits)
  qed
qed simp

lemma replace_all_no_occurrence:
  assumes m: "tag d m" and new: "tag d new" "mismatch new m"
    and old: "old = m \<or> \<not> str_contains s m"
  shows "\<not> str_contains (replace_all old new s) m"
  using old
proof (induction s rule: length_induct)
  case (1 s)
  obtain ms where ms: "m = d # ms" "d \<notin> set ms" using m by (auto simp: tag_def)
  obtain ns where ns: "new = d # ns" "d \<notin> set ns" using new(1) by (auto simp: tag_def)
  show ?case
  proof (cases s)
    case Nil
    with ms show ?thesis by (simp add: str_contains_def)
  next
    case (Cons c cs)
    show ?thesis
    proof (cases "old \<noteq> [] \<and> has_prefix s old")
      case True
      let ?t = "drop (length old) s"
      have eq: "s = old @ ?t" using True has_prefix_decomp by blast
      have "str_contains s m" if "str_contains ?t m"
      proof -
        have "str_contains (xs @ ?t) m" for xs
          by (induction xs) (use that in \<open>auto simp: str_contains_Cons\<close>)
        then show ?thesis using eq by metis
      qed
      moreover have "length ?t < length s" using True Cons by (intro drop_smaller) auto
      ultimately have "\<not> str_contains (replace_all old new ?t) m" using 1 by blast
      then have "\<not> str_contains (new @ replace_all old new ?t) m"
        using str_contains_skip [OF m ns(2)] mismatch_prefix [OF new(2)] ns(1)
        by (simp add: str_contains_Cons)
      with True Cons show ?thesis by (simp add: replace_all_Cons)
    next
      case False
      have cs: "old = m \<or> \<not> str_contains cs m" using 1(2) Cons by (auto simp: str_contains_Cons)
      have "length cs < length s" using Cons by simp
      with 1(1) cs have rest: "\<not> str_contains (replace_all old new cs) m" by blast
      have "\<not> has_prefix (c # replace_all old new cs) m"
      proof
        assume "has_prefix (c # replace_all old new cs) m"
        with ms have "c = d" "has_prefix (replace_all old new cs) ms" by simp_all
        then have "has_prefix cs ms" using replaced_prefix ms(2) new(1) by blast
        with \<open>c = d\<close> ms have "has_prefix s m" by (simp add: Cons)
        with False 1(2) ms Cons show False by (auto simp: str_contains_Cons)
      qed
      with rest False Cons show ?thesis by (auto simp: replace_all_Cons str_contains_Cons)
    qed
  qed
qed

lemma bMeta_tags:
  "m \<in> set bMeta \<Longrightarrow> tag (CHR ''<'') m" "tag (CHR ''<'') bMetaEmpty"
  "m \<in> set bMeta \<Longrightarrow> mismatch bMetaEmpty m"
  by (auto simp: bMeta_def meta_1251_def bMetaEmpty_def tag_def)

lemma fix_all_no_occurrence:
  assumes "m \<in> set bMeta" "set ms \<subseteq> set bMeta" "m \<in> set ms \<or> \<not> str_contains b m"
  shows "\<not> str_contains (foldl (\<lambda>buf m. replace_all m bMetaEmpty buf) b ms) m"
  using assms(2,3)
proof (induction ms arbitrary: b)
  case (Cons x ms)
  have "\<not> str_contains (replace_all x bMetaEmpty b) m" if "x = m \<or> \<not> str_contains b m"
    using bMeta_tags assms(1) that by (intro replace_all_no_occurrence) auto
  with Cons show ?case by auto
qed simp

lemma fix_all_absent:
  "\<forall>m \<in> set ms. \<not> str_contains b m \<Longrightarrow> foldl (\<lambda>buf m. replace_all m bMetaEmpty buf) b ms = b"
  by (induction ms) (auto simp: replace_all_absent str_contains_def)

lemma fixMeta_none: "m \<in> set bMeta \<Longrightarrow> \<not> str_contains (fixMeta b) m"
  unfolding fixMeta_def by (rule fix_all_no_occurrence) auto

lemma fixMeta_idem: "fixMeta (fixMeta b) = fixMeta b"
  using fixMeta_none [of _ b] unfolding fixMeta_def [of "fixMeta b"] by (intro fix_all_absent) blast

interpretation meta: normaliser fixMeta
  by unfold_locales (rule fixMeta_idem)

text \<open>C33: after \<open>fixMeta\<close> no page announces the old code page by any of the listed tags; a page
  without these tags is unchanged, and so is one already fixed.\<close>

theorem fixMeta_correct:
  "list_all (\<lambda>m. \<not> str_contains (fixMeta b) m) bMeta \<and> fixMeta (fixMeta b) = fixMeta b \<and>
   (list_all (\<lambda>m. \<not> str_contains b m) bMeta \<longrightarrow> fixMeta b = b)"
  using fixMeta_none fixMeta_idem by (auto simp: list_all_iff fixMeta_def fix_all_absent)

theorem fixMeta_correct_witness: "fixMeta ''<p>'' = ''<p>''"
  using fixMeta_correct [of "''<p>''"]
  by (simp add: bMeta_def meta_1251_def str_contains_def has_prefix_def)

text \<open>The third tag of the list lacks a quote, so the tag in capitals is left as it is.\<close>

lemma tag_contains: "tag d s \<Longrightarrow> tag d m \<Longrightarrow> str_contains s m = has_prefix s m"
  using str_contains_skip [of d m "tl s" "[]"]
  by (auto simp: tag_def str_contains_Cons) (auto simp: str_contains_def)

lemma fixMeta_capitals:
  "fixMeta (meta_1251 ''\"CONTENT-TYPE\"'') = meta_1251 ''\"CONTENT-TYPE\"''"
proof -
  let ?t = "meta_1251 ''\"CONTENT-TYPE\"''"
  have t: "tag (CHR ''<'') ?t" by (auto simp: tag_def meta_1251_def)
  have "\<not> str_contains ?t m" if m: "m \<in> set bMeta" for m
  proof -
    have "\<not> has_prefix ?t m" using m by (auto simp: bMeta_def meta_1251_def)
    then show ?thesis using tag_contains [OF t bMeta_tags(1) [OF m]] by simp
  qed
  then show ?thesis unfolding fixMeta_def by (intro fix_all_absent) blast
qed

section \<open>Custom headers\<close>

text \<open>\<open>http.Header.Add\<close> of package \<open>net/http\<close>: header names are brought to their canonical
  form when they are made of token characters.\<close>

definition token_char :: "char \<Rightarrow> bool" where
  "token_char c =
     (let n = byte_of c
      in 48 \<le> n \<and> n \<le> 57 \<or> 65 \<le> n \<and> n \<le> 90 \<or> 97 \<le> n \<and> n \<le> 122 \<or>
         c \<in> set ''!#$%&*+-.^_`|~'' \<or> n = 39)"

fun canonical_from :: "bool \<Rightarrow> string \<Rightarrow> string" where
  "canonical_from upper [] = []"
| "canonical_from upper (c # cs) =
     (if upper then upper_char c else lower_char c) # canonical_from (c = CHR ''-'') cs"

definition CanonicalHeaderKey :: "string \<Rightarrow> string" where
  "CanonicalHeaderKey s = (if list_all token_char s then canonical_from True s else s)"

definition header_add :: "multimap \<Rightarrow> string \<Rightarrow> string \<Rightarrow> multimap" where
  "header_add h k v = vals_append h (CanonicalHeaderKey k) [v]"

definition header_get :: "multimap \<Rightarrow> string \<Rightarrow> string" where
  "header_get h k = vals_get h (CanonicalHeaderKey k)"

definition disposition_part :: "string \<Rightarrow> string" where
  "disposition_part v =
     (if has_prefix v ''filename='' then
        ''filename=\"'' @
        encodeFilename (replace_all ''\"'' [] (replace_all ''filename='' [] v)) @ ''\";''
      else v @ '';'')"

definition header_name :: "string \<Rightarrow> string" where
  "header_name s = trim_space (case str_index s '':'' of None \<Rightarrow> s | Some i \<Rightarrow> take i s)"

definition header_value :: "string \<Rightarrow> string" where
  "header_value s = (case str_index s '':'' of None \<Rightarrow> [] | Some i \<Rightarrow> trim_space (drop (i + 1) s))"

definition add_header_line :: "multimap \<Rightarrow> string \<Rightarrow> multimap" where
  "add_header_line h s =
     (if s = [] then h
      else if to_lower (header_name s) = ''content-disposition''
      then header_add h (header_name s) (concat (map disposition_part (str_split (header_value s) ''; '')))
      else header_add h (header_name s) (header_value s))"

definition parseHeaders :: "string \<Rightarrow> multimap" where
  "parseHeaders headers = (if headers = [] then [] else foldl add_header_line [] (str_split headers [LF]))"

lemma trim_space_subset: "set (trim_space s) \<subseteq> set s"
proof -
  have "set (concat (map snd (rev (dropWhile P (rev (dropWhile P xs)))))) \<subseteq> set (concat (map snd xs))"
    for P and xs :: "(rune \<times> bytes) list"
    by (auto dest!: set_dropWhileD)
  from this [of "\<lambda>p. is_space (fst p)" "chunks s"] show ?thesis
    by (simp add: trim_space_def chunks_bytes)
qed

lemma replace_all_subset: "set (replace_all old new s) \<subseteq> set s \<union> set new"
proof (induction old new s rule: replace_all.induct)
  case (1 old new s)
  show ?case
  proof (cases s)
    case (Cons c cs)
    show ?thesis
    proof (cases "old \<noteq> [] \<and> has_prefix s old")
      case True
      have "set (drop (length old) s) \<subseteq> set s" by (rule set_drop_subset)
      with 1 True Cons show ?thesis by (auto simp: replace_all_Cons)
    next
      case False
      with 1 Cons show ?thesis by (auto simp: replace_all_Cons)
    qed
  qed simp
qed

lemma split_from_subset: "p \<in> set (split_from sep piece s) \<Longrightarrow> set p \<subseteq> set piece \<union> set s"
proof (induction sep piece s rule: split_from.induct)
  case (1 sep piece s)
  show ?case
  proof (cases s)
    case Nil
    with 1 show ?thesis by simp
  next
    case (Cons c cs)
    show ?thesis
    proof (cases "sep \<noteq> [] \<and> has_prefix s sep")
      case True
      with 1 Cons have "p = piece \<or> set p \<subseteq> set (drop (length sep) s)"
        by (auto simp: split_from_Cons)
      then show ?thesis using set_drop_subset by fastforce
    next
      case False
      with 1 Cons have "set p \<subseteq> set (piece @ [c]) \<union> set cs" by (auto simp: split_from_Cons)
      with Cons show ?thesis by auto
    qed
  qed
qed

lemma str_split_subset: "p \<in> set (str_split s sep) \<Longrightarrow> set p \<subseteq> set s"
  using split_from_subset [of p sep "[]" s] by (simp add: str_split_def)

lemma case_char_LF [simp]: "upper_char c = LF \<longleftrightarrow> c = LF" "lower_char c = LF \<longleftrightarrow> c = LF"
proof -
  have "byte_of c = 10 \<longleftrightarrow> c = LF" using byte_of_inject [of c LF] by simp
  then show "upper_char c = LF \<longleftrightarrow> c = LF" "lower_char c = LF \<longleftrightarrow> c = LF"
    by (auto simp: upper_char_def lower_char_def chr_of_eq_iff)
qed

lemma canonical_from_free:
  "LF \<notin> set s \<Longrightarrow> LF \<notin> set (canonical_from u s)"
  by (induction u s rule: canonical_from.induct) (auto dest: sym)

lemma header_parts_subset:
  "set (header_name s) \<subseteq> set s" "set (header_value s) \<subseteq> set s"
  by (auto simp: header_name_def header_value_def split: option.splits
        dest!: subsetD [OF trim_space_subset] in_set_takeD in_set_dropD)

lemma encodeFilename_free: "LF \<notin> set a \<Longrightarrow> LF \<notin> set (encodeFilename a)"
  using recode_set [of LF a]
  by (auto simp: encodeFilename_recode unreserved_def LF_def byte_of_def)

lemma disposition_part_free: "LF \<notin> set v \<Longrightarrow> LF \<notin> set (disposition_part v)"
proof -
  assume v: "LF \<notin> set v"
  have del: "set (replace_all old [] s) \<subseteq> set s" for old s
    using replace_all_subset [of old "[]" s] by simp
  from v del have "LF \<notin> set (replace_all ''\"'' [] (replace_all ''filename='' [] v))" by blast
  from encodeFilename_free [OF this] v show ?thesis by (auto simp: disposition_part_def LF_def)
qed

definition headers_free :: "char \<Rightarrow> multimap \<Rightarrow> bool" where
  "headers_free c h =
     (\<forall>(k, vs) \<in> set h. c \<notin> set k \<and> (\<forall>v \<in> set vs. c \<notin> set v))"

lemma vals_set_in:
  "p \<in> set (vals_set h k vs) \<Longrightarrow> p \<in> set h \<or> p = (k, vs)"
  by (induction h k vs rule: vals_set.induct) (auto split: if_splits)

lemma vals_lookup_in: "v \<in> set (vals_lookup h k) \<Longrightarrow> \<exists>vs. (k, vs) \<in> set h \<and> v \<in> set vs"
  by (auto simp: vals_lookup_def dest: map_of_SomeD [OF sym] split: option.splits)

lemma header_add_free:
  assumes "headers_free LF h" "LF \<notin> set k" "LF \<notin> set v"
  shows "headers_free LF (header_add h k v)"
proof -
  let ?k = "CanonicalHeaderKey k"
  have k: "LF \<notin> set ?k" using assms(2) canonical_from_free by (simp add: CanonicalHeaderKey_def)
  have vs: "LF \<notin> set x" if "x \<in> set (vals_lookup h ?k)" for x
    using vals_lookup_in [OF that] assms(1) by (auto simp: headers_free_def)
  show ?thesis
    using assms k vs by (auto simp: headers_free_def header_add_def vals_append_def dest!: vals_set_in)
qed

lemma add_header_line_free:
  assumes "headers_free LF h" "LF \<notin> set s"
  shows "headers_free LF (add_header_line h s)"
proof -
  have parts: "LF \<notin> set (header_name s)" "LF \<notin> set (header_value s)"
    using assms(2) header_parts_subset by blast+
  have "LF \<notin> set (disposition_part p)" if "p \<in> set (str_split (header_value s) ''; '')" for p
    using str_split_subset [OF that] parts(2) by (intro disposition_part_free) blast
  then have "LF \<notin> set (concat (map disposition_part (str_split (header_value s) ''; '')))" by auto
  with assms parts show ?thesis
    unfolding add_header_line_def by (simp add: header_add_free)
qed

lemma foldl_header_free:
  "headers_free LF h \<Longrightarrow> \<forall>s \<in> set ls. LF \<notin> set s \<Longrightarrow> headers_free LF (foldl add_header_line h ls)"
  by (induction ls arbitrary: h) (auto intro: add_header_line_free)

text \<open>C34: the custom headers of a response, which PL/SQL code assembles, cannot smuggle a line
  feed into a header name or value: every one of them is free of line feeds.\<close>

theorem parseHeaders_no_line_feed:
  "headers_free LF (parseHeaders headers)"
proof -
  have "\<forall>s \<in> set (str_split headers [LF]). LF \<notin> set s"
    using str_split_single_clean by blast
  then show ?thesis
    by (auto simp: parseHeaders_def headers_free_def [of _ "[]"] intro: foldl_header_free)
qed

end
