(* ===== verification/Ora_Errors.thy ===== *)
theory Ora_Errors
  imports Owa_Types
begin

text \<open>
  Errors and how the tasker reports them: \<open>UnMask\<close>, \<open>packError\<close> and \<open>errV\<close> of
  \<open>otasker/oratasker.go\<close>.  An error is one of the driver, one wrapped or made by the vendored
  package \<open>errgo\<close>, or another one of which only the text is known.
\<close>

datatype go_error =
    OracleError (err_code: int) (err_message: string) (err_at: string) (err_offset: int)
  | ErrgoError string "go_error option"
  | OtherError string

text \<open>What a fallible operation gives: a value, an error, a run-time panic (or the exit of the
  process), or nothing yet within the steps allowed to a loop.\<close>

datatype 'a res = Ok 'a | Err go_error | Panic | Running

fun bind_res :: "'a res \<Rightarrow> ('a \<Rightarrow> 'b res) \<Rightarrow> 'b res" where
  "bind_res (Ok x) f = f x"
| "bind_res (Err e) f = Err e"
| "bind_res Panic f = Panic"
| "bind_res Running f = Running"

lemma bind_res_assoc: "bind_res (bind_res m f) g = bind_res m (\<lambda>x. bind_res (f x) g)"
  by (cases m) auto

lemma bind_res_Ok: "bind_res m f = Ok y \<longleftrightarrow> (\<exists>x. m = Ok x \<and> f x = Ok y)"
  by (cases m) auto

text \<open>\<open>Error()\<close> of the driver's and of \<open>errgo\<close>'s errors.\<close>

fun error_text :: "go_error \<Rightarrow> string" where
  "error_text (OracleError code message at offset) =
     (let tail = itoa code @ '': '' @ message;
          head = (if offset \<noteq> 0 then ''row '' @ itoa offset @ '' '' else [])
      in if at \<noteq> [] then head @ ''@'' @ at @ '' '' @ tail else head @ tail)"
| "error_text (ErrgoError message None) = (if message = [] then ''<no error>'' else message)"
| "error_text (ErrgoError message (Some e)) =
     (if message = [] then error_text e else message @ '': '' @ error_text e)"
| "error_text (OtherError text) = text"

definition NewErrorAt :: "int \<Rightarrow> string \<Rightarrow> string \<Rightarrow> go_error" where
  "NewErrorAt code message at = OracleError code message at 0"

definition errgo_Mask :: "go_error \<Rightarrow> go_error" where
  "errgo_Mask e = ErrgoError [] (Some e)"

definition errgo_Newf :: "string \<Rightarrow> go_error" where
  "errgo_Newf text = ErrgoError text None"

fun UnMask :: "go_error \<Rightarrow> go_error option" where
  "UnMask (OracleError code message at offset) = Some (OracleError code message at offset)"
| "UnMask (ErrgoError message None) = None"
| "UnMask (ErrgoError message (Some e)) = UnMask e"
| "UnMask (OtherError text) = None"

text \<open>The second operand is printed by its type.\<close>

definition errV :: "string \<Rightarrow> string \<Rightarrow> go_error \<Rightarrow> go_error" where
  "errV name ty e =
     errgo_Newf (''error creating variable for '' @ name @ ''('' @ ty @ ''): '' @ error_text e)"

text \<open>Status, page and whether the connection is lost.\<close>

definition packError :: "go_error \<Rightarrow> int \<times> bytes \<times> bool" where
  "packError e =
     (case UnMask e of
        Some (OracleError code _ _ _) \<Rightarrow>
          if code = 28 \<or> code = 31 then (StatusRequestWasInterrupted, [], True)
          else if code = 1017 then (StatusInvalidUsernameOrPassword, [], True)
          else if code = 1031 then (StatusInsufficientPrivileges, [], True)
          else if code = 28000 then (StatusAccountIsLocked, [], True)
          else if code = 6564 then (StatusNotFound, [], False)
          else if code = 3113 \<or> code = 3114
               then (StatusErrorPage, error_text (errgo_Mask e), True)
          else (StatusErrorPage, error_text (errgo_Mask e), False)
      | _ \<Rightarrow> (StatusErrorPage, error_text (errgo_Mask e), False))"

lemma UnMask_oracle: "UnMask e = Some d \<Longrightarrow> \<exists>c m a n. d = OracleError c m a n"
  by (induction e rule: UnMask.induct) auto

lemma UnMask_errV [simp]: "UnMask (errV name ty e) = None"
  by (simp add: errV_def errgo_Newf_def)

lemma UnMask_Mask [simp]: "UnMask (errgo_Mask e) = UnMask e"
  by (simp add: errgo_Mask_def)

text \<open>The Oracle code at the bottom of an error's wrappers, if there is one.\<close>

definition ora_code :: "go_error \<Rightarrow> int option" where
  "ora_code e = map_option err_code (UnMask e)"

lemma packError_code:
  "fst (packError e) =
     (case ora_code e of
        None \<Rightarrow> StatusErrorPage
      | Some code \<Rightarrow>
          if code = 28 \<or> code = 31 then StatusRequestWasInterrupted
          else if code = 1017 then StatusInvalidUsernameOrPassword
          else if code = 1031 then StatusInsufficientPrivileges
          else if code = 28000 then StatusAccountIsLocked
          else if code = 6564 then StatusNotFound
          else StatusErrorPage)" (is ?status)
  "snd (snd (packError e)) \<longleftrightarrow> ora_code e \<in> Some ` {28, 31, 1017, 1031, 28000, 3113, 3114}" (is ?lost)
  "fst (snd (packError e)) = (if fst (packError e) = StatusErrorPage then error_text e else [])" (is ?text)
proof -
  have masked: "error_text (errgo_Mask x) = error_text x" for x by (simp add: errgo_Mask_def)
  have "?status \<and> ?lost \<and> ?text"
  proof (cases "UnMask e")
    case None
    then show ?thesis by (simp add: packError_def masked ora_code_def)
  next
    case (Some d)
    then obtain c m a n where "d = OracleError c m a n" using UnMask_oracle by blast
    with Some show ?thesis by (auto simp: packError_def masked ora_code_def status_defs)
  qed
  then show ?status ?lost ?text by blast+
qed

text \<open>C26: the page status of an error depends only on the Oracle code at the bottom of its wrappers,
  not on the message, the place or the wrapping: a session killed (28, 31), a refused password (1017), no
  right to log on (1031), a locked account (28000), a missing procedure (6564), and the plain error page
  for any other code and for errors without one.  Only the plain error page has a text, that of the error;
  the connection counts as lost for these codes but 6564, and for 3113 and 3114.\<close>

theorem packError_status:
  "(ora_code e' = ora_code e \<longrightarrow> fst (packError e') = fst (packError e)) \<and>
   fst (packError (errgo_Mask e)) = fst (packError e) \<and>
   (fst (packError e) = StatusRequestWasInterrupted \<longleftrightarrow> ora_code e = Some 28 \<or> ora_code e = Some 31) \<and>
   (fst (packError e) = StatusInvalidUsernameOrPassword \<longleftrightarrow> ora_code e = Some 1017) \<and>
   (fst (packError e) = StatusInsufficientPrivileges \<longleftrightarrow> ora_code e = Some 1031) \<and>
   (fst (packError e) = StatusAccountIsLocked \<longleftrightarrow> ora_code e = Some 28000) \<and>
   (fst (packError e) = StatusNotFound \<longleftrightarrow> ora_code e = Some 6564) \<and>
   (fst (packError e) = StatusErrorPage \<longleftrightarrow> ora_code e \<notin> Some ` {28, 31, 1017, 1031, 28000, 6564}) \<and>
   fst (snd (packError e)) = (if fst (packError e) = StatusErrorPage then error_text e else []) \<and>
   (snd (snd (packError e)) \<longleftrightarrow> ora_code e \<in> Some ` {28, 31, 1017, 1031, 28000, 3113, 3114})"
proof -
  have "ora_code (errgo_Mask e) = ora_code e" by (simp add: ora_code_def)
  then show ?thesis
    by (cases "ora_code e") (simp_all add: packError_code status_defs)
qed

theorem packError_status_witness:
  "fst (packError (OracleError 1017 ''denied'' ''x'' 3)) = StatusInvalidUsernameOrPassword"
  using packError_status [of "OracleError 1017 ''denied'' ''x'' 3" "OracleError 1017 [] [] 0"]
  by (simp add: ora_code_def)

text \<open>Errors about bind variables lose the Oracle code they report: they always give the plain error
  page, also when the session was killed meanwhile.\<close>

lemma errV_error_page: "fst (packError (errV name ty e)) = StatusErrorPage"
  by (simp add: packError_def)

end
