(* ===== verification/Sql_Params.thy ===== *)
theory Sql_Params
  imports Text_Filters Ora_Errors
begin

text \<open>
  How a request parameter becomes a bind variable and a piece of the PL/SQL block:
  \<open>prepareParam\<close> and \<open>prepareStringParam\<close> of \<open>otasker/oratasker.go\<close>.  The block is
  written twice: the executed text has placeholders, the shown text (for dumps) has the values.
  The driver's constructors of variables are the parameter \<open>nv\<close>: for every requested
  variable an error or none.
\<close>

section \<open>Data\<close>

definition oString :: int where "oString = 1"
definition oNumber :: int where "oNumber = 2"
definition oDate :: int where "oDate = 3"
definition oBoolean :: int where "oBoolean = 4"
definition oInteger :: int where "oInteger = 5"
definition oStringTab :: int where "oStringTab = 11"
definition oNumberTab :: int where "oNumberTab = 12"
definition oDateTab :: int where "oDateTab = 13"
definition oBooleanTab :: int where "oBooleanTab = 14"
definition oIntegerTab :: int where "oIntegerTab = 15"

lemmas param_type_defs = oString_def oNumber_def oDate_def oBoolean_def oInteger_def
  oStringTab_def oNumberTab_def oDateTab_def oBooleanTab_def oIntegerTab_def

text \<open>An element of an array variable; \<open>E_Time s\<close> is the time that
  \<open>time.Parse(time.RFC3339, s)\<close> gives, its error ignored.\<close>

datatype elem = E_Str string | E_Time string

datatype vtype = StringVarType | Int32VarType | FloatVarType | DateTimeVarType | BlobVarType

datatype var_spec =
    NewVar string
  | NewVarInt int
  | NewVariable nat vtype nat
  | NewArrayVar vtype "elem list" nat

text \<open>A variable and the values put into it by \<open>SetValue\<close>.\<close>

record bind =
  b_spec :: var_spec
  b_set :: "(nat \<times> string) list"

text \<open>The buffers of the block and the map of bind variables.\<close>

record prep =
  execDeclare :: string
  showDeclare :: string
  execSet :: string
  showSet :: string
  execProc :: string
  showProc :: string
  execStore :: string
  showStore :: string
  params :: "string \<rightharpoonup> bind"

type_synonym new_var = "var_spec \<Rightarrow> go_error option"

section \<open>Pieces of text\<close>

definition sql_escape :: "string \<Rightarrow> string" where
  "sql_escape v = replace_all [CHR 0x27] [CHR 0x27, CHR 0x27] v"

definition sql_quoted :: "string \<Rightarrow> string" where
  "sql_quoted v = [CHR 0x27] @ v @ [CHR 0x27]"

definition comma :: "string \<Rightarrow> string \<Rightarrow> string" where
  "comma buf s = (if buf = [] then s else buf @ '', '' @ s)"

definition declare_line :: "string \<Rightarrow> string \<Rightarrow> string" where
  "declare_line name ty = ''  l_'' @ name @ '' '' @ ty @ '';'' @ [LF]"

definition set_line :: "string \<Rightarrow> string \<Rightarrow> string" where
  "set_line name v = ''  l_'' @ name @ '' := '' @ v @ '';'' @ [LF]"

definition set_item :: "string \<Rightarrow> nat \<Rightarrow> string \<Rightarrow> string" where
  "set_item name i v =
     ''  l_'' @ name @ ''('' @ itoa (int i + 1) @ '') := '' @ v @ '';'' @ [LF]"

definition store_line :: "string \<Rightarrow> string \<Rightarrow> string \<Rightarrow> string" where
  "store_line proc name v =
     ''  '' @ proc @ ''('' @ sql_quoted (to_upper name) @ '', '' @ v @ '');'' @ [LF]"

definition show_decl :: "string \<Rightarrow> prep \<Rightarrow> prep" where
  "show_decl l st = st\<lparr>showDeclare := showDeclare st @ l\<rparr>"

definition show_set :: "string \<Rightarrow> prep \<Rightarrow> prep" where
  "show_set l st = st\<lparr>showSet := showSet st @ l\<rparr>"

definition call_with :: "string \<Rightarrow> string \<Rightarrow> prep \<Rightarrow> prep" where
  "call_with name suffix st =
     st\<lparr>execProc := comma (execProc st) (name @ '' => :'' @ name @ suffix),
        showProc := comma (showProc st) (name @ '' => l_'' @ name)\<rparr>"

definition store_with :: "string \<Rightarrow> string \<Rightarrow> prep \<Rightarrow> prep" where
  "store_with l l' st = st\<lparr>execStore := execStore st @ l, showStore := showStore st @ l'\<rparr>"

text \<open>Making a variable; \<open>ty\<close> is the Go type the error message names.\<close>

definition bind_var :: "new_var \<Rightarrow> string \<Rightarrow> string \<Rightarrow> string \<Rightarrow> bind \<Rightarrow> prep \<Rightarrow> prep res" where
  "bind_var nv name ty key b st =
     (case nv (b_spec b) of
        Some e \<Rightarrow> Err (errV name ty e)
      | None \<Rightarrow> Ok (st\<lparr>params := (params st)(key \<mapsto> b)\<rparr>))"

definition hash :: "string \<Rightarrow> string" where
  "hash name = name @ ''#''"

text \<open>Saving a scalar in the session context, when the virtual directory asks for it.\<close>

definition store_scalar :: "new_var \<Rightarrow> string \<Rightarrow> string \<Rightarrow> bind \<Rightarrow> prep \<Rightarrow> prep res" where
  "store_scalar nv proc name b st =
     (if proc = [] then Ok st
      else bind_res (bind_var nv name ''string'' (hash name) b st) (\<lambda>st.
        Ok (store_with (store_line proc name ('':'' @ hash name))
              (store_line proc name (''l_'' @ name)) st)))"

section \<open>One parameter\<close>

definition prepareStringParam ::
  "new_var \<Rightarrow> string \<Rightarrow> string list \<Rightarrow> string \<Rightarrow> string \<Rightarrow> prep \<Rightarrow> prep res" where
  "prepareStringParam nv name vals ty proc st =
     (case vals of
        [] \<Rightarrow> Panic
      | v # _ \<Rightarrow>
          let value = removeCR v; n = length value; n' = (if n = 0 then n + 1 else n) in
          bind_res (bind_var nv name ''string'' name
              \<lparr>b_spec = NewVariable 0 StringVarType n, b_set = [(0, value)]\<rparr> st) (\<lambda>st.
          store_scalar nv proc name \<lparr>b_spec = NewVar value, b_set = []\<rparr>
            (call_with name []
              (show_set (set_line name (sql_quoted (sql_escape value)))
                (show_decl (declare_line name (ty @ ''('' @ itoa (int n') @ '')'')) st)))))"

definition prepare_number ::
  "new_var \<Rightarrow> string \<Rightarrow> string list \<Rightarrow> string \<Rightarrow> string \<Rightarrow> prep \<Rightarrow> prep res" where
  "prepare_number nv name vals ty proc st =
     (case vals of
        [] \<Rightarrow> Panic
      | v # _ \<Rightarrow>
          let value = trimRightCRLF v in
          bind_res (bind_var nv name ''string'' name
              \<lparr>b_spec = NewVariable 1 StringVarType (length value),
               b_set = (if value \<noteq> [] then [(0, value)] else [])\<rparr> st) (\<lambda>st.
          store_scalar nv proc name \<lparr>b_spec = NewVar value, b_set = []\<rparr>
            (call_with name [] (show_set (set_line name value) (show_decl (declare_line name ty) st)))))"

definition prepare_integer ::
  "new_var \<Rightarrow> string \<Rightarrow> string list \<Rightarrow> string \<Rightarrow> string \<Rightarrow> prep \<Rightarrow> prep res" where
  "prepare_integer nv name vals ty proc st =
     (case vals of
        [] \<Rightarrow> Panic
      | v # _ \<Rightarrow>
          let value = trimRightCRLF v in
          bind_res (bind_var nv name ''string'' name \<lparr>b_spec = NewVar value, b_set = []\<rparr> st) (\<lambda>st.
          store_scalar nv proc name \<lparr>b_spec = NewVar value, b_set = []\<rparr>
            (call_with name [] (show_set (set_line name value) (show_decl (declare_line name ty) st)))))"

definition prepare_date ::
  "new_var \<Rightarrow> string \<Rightarrow> string list \<Rightarrow> string \<Rightarrow> string \<Rightarrow> prep \<Rightarrow> prep res" where
  "prepare_date nv name vals ty proc st =
     (case vals of
        [] \<Rightarrow> Panic
      | v # _ \<Rightarrow>
          let value = trimRightCRLF v in
          bind_res (bind_var nv name ''string'' name \<lparr>b_spec = NewVar value, b_set = []\<rparr> st) (\<lambda>st.
          store_scalar nv proc name \<lparr>b_spec = NewVar value, b_set = []\<rparr>
            (call_with name []
              (show_set (set_line name (''to_date('' @ sql_quoted value @ '')''))
                (show_decl (declare_line name ty) st)))))"

text \<open>A boolean is passed as a comparison with \<open>'true'\<close>; in the context it is saved as a
  literal, not as a bind variable.\<close>

definition prepare_boolean ::
  "new_var \<Rightarrow> string \<Rightarrow> string list \<Rightarrow> string \<Rightarrow> string \<Rightarrow> prep \<Rightarrow> prep res" where
  "prepare_boolean nv name vals ty proc st =
     (case vals of
        [] \<Rightarrow> Panic
      | v # _ \<Rightarrow>
          let value = to_lower (trimRightCRLF v) in
          bind_res (bind_var nv name ''string'' name
              \<lparr>b_spec = NewVariable 0 StringVarType (length value), b_set = [(0, value)]\<rparr> st) (\<lambda>st.
          let st = call_with name ('' = '' @ sql_quoted ''true'')
                     (show_set (set_line name value) (show_decl (declare_line name ty) st))
          in Ok (if proc = [] then st
                 else store_with (store_line proc name (sql_quoted value))
                        (store_line proc name (sql_quoted value)) st)))"

text \<open>A parameter the procedure does not have is only saved in the context.\<close>

definition prepare_unknown ::
  "new_var \<Rightarrow> string \<Rightarrow> string list \<Rightarrow> string \<Rightarrow> prep \<Rightarrow> prep res" where
  "prepare_unknown nv name vals proc st =
     (case vals of
        [] \<Rightarrow> Panic
      | v # _ \<Rightarrow>
          let value = trimRightCRLF v in
          store_scalar nv proc name
            \<lparr>b_spec = NewVariable 0 StringVarType (length value), b_set = [(0, value)]\<rparr>
            (show_set (set_line name (sql_quoted (sql_escape value)))
              (show_decl (declare_line name ''varchar2(32767)'') st)))"

section \<open>Array parameters\<close>

definition tab_value :: "int \<Rightarrow> string \<Rightarrow> string" where
  "tab_value ty v =
     (if ty = oStringTab then removeCR v
      else if ty = oNumberTab then
        let v' = removeCR (trimRightCRLF v) in (if has_prefix v' '','' then ''0'' @ v' else v')
      else removeCR (trimRightCRLF v))"

definition max_len :: "string list \<Rightarrow> nat" where
  "max_len vs = foldl (\<lambda>m v. if m < length v then length v else m) 0 vs"

definition show_items :: "string \<Rightarrow> string list \<Rightarrow> string" where
  "show_items name vs = concat (map (\<lambda>i. set_item name i (vs ! i)) [0 ..< length vs])"

definition store_items :: "string \<Rightarrow> string \<Rightarrow> string \<Rightarrow> nat \<Rightarrow> string" where
  "store_items proc name v n =
     concat (map (\<lambda>i. store_line proc name (v @ ''('' @ itoa (int i + 1) @ '')'')) [0 ..< n])"

definition prepare_tab ::
  "new_var \<Rightarrow> string \<Rightarrow> string list \<Rightarrow> string \<Rightarrow> string \<Rightarrow> var_spec \<Rightarrow> var_spec \<Rightarrow> string list
     \<Rightarrow> prep \<Rightarrow> prep res" where
  "prepare_tab nv name vals ty proc spec spec' shown st =
     bind_res (bind_var nv name ''[]interface {}'' name \<lparr>b_spec = spec, b_set = []\<rparr> st) (\<lambda>st.
     let st = call_with name [] (show_set (show_items name shown) (show_decl (declare_line name ty) st))
     in if proc = [] then Ok st
        else bind_res (bind_var nv name ''[]interface {}'' (hash name)
               \<lparr>b_spec = spec', b_set = []\<rparr> st) (\<lambda>st.
             Ok (store_with (store_items proc name ('':'' @ hash name) (length vals))
                   (store_items proc name (''l_'' @ name) (length vals)) st)))"

definition prepare_tabs ::
  "new_var \<Rightarrow> string \<Rightarrow> string list \<Rightarrow> int \<Rightarrow> string \<Rightarrow> string \<Rightarrow> prep \<Rightarrow> prep res" where
  "prepare_tabs nv name vals pty ty proc st =
     (let value = map (tab_value pty) vals; elems = map E_Str value; trimmed = map trimRightCRLF vals in
      if pty = oStringTab then
        prepare_tab nv name vals ty proc
          (NewArrayVar StringVarType elems (max_len value)) (NewArrayVar StringVarType elems (max_len value))
          (map (sql_quoted \<circ> sql_escape) trimmed) st
      else if pty = oNumberTab then
        prepare_tab nv name vals ty proc
          (NewArrayVar FloatVarType elems 0) (NewArrayVar FloatVarType elems (max_len value)) trimmed st
      else if pty = oIntegerTab then
        prepare_tab nv name vals ty proc
          (NewArrayVar Int32VarType elems 0) (NewArrayVar Int32VarType elems 0) trimmed st
      else if pty = oDateTab then
        prepare_tab nv name vals ty proc
          (NewArrayVar DateTimeVarType (map E_Time trimmed) 0) (NewArrayVar DateTimeVarType elems 0)
          (map (\<lambda>v. ''to_date('' @ sql_quoted v @ '')'') trimmed) st
      else Err (errgo_Newf (''error creating variable for '' @ name
             @ ''([]interface {}): Invalid subtype '' @ itoa pty)))"

definition prepareParam ::
  "new_var \<Rightarrow> string \<Rightarrow> string list \<Rightarrow> int \<Rightarrow> string \<Rightarrow> string \<Rightarrow> prep \<Rightarrow> prep res" where
  "prepareParam nv name vals pty ty proc st =
     (if pty = oString then prepareStringParam nv name vals ty proc st
      else if pty = oNumber then prepare_number nv name vals ty proc st
      else if pty = oInteger then prepare_integer nv name vals ty proc st
      else if pty = oDate then prepare_date nv name vals ty proc st
      else if pty = oBoolean then prepare_boolean nv name vals ty proc st
      else if pty \<in> {oStringTab, oNumberTab, oIntegerTab, oDateTab, oBooleanTab}
        then prepare_tabs nv name vals pty ty proc st
      else prepare_unknown nv name vals proc st)"

end
