(* ===== verification/Sql_Props.thy ===== *)
theory Sql_Props
  imports Sql_Params
begin

text \<open>
  What the parameter pieces mean to the database: quoted values read back as they are, the
  placeholders of the executed text are exactly the variables that are bound, and where a value
  is not quoted.
\<close>

section \<open>String literals\<close>

text \<open>Reading a PL/SQL string literal after its opening quote: the value and the rest.\<close>

fun read_literal :: "string \<Rightarrow> (string \<times> string) option" where
  "read_literal [] = None"
| "read_literal (c # cs) =
     (if c = CHR 0x27 then
        (case cs of
           d # ds \<Rightarrow>
             if d = CHR 0x27 then map_option (\<lambda>(v, r). (CHR 0x27 # v, r)) (read_literal ds)
             else Some ([], cs)
         | [] \<Rightarrow> Some ([], []))
      else map_option (\<lambda>(v, r). (c # v, r)) (read_literal cs))"

lemma sql_escape_Cons:
  "sql_escape (c # v) = (if c = CHR 0x27 then [CHR 0x27, CHR 0x27] else [c]) @ sql_escape v"
  by (simp add: sql_escape_def replace_all_single)

lemma sql_escape_Nil [simp]: "sql_escape [] = []"
  by (simp add: sql_escape_def)

lemma read_escaped:
  "rest = [] \<or> hd rest \<noteq> CHR 0x27 \<Longrightarrow> read_literal (sql_escape v @ CHR 0x27 # rest) = Some (v, rest)"
proof (induction v)
  case Nil
  then show ?case by (cases rest) auto
next
  case (Cons c v)
  then show ?case by (simp add: sql_escape_Cons)
qed

interpretation literal: codec "\<lambda>v. sql_escape v @ [CHR 0x27]"
  "\<lambda>s. case read_literal s of Some (v, []) \<Rightarrow> Some v | _ \<Rightarrow> None"
  by unfold_locales (simp add: read_escaped)

text \<open>C23: a value written by \<open>strings.Replace(v, quote, two quotes)\<close> between quotes is one string
  literal whose value is that value again, whatever characters it has: the database never reads
  part of it as SQL.\<close>

theorem quoted_value_reads_back:
  assumes "rest = [] \<or> hd rest \<noteq> CHR 0x27"
  shows "read_literal (tl (sql_quoted (sql_escape v) @ rest)) = Some (v, rest)"
  using assms by (simp add: sql_quoted_def read_escaped)

theorem quoted_value_reads_back_witness:
  "read_literal (tl (sql_quoted (sql_escape [CHR 0x27, CHR ''x'']) @ '';'')) =
     Some ([CHR 0x27, CHR ''x''], '';'')"
  by (rule quoted_value_reads_back) simp

section \<open>Placeholders\<close>

text \<open>A scanner for placeholders: a colon followed by identifier characters, outside literals.\<close>

datatype smode = S_Text | S_Quote | S_Bind string

definition ident_char :: "char \<Rightarrow> bool" where
  "ident_char c =
     (let n = byte_of c
      in 48 \<le> n \<and> n \<le> 57 \<or> 65 \<le> n \<and> n \<le> 90 \<or> 97 \<le> n \<and> n \<le> 122 \<or> n = 95 \<or> n = 36 \<or> n = 35)"

definition scan_text :: "char \<Rightarrow> smode" where
  "scan_text c = (if c = CHR 0x27 then S_Quote else if c = CHR '':'' then S_Bind [] else S_Text)"

fun pending_bind :: "smode \<Rightarrow> string list" where
  "pending_bind (S_Bind w) = (if w = [] then [] else [w])"
| "pending_bind _ = []"

fun scan_char :: "smode \<Rightarrow> char \<Rightarrow> smode \<times> string list" where
  "scan_char S_Quote c = (if c = CHR 0x27 then S_Text else S_Quote, [])"
| "scan_char S_Text c = (scan_text c, [])"
| "scan_char (S_Bind w) c =
     (if ident_char c then (S_Bind (w @ [c]), []) else (scan_text c, pending_bind (S_Bind w)))"

fun scan :: "smode \<Rightarrow> string \<Rightarrow> smode \<times> string list" where
  "scan m [] = (m, [])"
| "scan m (c # cs) =
     (let (m1, n1) = scan_char m c; (m2, n2) = scan m1 cs in (m2, n1 @ n2))"

definition binds :: "string \<Rightarrow> string list" where
  "binds s = snd (scan S_Text s) @ pending_bind (fst (scan S_Text s))"

lemma scan_append:
  "scan m (a @ b) = (fst (scan (fst (scan m a)) b), snd (scan m a) @ snd (scan (fst (scan m a)) b))"
  by (induction a arbitrary: m) (simp_all add: case_prod_beta Let_def)

definition plain :: "string \<Rightarrow> bool" where
  "plain s = (CHR 0x27 \<notin> set s \<and> CHR '':'' \<notin> set s)"

definition is_ident :: "string \<Rightarrow> bool" where
  "is_ident s = (s \<noteq> [] \<and> list_all ident_char s)"

lemma plain_simps [simp]:
  "plain []" "plain (c # s) = (c \<noteq> CHR 0x27 \<and> c \<noteq> CHR '':'' \<and> plain s)"
  "plain (a @ b) = (plain a \<and> plain b)"
  by (auto simp: plain_def)

lemma scan_plain [simp]: "plain s \<Longrightarrow> scan S_Text s = (S_Text, [])"
  by (induction s) (auto simp: scan_text_def)

lemma scan_ident: "list_all ident_char s \<Longrightarrow> scan (S_Bind w) s = (S_Bind (w @ s), [])"
  by (induction s arbitrary: w) auto

lemma scan_quoted: "CHR 0x27 \<notin> set s \<Longrightarrow> scan S_Quote s = (S_Quote, [])"
  by (induction s) auto

lemma ident_char_neq: "ident_char c \<Longrightarrow> c \<noteq> CHR 0x27 \<and> c \<noteq> CHR '':''"
  by (auto simp: ident_char_def byte_of_def)

lemma ident_plain: "list_all ident_char s \<Longrightarrow> plain s"
  by (auto simp: plain_def list_all_iff dest: ident_char_neq)

lemma ident_upper: "list_all ident_char s \<Longrightarrow> CHR 0x27 \<notin> set (to_upper s)"
proof -
  assume id: "list_all ident_char s"
  then have "\<forall>c \<in> set s. byte_of c < 128" by (auto simp: list_all_iff ident_char_def Let_def)
  then have "to_upper s = map upper_char s" by (rule to_upper_ascii)
  moreover have "upper_char c \<noteq> CHR 0x27" if "ident_char c" for c
  proof
    assume "upper_char c = CHR 0x27"
    then have "byte_of (upper_char c) = 39" by (simp add: byte_of_def)
    with that show False by (auto simp: upper_char_def ident_char_def Let_def split: if_splits)
  qed
  ultimately show ?thesis using id by (metis imageE list.set_map list_all_iff)
qed

lemma digits_plain: "plain (itoa (int n))"
proof -
  have "plain (nat_digits n)"
    using nat_digits_digits [of _ n] by (fastforce simp: plain_def is_digit_def byte_of_def)
  then show ?thesis by (simp add: itoa_def)
qed

text \<open>Text after a placeholder: the first character ends it.\<close>

lemma scan_bind_end:
  "\<not> ident_char c \<Longrightarrow> c \<noteq> CHR 0x27 \<Longrightarrow> c \<noteq> CHR '':'' \<Longrightarrow> plain s \<Longrightarrow>
   scan (S_Bind w) (c # s) = (S_Text, pending_bind (S_Bind w))"
  by (simp add: scan_text_def)

section \<open>Placeholders and variables\<close>

text \<open>The executed text and the map of variables agree, apart from the variables \<open>D\<close> the
  fixed part of the block uses.\<close>

definition bound :: "string set \<Rightarrow> prep \<Rightarrow> bool" where
  "bound D st =
     (fst (scan S_Text (execProc st)) \<noteq> S_Quote \<and> fst (scan S_Text (execStore st)) = S_Text \<and>
      dom (params st) = D \<union> set (binds (execProc st)) \<union> set (binds (execStore st)))"

lemma scan_call:
  assumes "is_ident name" "m \<noteq> S_Quote"
  shows "scan m ('', '' @ name @ '' => :'' @ name) = (S_Bind name, pending_bind m)"
proof -
  have n: "list_all ident_char name" using assms(1) by (simp add: is_ident_def)
  have sep: "scan m '', '' = (S_Text, pending_bind m)"
    using assms(2) by (cases m) (simp_all add: scan_text_def ident_char_def byte_of_def)
  have "scan S_Text ('' => :'' @ name) = (S_Bind name, [])"
    using scan_ident [OF n, of "[]"] by (simp add: scan_text_def)
  then show ?thesis
    using ident_plain [OF n] by (simp only: scan_append sep) (simp add: scan_append)
qed

lemma binds_call:
  assumes "is_ident name" "fst (scan S_Text buf) \<noteq> S_Quote"
  shows "binds (comma buf (name @ '' => :'' @ name)) = binds buf @ [name]"
    "fst (scan S_Text (comma buf (name @ '' => :'' @ name))) = S_Bind name"
proof -
  have n: "list_all ident_char name" "name \<noteq> []" using assms(1) by (simp_all add: is_ident_def)
  have first: "scan S_Text (name @ '' => :'' @ name) = (S_Bind name, [])"
    using ident_plain [OF n(1)] scan_ident [OF n(1), of "[]"]
    by (simp add: scan_append scan_text_def)
  have next_one: "scan S_Text (buf @ '', '' @ name @ '' => :'' @ name) = (S_Bind name, binds buf)"
    by (simp only: scan_append [of S_Text buf] scan_call [OF assms] fst_conv snd_conv binds_def)
  show "binds (comma buf (name @ '' => :'' @ name)) = binds buf @ [name]"
    "fst (scan S_Text (comma buf (name @ '' => :'' @ name))) = S_Bind name"
    using first next_one n(2) by (simp_all add: comma_def binds_def)
qed

lemma binds_call_true:
  assumes "is_ident name" "fst (scan S_Text buf) \<noteq> S_Quote"
  shows "binds (comma buf (name @ '' => :'' @ name @ '' = '' @ sql_quoted ''true'')) = binds buf @ [name]"
    "fst (scan S_Text (comma buf (name @ '' => :'' @ name @ '' = '' @ sql_quoted ''true''))) = S_Text"
proof -
  let ?tail = "'' = '' @ sql_quoted ''true''"
  have eq: "comma buf (name @ '' => :'' @ name @ ?tail) = comma buf (name @ '' => :'' @ name) @ ?tail"
    by (simp add: comma_def)
  have tail: "scan (S_Bind name) ?tail = (S_Text, [name])"
    using assms(1) by (simp add: is_ident_def sql_quoted_def scan_text_def ident_char_def byte_of_def)
  note pre = binds_call [OF assms]
  obtain ns where ns: "scan S_Text (comma buf (name @ '' => :'' @ name)) = (S_Bind name, ns)"
    using pre(2) by (metis prod.collapse)
  then have "ns @ [name] = binds buf @ [name]"
    using pre(1) assms(1) by (simp add: binds_def is_ident_def)
  moreover have "scan S_Text (comma buf (name @ '' => :'' @ name @ ?tail)) = (S_Text, ns @ [name])"
    by (simp only: eq scan_append [of S_Text "comma buf (name @ '' => :'' @ name)"] ns tail
        fst_conv snd_conv)
  ultimately show "binds (comma buf (name @ '' => :'' @ name @ ?tail)) = binds buf @ [name]"
    "fst (scan S_Text (comma buf (name @ '' => :'' @ name @ ?tail))) = S_Text"
    by (simp_all add: binds_def)
qed

lemma ident_hash: "is_ident name \<Longrightarrow> is_ident (hash name)"
  by (simp add: is_ident_def hash_def ident_char_def byte_of_def)

text \<open>A line that saves a value in the context: what follows the name is scanned as it is.\<close>

lemma scan_store_line:
  assumes "plain proc" "is_ident name"
  shows "scan S_Text (store_line proc name v) = scan S_Text (v @ '');'' @ [LF])"
proof -
  have "CHR 0x27 \<notin> set (to_upper name)" using assms(2) ident_upper by (simp add: is_ident_def)
  then have "scan S_Text (''  '' @ proc @ ''('' @ sql_quoted (to_upper name) @ '', '') = (S_Text, [])"
    using assms(1) by (simp add: sql_quoted_def scan_append scan_text_def scan_quoted)
  moreover have "store_line proc name v =
      (''  '' @ proc @ ''('' @ sql_quoted (to_upper name) @ '', '') @ (v @ '');'' @ [LF])"
    by (simp add: store_line_def)
  ultimately show ?thesis by (simp only: scan_append [of S_Text "''  '' @ _"]) simp
qed

lemma scan_store_bind:
  assumes "plain proc" "is_ident name" "plain tail" "tail = [] \<or> \<not> ident_char (hd tail)"
  shows "scan S_Text (store_line proc name ('':'' @ hash name @ tail)) = (S_Text, [hash name])"
proof -
  have id: "list_all ident_char (hash name)" "hash name \<noteq> []"
    using ident_hash [OF assms(2)] by (simp_all add: is_ident_def)
  have "scan (S_Bind (hash name)) (tail @ '');'' @ [LF]) = (S_Text, [hash name])"
    using assms(3,4) id(2)
    by (cases tail) (auto simp: scan_text_def ident_char_def byte_of_def LF_def)
  then have "scan S_Text ('':'' @ hash name @ tail @ '');'' @ [LF]) = (S_Text, [hash name])"
    using scan_ident [OF id(1), of "[]"] by (simp add: scan_text_def scan_append [of "S_Bind []"])
  then show ?thesis by (simp add: scan_store_line [OF assms(1,2)])
qed

lemma binds_snoc:
  assumes "fst (scan S_Text buf) = S_Text" "scan S_Text line = (S_Text, ns)"
  shows "binds (buf @ line) = binds buf @ ns" "fst (scan S_Text (buf @ line)) = S_Text"
  using assms by (simp_all add: binds_def scan_append)

lemma scan_lines:
  "(\<And>i. scan S_Text (f i) = (S_Text, [h])) \<Longrightarrow>
   scan S_Text (concat (map f ks)) = (S_Text, map (\<lambda>_. h) ks)"
  by (induction ks) (simp_all add: scan_append)

lemma scan_store_items:
  assumes "plain proc" "is_ident name"
  shows "fst (scan S_Text (store_items proc name ('':'' @ hash name) n)) = S_Text"
    "set (snd (scan S_Text (store_items proc name ('':'' @ hash name) n))) =
       (if n = 0 then {} else {hash name})"
proof -
  have line: "scan S_Text (store_line proc name (('':'' @ hash name) @ ''('' @ itoa (int i + 1) @ '')'')) =
      (S_Text, [hash name])" for i
    using scan_store_bind [OF assms, of "''('' @ itoa (int i + 1) @ '')''"] digits_plain [of "i + 1"]
    by (simp add: ident_char_def byte_of_def add.commute)
  note all = scan_lines [of "\<lambda>i. store_line proc name (('':'' @ hash name) @ ''('' @ itoa (int i + 1) @ '')'')",
    OF line, of "[0 ..< n]"]
  from all show
    "fst (scan S_Text (store_items proc name ('':'' @ hash name) n)) = S_Text"
    "set (snd (scan S_Text (store_items proc name ('':'' @ hash name) n))) =
       (if n = 0 then {} else {hash name})"
    by (auto simp: store_items_def)
qed

text \<open>The stages of one parameter keep the agreement.\<close>

lemma show_frame [simp]:
  "execProc (show_decl l st) = execProc st" "execStore (show_decl l st) = execStore st"
  "params (show_decl l st) = params st" "execProc (show_set l st) = execProc st"
  "execStore (show_set l st) = execStore st" "params (show_set l st) = params st"
  by (simp_all add: show_decl_def show_set_def)

lemma bind_var_Ok:
  "bind_var nv name ty key b st = Ok st' \<longleftrightarrow>
     nv (b_spec b) = None \<and> st' = st\<lparr>params := (params st)(key \<mapsto> b)\<rparr>"
  by (auto simp: bind_var_def split: option.splits)

lemma bound_call:
  assumes "is_ident name" "bound D st" "suffix = [] \<or> suffix = '' = '' @ sql_quoted ''true''"
    and "execProc st' = execProc (call_with name suffix st)" "execStore st' = execStore st"
    and "dom (params st') = insert name (dom (params st))"
  shows "bound D st'"
  using assms(3)
proof
  assume "suffix = []"
  with assms binds_call [OF assms(1), of "execProc st"] show ?thesis
    by (auto simp: bound_def call_with_def)
next
  assume "suffix = '' = '' @ sql_quoted ''true''"
  with assms binds_call_true [OF assms(1), of "execProc st"] show ?thesis
    by (auto simp: bound_def call_with_def)
qed

lemma bound_store:
  assumes "bound D st" "scan S_Text l = (S_Text, ns)"
    and "execStore st' = execStore st @ l" "execProc st' = execProc st"
    and "dom (params st') = dom (params st) \<union> set ns"
  shows "bound D st'"
  using assms binds_snoc [of "execStore st" l ns] by (auto simp: bound_def)

lemma bound_store_scalar:
  assumes "plain proc" "is_ident name" "bound D st" "store_scalar nv proc name b st = Ok st'"
  shows "bound D st'"
proof (cases "proc = []")
  case True
  with assms show ?thesis by (simp add: store_scalar_def)
next
  case False
  with assms(4) have st': "st' = store_with (store_line proc name ('':'' @ hash name))
      (store_line proc name (''l_'' @ name)) (st\<lparr>params := (params st)(hash name \<mapsto> b)\<rparr>)"
    by (auto simp: store_scalar_def bind_res_Ok bind_var_Ok)
  have line: "scan S_Text (store_line proc name ('':'' @ hash name)) = (S_Text, [hash name])"
    using scan_store_bind [OF assms(1,2), of "[]"] by (simp only: append_Nil2 plain_simps simp_thms)
  show ?thesis
    by (rule bound_store [OF assms(3) line]) (auto simp: st' store_with_def)
qed

lemma bound_scalar:
  assumes "plain proc" "is_ident name" "bound D st"
    and "bind_res (bind_var nv name ty name b st) (\<lambda>st.
      store_scalar nv proc name b' (call_with name [] (show_set l (show_decl l' st)))) = Ok st'"
  shows "bound D st'"
proof -
  let ?st = "call_with name [] (show_set l (show_decl l' (st\<lparr>params := (params st)(name \<mapsto> b)\<rparr>)))"
  have st': "store_scalar nv proc name b' ?st = Ok st'"
    using assms(4) by (auto simp: bind_res_Ok bind_var_Ok)
  have "bound D ?st"
    by (rule bound_call [OF assms(2,3), of "[]"]) (simp_all add: call_with_def)
  from bound_store_scalar [OF assms(1,2) this st'] show ?thesis .
qed

lemma bound_tab:
  assumes "plain proc" "is_ident name" "bound D st" "vals \<noteq> []"
    and "prepare_tab nv name vals ty proc spec spec' shown st = Ok st'"
  shows "bound D st'"
proof -
  let ?st = "call_with name [] (show_set (show_items name shown) (show_decl (declare_line name ty)
      (st\<lparr>params := (params st)(name \<mapsto> \<lparr>b_spec = spec, b_set = []\<rparr>)\<rparr>)))"
  have b: "bound D ?st"
    by (rule bound_call [OF assms(2,3), of "[]"]) (simp_all add: call_with_def)
  show ?thesis
  proof (cases "proc = []")
    case True
    with assms(5) b show ?thesis by (auto simp: prepare_tab_def bind_res_Ok bind_var_Ok)
  next
    case False
    let ?l = "store_items proc name ('':'' @ hash name) (length vals)"
    from False assms(5) have st': "st' = store_with ?l (store_items proc name (''l_'' @ name) (length vals))
        (?st\<lparr>params := (params ?st)(hash name \<mapsto> \<lparr>b_spec = spec', b_set = []\<rparr>)\<rparr>)"
      by (auto simp: prepare_tab_def bind_res_Ok bind_var_Ok)
    obtain ns where ns: "scan S_Text ?l = (S_Text, ns)" "set ns = {hash name}"
      using scan_store_items [OF assms(1,2), of "length vals"] assms(4)
      by (metis length_0_conv prod.collapse)
    show ?thesis
      by (rule bound_store [OF b ns(1)]) (auto simp: st' store_with_def ns(2))
  qed
qed

lemma bound_boolean:
  assumes "plain proc" "is_ident name" "bound D st" "vals \<noteq> []"
    and "proc = [] \<or> plain (to_lower (trimRightCRLF (hd vals)))"
    and "prepare_boolean nv name vals ty proc st = Ok st'"
  shows "bound D st'"
proof -
  let ?v = "to_lower (trimRightCRLF (hd vals))"
  let ?st = "call_with name ('' = '' @ sql_quoted ''true'') (show_set (set_line name ?v)
     (show_decl (declare_line name ty) (st\<lparr>params := (params st)(name \<mapsto>
       \<lparr>b_spec = NewVariable 0 StringVarType (length ?v), b_set = [(0, ?v)]\<rparr>)\<rparr>)))"
  have b: "bound D ?st"
    by (rule bound_call [OF assms(2,3), of "'' = '' @ sql_quoted ''true''"]) (simp_all add: call_with_def)
  show ?thesis
  proof (cases "proc = []")
    case True
    with assms(4,6) b show ?thesis
      by (cases vals) (auto simp: prepare_boolean_def bind_res_Ok bind_var_Ok Let_def)
  next
    case False
    let ?l = "store_line proc name (sql_quoted ?v)"
    from False assms(4,6) have st': "st' = store_with ?l ?l ?st"
      by (cases vals) (auto simp: prepare_boolean_def bind_res_Ok bind_var_Ok Let_def)
    have "scan S_Text (sql_quoted ?v @ '');'' @ [LF]) = (S_Text, [])"
      using assms(5) False by (simp add: sql_quoted_def scan_append scan_quoted scan_text_def plain_def LF_def)
    then have "scan S_Text ?l = (S_Text, [])" by (simp only: scan_store_line [OF assms(1,2)])
    then show ?thesis
      by (rule bound_store [OF b]) (auto simp: st' store_with_def)
  qed
qed

text \<open>Preparing a parameter keeps the executed text and the map of bind variables in step: every
  placeholder of the call and of the context part is bound, and nothing else is, so the database
  neither misses a variable nor gets one too many.  It holds for every parameter type, for an
  identifier as name, at least one value and a store procedure without quotes and colons; the
  value of a boolean parameter that is saved in the context must not have any either.\<close>

lemma prepareParam_placeholders:
  assumes "plain proc" "is_ident name" "vals \<noteq> []" "bound D st"
    and "pty = oBoolean \<longrightarrow> proc = [] \<or> plain (to_lower (trimRightCRLF (hd vals)))"
    and "prepareParam nv name vals pty ty proc st = Ok st'"
  shows "bound D st'"
proof -
  obtain v vs where v: "vals = v # vs" using assms(3) by (cases vals) auto
  note scalar = bound_scalar [OF assms(1,2,4)] bound_store_scalar [OF assms(1,2)]
  consider "pty = oString" | "pty = oNumber" | "pty = oInteger" | "pty = oDate" | "pty = oBoolean"
    | "pty \<in> {oStringTab, oNumberTab, oIntegerTab, oDateTab}"
    | "pty \<notin> {oString, oNumber, oInteger, oDate, oBoolean, oStringTab, oNumberTab, oIntegerTab, oDateTab}"
    by blast
  then show ?thesis
  proof cases
    case 1
    with assms(6) v show ?thesis
      by (auto simp: prepareParam_def prepareStringParam_def Let_def intro: scalar(1))
  next
    case 2
    with assms(6) v show ?thesis
      by (auto simp: prepareParam_def prepare_number_def param_type_defs Let_def intro: scalar(1))
  next
    case 3
    with assms(6) v show ?thesis
      by (auto simp: prepareParam_def prepare_integer_def param_type_defs Let_def intro: scalar(1))
  next
    case 4
    with assms(6) v show ?thesis
      by (auto simp: prepareParam_def prepare_date_def param_type_defs Let_def intro: scalar(1))
  next
    case 5
    with assms show ?thesis
      by (auto simp: prepareParam_def param_type_defs intro: bound_boolean)
  next
    case 6
    with assms(6) show ?thesis
      by (auto simp: prepareParam_def prepare_tabs_def param_type_defs Let_def
        intro: bound_tab [OF assms(1,2,4,3)])
  next
    case 7
    show ?thesis
    proof (cases "pty = oBooleanTab")
      case True
      with assms(6) show ?thesis
        by (simp add: prepareParam_def prepare_tabs_def param_type_defs Let_def)
    next
      case False
      with 7 v assms(6) have "prepare_unknown nv name (v # vs) proc st = Ok st'"
        by (simp add: prepareParam_def)
      then have st': "store_scalar nv proc name
            \<lparr>b_spec = NewVariable 0 StringVarType (length (trimRightCRLF v)),
             b_set = [(0, trimRightCRLF v)]\<rparr>
            (show_set (set_line name (sql_quoted (sql_escape (trimRightCRLF v))))
              (show_decl (declare_line name ''varchar2(32767)'') st)) = Ok st'"
        by (simp add: prepare_unknown_def Let_def)
      have "bound D (show_set (set_line name (sql_quoted (sql_escape (trimRightCRLF v))))
              (show_decl (declare_line name ''varchar2(32767)'') st))"
        using assms(4) by (simp add: bound_def)
      from scalar(2) [OF this st'] show ?thesis .
    qed
  qed
qed

definition empty_prep :: prep where
  "empty_prep = \<lparr>execDeclare = [], showDeclare = [], execSet = [], showSet = [], execProc = [],
     showProc = [], execStore = [], showStore = [], params = Map.empty\<rparr>"

lemma bound_empty: "bound {} empty_prep"
  by (simp add: bound_def empty_prep_def binds_def)

text \<open>With a driver that makes every variable and at least one value, preparing fails for exactly
  one parameter type: the arrays of booleans, which \<open>Describe\<close> reports as type 14.\<close>

theorem prepareParam_total:
  assumes "vals \<noteq> []"
  shows "(\<exists>st'. prepareParam (\<lambda>_. None) name vals pty ty proc st = Ok st') \<longleftrightarrow> pty \<noteq> oBooleanTab"
proof -
  obtain v vs where "vals = v # vs" using assms by (cases vals) auto
  then show ?thesis
    by (auto simp: prepareParam_def prepareStringParam_def prepare_number_def prepare_integer_def
      prepare_date_def prepare_boolean_def prepare_tabs_def prepare_tab_def prepare_unknown_def
      store_scalar_def bind_var_def param_type_defs Let_def)
qed

theorem prepareParam_total_witness:
  "\<nexists>st'. prepareParam (\<lambda>_. None) ''flags'' [''true''] oBooleanTab ''FLAGS'' [] empty_prep = Ok st'"
  using prepareParam_total [of "[''true'']" "''flags''" oBooleanTab] by simp

text \<open>C40: the value of a boolean parameter is written into the executed text unescaped when the
  virtual directory saves parameters in the context.  For every statement text \<open>x\<close> in small
  letters there is a value of the request parameter that puts \<open>x\<close> as a statement of its own
  into the block, with the remains of the line commented out.\<close>

theorem boolean_parameter_injects:
  assumes "to_lower x = x" "proc \<noteq> []" "list_all (\<lambda>c. byte_of c < 128) x"
  shows "\<exists>v st'. prepareParam (\<lambda>_. None) name [v] oBoolean ty proc st = Ok st' \<and>
     execStore st' = execStore st @ ''  '' @ proc @ ''('' @ sql_quoted (to_upper name) @ '', '' @
       sql_quoted [] @ ''); '' @ x @ ''--'' @ [CHR 0x27] @ '');'' @ [LF]"
proof -
  let ?v = "[CHR 0x27] @ ''); '' @ x @ ''--''"
  have "trimRightCRLF ?v = ?v" by (simp add: trimRightCRLF_def trim_right_set_def CR_def LF_def)
  moreover have "to_lower ?v = ?v"
  proof -
    have x: "\<forall>c \<in> set x. byte_of c < 128" using assms(3) by (simp add: list_all_iff)
    then have "map lower_char x = x" using assms(1) to_lower_ascii by metis
    moreover have "\<forall>c \<in> set ?v. byte_of c < 128" using x by (auto simp: byte_of_def)
    ultimately show ?thesis
      by (simp only: to_lower_ascii map_append) (simp add: lower_char_def byte_of_def)
  qed
  ultimately show ?thesis
    using assms(2)
    by (intro exI [of _ ?v])
       (simp add: prepareParam_def prepare_boolean_def bind_var_def param_type_defs store_with_def
         store_line_def sql_quoted_def call_with_def show_set_def show_decl_def Let_def)
qed

theorem boolean_parameter_injects_witness:
  "\<exists>v st'. prepareParam (\<lambda>_. None) ''ok'' [v] oBoolean ''BOOLEAN'' ''put'' empty_prep = Ok st' \<and>
     execStore st' = execStore empty_prep @ ''  '' @ ''put'' @ ''('' @ sql_quoted (to_upper ''ok'') @ '', '' @
       sql_quoted [] @ ''); '' @ ''drop_all;'' @ ''--'' @ [CHR 0x27] @ '');'' @ [LF]"
  by (rule boolean_parameter_injects) (simp_all add: to_lower_ascii lower_char_def byte_of_def)

text \<open>The value a scalar variable carries to the database.\<close>

definition bind_value :: "bind \<Rightarrow> string" where
  "bind_value b = (case b_set b of (_, v) # _ \<Rightarrow> v | [] \<Rightarrow> (case b_spec b of NewVar v \<Rightarrow> v | _ \<Rightarrow> []))"

text \<open>C24: the database receives the submitted value: a string without its carriage returns, a
  number, integer or date without trailing line ends, as the variable of that name; other variables
  are untouched, apart from the copy for the context.\<close>

theorem prepareParam_binds_value:
  assumes "prepareParam nv name (v # vs) pty ty proc st = Ok st'"
    and "pty \<in> {oString, oNumber, oInteger, oDate}"
  shows "map_option bind_value (params st' name) =
           Some (if pty = oString then removeCR v else trimRightCRLF v) \<and>
         (\<forall>k. k \<noteq> name \<longrightarrow> k \<noteq> hash name \<longrightarrow> params st' k = params st k)"
proof -
  have neq: "hash name \<noteq> name" by (simp add: hash_def)
  show ?thesis
    using assms neq
    by (cases "proc = []")
       (auto simp: prepareParam_def prepareStringParam_def prepare_number_def prepare_integer_def
        prepare_date_def store_scalar_def bind_res_Ok bind_var_Ok bind_value_def param_type_defs
        call_with_def show_set_def show_decl_def store_with_def Let_def)
qed

theorem prepareParam_binds_value_witness:
  "\<exists>st'. prepareParam (\<lambda>_. None) ''n'' [''5'' @ [CR, LF]] oNumber ''NUMBER'' [] empty_prep = Ok st' \<and>
     map_option bind_value (params st' ''n'') = Some ''5''"
proof -
  obtain st' where st': "prepareParam (\<lambda>_. None) ''n'' [''5'' @ [CR, LF]] oNumber ''NUMBER'' [] empty_prep = Ok st'"
    by (simp add: prepareParam_def prepare_number_def param_type_defs store_scalar_def bind_var_def Let_def)
  show ?thesis
    using prepareParam_binds_value [OF st'] st'
    by (simp add: param_type_defs trimRightCRLF_def trim_right_set_def CR_def LF_def)
qed

end

