(* ===== verification/Describe.thy ===== *)
theory Describe
  imports Ora_Errors
begin

text \<open>
  The cache of procedure descriptions of \<open>otasker/describe.go\<close>.  \<open>Describe\<close> asks the
  database whether a procedure changed since the cached time stamp and, if so, replaces the
  description; \<open>ProcedureInfo\<close> and \<open>ArgumentInfo\<close> read the cache.  The two statements it
  executes are the parameter \<open>d\<close>; \<open>dictionary_db\<close> gives their meaning on a data dictionary,
  as the PL/SQL text states it, the recompilation of invalid objects included.
\<close>

section \<open>The cache\<close>

record argument =
  dataType :: int
  dataTypeName :: string

record procedure_info =
  timestamp :: time
  packageName :: string
  arguments :: "string \<rightharpoonup> argument"

type_synonym plist = "string \<rightharpoonup> procedure_info"

definition proc_key :: "string \<Rightarrow> string \<Rightarrow> string" where
  "proc_key dbName procedureName = to_upper (dbName @ ''.'' @ procedureName)"

text \<open>The words of the two error texts, which are in Russian.\<close>

definition no_description :: string where
  "no_description = encode_runes [0x41E, 0x442, 0x441, 0x443, 0x442, 0x441, 0x442, 0x432, 0x443, 0x435, 0x442,
    0x20, 0x43E, 0x43F, 0x438, 0x441, 0x430, 0x43D, 0x438, 0x435]"

definition for_procedure :: string where
  "for_procedure = encode_runes [0x434, 0x43B, 0x44F, 0x20, 0x43F, 0x440, 0x43E, 0x446, 0x435, 0x434, 0x443,
    0x440, 0x44B]"

definition of_argument :: string where
  "of_argument = encode_runes [0x430, 0x440, 0x433, 0x443, 0x43C, 0x435, 0x43D, 0x442, 0x430]"

definition in_quotes :: "string \<Rightarrow> string" where
  "in_quotes s = [CHR 0x22] @ s @ [CHR 0x22]"

definition no_procedure :: "string \<Rightarrow> go_error" where
  "no_procedure procedureName =
     errgo_Newf (no_description @ '' '' @ for_procedure @ '' '' @ in_quotes procedureName @ [CHR 0x0A])"

definition no_argument :: "string \<Rightarrow> string \<Rightarrow> go_error" where
  "no_argument argumentName procedureName =
     errgo_Newf (no_description @ '' '' @ of_argument @ '' '' @ in_quotes argumentName @ '' '' @
       for_procedure @ '' '' @ in_quotes procedureName @ [CHR 0x0A])"

definition ProcedureInfo :: "plist \<Rightarrow> string \<Rightarrow> string \<Rightarrow> time \<times> string \<times> go_error option" where
  "ProcedureInfo pl dbName procedureName =
     (case pl (proc_key dbName procedureName) of
        Some p \<Rightarrow> (timestamp p, packageName p, None)
      | None \<Rightarrow> (0, [], Some (no_procedure procedureName)))"

definition ArgumentInfo :: "plist \<Rightarrow> string \<Rightarrow> string \<Rightarrow> string \<Rightarrow> int \<times> string \<times> go_error option" where
  "ArgumentInfo pl dbName procedureName argumentName =
     (case pl (proc_key dbName procedureName) of
        Some p \<Rightarrow>
          (case arguments p (to_upper argumentName) of
             Some a \<Rightarrow> (dataType a, dataTypeName a, None)
           | None \<Rightarrow> (0, [], Some (no_argument argumentName procedureName)))
      | None \<Rightarrow> (0, [], Some (no_procedure procedureName)))"

section \<open>\<open>Describe\<close>\<close>

text \<open>What the short statement leaves in its variables, and the rows of the long one.\<close>

record short_out =
  so_updated :: int
  so_package :: string
  so_time :: time
  so_len :: int
  so_name :: string
  so_object :: int

type_synonym arg_row = "string \<times> int \<times> string"

record describe_db =
  new_vars :: "go_error option"
  exec_short :: "string \<Rightarrow> string \<Rightarrow> time \<Rightarrow> short_out res"
  exec_long :: "int \<Rightarrow> string \<Rightarrow> arg_row list res"

definition row_arguments :: "arg_row list \<Rightarrow> string \<rightharpoonup> argument" where
  "row_arguments rows =
     foldl (\<lambda>m (n, ty, tn). m(n \<mapsto> \<lparr>dataType = ty, dataTypeName = tn\<rparr>)) Map.empty rows"

definition Describe :: "describe_db \<Rightarrow> string \<Rightarrow> string \<Rightarrow> plist \<Rightarrow> plist res" where
  "Describe d dbName procedureName pl =
     (let info = ProcedureInfo pl dbName procedureName; ts = fst info; pkg = fst (snd info) in
      case new_vars d of
        Some e \<Rightarrow> Err (errV procedureName ''string'' e)
      | None \<Rightarrow>
          bind_res (exec_short d procedureName pkg ts) (\<lambda>so.
          if so_updated so \<noteq> 1 then Ok pl
          else bind_res (exec_long d (so_object so) (so_name so)) (\<lambda>rows.
            Ok (pl(proc_key dbName procedureName \<mapsto>
              \<lparr>timestamp = so_time so, packageName = so_package so, arguments = row_arguments rows\<rparr>)))))"

section \<open>The data dictionary\<close>

text \<open>What \<open>stm_descr_short\<close> and \<open>stm_descr_long\<close> compute from the dictionary: the object
  a name resolves to, its status, its last change and its arguments.  The short statement compiles an
  invalid object and takes the time of the database for its last change; the package
  \<open>dbms_ddl\<close> is a parameter, the error it raises.\<close>

record dict_entry =
  de_object :: int
  de_package :: string
  de_name :: string
  de_status :: string
  de_ddl :: time
  de_rows :: "arg_row list"

record dict_env =
  alter_compile :: "dict_entry \<Rightarrow> go_error option"
  sysdate :: time

definition object_missing :: go_error where
  "object_missing = OracleError 6564 ''object does not exist'' [] 0"

text \<open>The exception handler turns the errors of \<open>dbms_ddl\<close> and of the application into
  \<open>ex1\<close>, a missing object.\<close>

definition reraise :: "go_error \<Rightarrow> go_error" where
  "reraise e =
     (case e of
        OracleError code _ _ _ \<Rightarrow> if code \<in> {20000, 20001, 20002, 20003, 20004} then object_missing else e
      | _ \<Rightarrow> e)"

definition compile_error :: "dict_env \<Rightarrow> dict_entry \<Rightarrow> go_error option" where
  "compile_error env e = (if de_status e = ''INVALID'' then alter_compile env e else None)"

definition seen_ddl :: "dict_env \<Rightarrow> dict_entry \<Rightarrow> time" where
  "seen_ddl env e = (if de_status e = ''INVALID'' then sysdate env else de_ddl e)"

definition stm_descr_short :: "dict_env \<Rightarrow> (string \<rightharpoonup> dict_entry) \<Rightarrow> string \<Rightarrow> string \<Rightarrow> time \<Rightarrow> short_out res" where
  "stm_descr_short env dict procedureName pkg ts =
     (case dict procedureName of
        None \<Rightarrow> Err object_missing
      | Some e \<Rightarrow>
          (case compile_error env e of
             Some err \<Rightarrow> Err (reraise err)
           | None \<Rightarrow>
               if seen_ddl env e \<le> ts
               then Ok \<lparr>so_updated = 0, so_package = de_package e, so_time = ts, so_len = 0,
                        so_name = [], so_object = de_object e\<rparr>
               else Ok \<lparr>so_updated = 1, so_package = de_package e, so_time = seen_ddl env e,
                        so_len = int (length (de_rows e)), so_name = de_name e, so_object = de_object e\<rparr>))"

definition stm_descr_long :: "(int \<Rightarrow> string \<Rightarrow> arg_row list) \<Rightarrow> int \<Rightarrow> string \<Rightarrow> arg_row list res" where
  "stm_descr_long args obj n = Ok (args obj n)"

definition dictionary_db :: "dict_env \<Rightarrow> (string \<rightharpoonup> dict_entry) \<Rightarrow> (int \<Rightarrow> string \<Rightarrow> arg_row list)
    \<Rightarrow> describe_db" where
  "dictionary_db env dict args =
     \<lparr>new_vars = None, exec_short = stm_descr_short env dict, exec_long = stm_descr_long args\<rparr>"

section \<open>What the cache promises\<close>

text \<open>An entry of the cache is right, or older than the last change.\<close>

definition coherent :: "(string \<rightharpoonup> dict_entry) \<Rightarrow> string \<Rightarrow> plist \<Rightarrow> bool" where
  "coherent dict db pl =
     (\<forall>p e i. dict p = Some e \<longrightarrow> pl (proc_key db p) = Some i \<longrightarrow> de_ddl e \<le> timestamp i \<longrightarrow>
        packageName i = de_package e \<and> arguments i = row_arguments (de_rows e))"

text \<open>A description source: what it tells of a procedure now.  The contract \<open>Describe\<close> relies
  on: for a procedure that is there and can be used, the short statement compares the time at which it
  saw it change with the time stamp, and the long one gives the current arguments; for any other it fails.\<close>

locale description_source =
  fixes d :: describe_db and now :: "string \<rightharpoonup> dict_entry" and db :: string
    and usable :: "dict_entry \<Rightarrow> bool" and seen :: "dict_entry \<Rightarrow> time"
  assumes vars: "new_vars d = None"
    and same_name: "proc_key db p = proc_key db q \<Longrightarrow> now p = now q"
    and missing: "now p = None \<Longrightarrow> \<exists>e. exec_short d p pkg ts = Err e"
    and unusable: "now p = Some e \<Longrightarrow> \<not> usable e \<Longrightarrow> \<exists>err. exec_short d p pkg ts = Err err"
    and unchanged: "now p = Some e \<Longrightarrow> usable e \<Longrightarrow> seen e \<le> ts \<Longrightarrow>
          \<exists>so. exec_short d p pkg ts = Ok so \<and> so_updated so \<noteq> 1"
    and changed: "now p = Some e \<Longrightarrow> usable e \<Longrightarrow> ts < seen e \<Longrightarrow>
          \<exists>so. exec_short d p pkg ts = Ok so \<and> so_updated so = 1 \<and> so_time so = seen e \<and>
               so_package so = de_package e \<and> exec_long d (so_object so) (so_name so) = Ok (de_rows e)"
begin

lemma Describe_missing: "now p = None \<Longrightarrow> \<exists>e. Describe d db p pl = Err e"
proof -
  let ?i = "ProcedureInfo pl db p"
  assume "now p = None"
  then obtain e where "exec_short d p (fst (snd ?i)) (fst ?i) = Err e" using missing by blast
  then show ?thesis by (simp add: Describe_def vars Let_def)
qed

lemma Describe_unusable:
  assumes "now p = Some e" "\<not> usable e"
  shows "\<exists>err. Describe d db p pl = Err err"
proof -
  let ?i = "ProcedureInfo pl db p"
  obtain err where "exec_short d p (fst (snd ?i)) (fst ?i) = Err err" using unusable [OF assms] by blast
  then show ?thesis by (simp add: Describe_def vars Let_def)
qed

lemma Describe_changed:
  assumes "now p = Some e" "usable e" "fst (ProcedureInfo pl db p) < seen e"
  shows "Describe d db p pl = Ok (pl(proc_key db p \<mapsto>
     \<lparr>timestamp = seen e, packageName = de_package e, arguments = row_arguments (de_rows e)\<rparr>))"
proof -
  let ?i = "ProcedureInfo pl db p"
  obtain so where "exec_short d p (fst (snd ?i)) (fst ?i) = Ok so" "so_updated so = 1"
    "so_time so = seen e" "so_package so = de_package e"
    "exec_long d (so_object so) (so_name so) = Ok (de_rows e)"
    using changed [OF assms] by blast
  then show ?thesis by (simp add: Describe_def vars Let_def)
qed

lemma Describe_unchanged:
  assumes "now p = Some e" "usable e" "seen e \<le> fst (ProcedureInfo pl db p)"
  shows "Describe d db p pl = Ok pl"
proof -
  let ?i = "ProcedureInfo pl db p"
  obtain so where "exec_short d p (fst (snd ?i)) (fst ?i) = Ok so" "so_updated so \<noteq> 1"
    using unchanged [OF assms] by blast
  then show ?thesis by (simp add: Describe_def vars Let_def)
qed

lemma Describe_coherent:
  assumes "coherent now db pl" "now p = Some e" "usable e" "0 < seen e" "de_ddl e \<le> seen e"
  shows "\<exists>pl' i. Describe d db p pl = Ok pl' \<and> pl' (proc_key db p) = Some i \<and>
     packageName i = de_package e \<and> arguments i = row_arguments (de_rows e) \<and> coherent now db pl'"
proof (cases "fst (ProcedureInfo pl db p) < seen e")
  case True
  have "coherent now db (pl(proc_key db p \<mapsto>
     \<lparr>timestamp = seen e, packageName = de_package e, arguments = row_arguments (de_rows e)\<rparr>))"
    unfolding coherent_def
  proof (intro allI impI)
    fix q f i
    assume q: "now q = Some f" "(pl(proc_key db p \<mapsto> \<lparr>timestamp = seen e,
        packageName = de_package e, arguments = row_arguments (de_rows e)\<rparr>)) (proc_key db q) = Some i"
      "de_ddl f \<le> timestamp i"
    show "packageName i = de_package f \<and> arguments i = row_arguments (de_rows f)"
    proof (cases "proc_key db q = proc_key db p")
      case True
      with same_name [OF True] q assms(2) show ?thesis by auto
    next
      case False
      with q assms(1) show ?thesis unfolding coherent_def by (metis fun_upd_other)
    qed
  qed
  with Describe_changed [OF assms(2,3) True] show ?thesis by simp
next
  case False
  with assms(4) obtain i where i: "pl (proc_key db p) = Some i" "seen e \<le> timestamp i"
    by (auto simp: ProcedureInfo_def split: option.splits)
  then have "de_ddl e \<le> timestamp i" using assms(5) by simp
  with i assms(1,2) have "packageName i = de_package e" "arguments i = row_arguments (de_rows e)"
    unfolding coherent_def by blast+
  with i Describe_unchanged [OF assms(2,3)] False assms(1) show ?thesis by simp
qed

end

text \<open>The dictionary is such a source, when its procedure names are case-blind and object number
  and name determine the arguments.\<close>

definition dict_names :: "string \<Rightarrow> (string \<rightharpoonup> dict_entry) \<Rightarrow> bool" where
  "dict_names db dict = (\<forall>p q. proc_key db p = proc_key db q \<longrightarrow> dict p = dict q)"

definition dict_ok :: "(string \<rightharpoonup> dict_entry) \<Rightarrow> (int \<Rightarrow> string \<Rightarrow> arg_row list) \<Rightarrow> bool" where
  "dict_ok dict args = (\<forall>p e. dict p = Some e \<longrightarrow> args (de_object e) (de_name e) = de_rows e)"

text \<open>Every dictionary is of this form: object headers found under the key of a name, the rows
  of an object found by its number and name.\<close>

definition dictionary :: "string \<Rightarrow> (string \<rightharpoonup> dict_entry) \<Rightarrow> (int \<Rightarrow> string \<Rightarrow> arg_row list)
    \<Rightarrow> string \<rightharpoonup> dict_entry" where
  "dictionary db headers args p =
     map_option (\<lambda>e. e\<lparr>de_rows := args (de_object e) (de_name e)\<rparr>) (headers (proc_key db p))"

definition usable :: "dict_env \<Rightarrow> dict_entry \<Rightarrow> bool" where
  "usable env e = (compile_error env e = None)"

lemma dictionary_source:
  assumes "dict_names db dict" "dict_ok dict args"
  shows "description_source (dictionary_db env dict args) dict db (usable env) (seen_ddl env)"
proof
  show "proc_key db p = proc_key db q \<Longrightarrow> dict p = dict q" for p q
    using assms(1) unfolding dict_names_def by blast
  show "dict p = Some e \<Longrightarrow> \<not> usable env e \<Longrightarrow>
      \<exists>err. exec_short (dictionary_db env dict args) p pkg ts = Err err" for p e pkg ts
    by (auto simp: dictionary_db_def stm_descr_short_def usable_def)
  show "dict p = Some e \<Longrightarrow> usable env e \<Longrightarrow> ts < seen_ddl env e \<Longrightarrow>
      \<exists>so. exec_short (dictionary_db env dict args) p pkg ts = Ok so \<and> so_updated so = 1 \<and>
           so_time so = seen_ddl env e \<and> so_package so = de_package e \<and>
           exec_long (dictionary_db env dict args) (so_object so) (so_name so) = Ok (de_rows e)"
    for p e ts pkg
    using assms(2)
    by (auto simp: dictionary_db_def stm_descr_short_def stm_descr_long_def dict_ok_def usable_def)
qed (simp_all add: dictionary_db_def stm_descr_short_def usable_def)

interpretation dict: description_source
    "dictionary_db env (dictionary db headers args) args" "dictionary db headers args" db
    "usable env" "seen_ddl env"
    for env db headers args
  by (rule dictionary_source) (auto simp: dict_names_def dict_ok_def dictionary_def)

text \<open>C35: \<open>Describe\<close> of a procedure the dictionary does not have, or of an invalid one that cannot be
  compiled, fails with the database's error and the cache is not touched; of a valid one that did not
  change since it was cached, it leaves the cache as it is, without reading the arguments; an invalid one is
  compiled and, when the cache is older than this moment, described again.\<close>

theorem Describe_cached:
  "(headers (proc_key db p) = None \<longrightarrow>
      Describe (dictionary_db env (dictionary db headers args) args) db p pl = Err object_missing) \<and>
   (\<forall>e. headers (proc_key db p) = Some e \<and> de_status e \<noteq> ''INVALID'' \<and>
        de_ddl e \<le> fst (ProcedureInfo pl db p) \<longrightarrow>
      Describe (dictionary_db env (dictionary db headers args) args) db p pl = Ok pl) \<and>
   (\<forall>e. headers (proc_key db p) = Some e \<and> de_status e = ''INVALID'' \<longrightarrow>
      (case alter_compile env (e\<lparr>de_rows := args (de_object e) (de_name e)\<rparr>) of
         Some err \<Rightarrow> Describe (dictionary_db env (dictionary db headers args) args) db p pl = Err (reraise err)
       | None \<Rightarrow> fst (ProcedureInfo pl db p) < sysdate env \<longrightarrow>
           Describe (dictionary_db env (dictionary db headers args) args) db p pl =
             Ok (pl(proc_key db p \<mapsto> \<lparr>timestamp = sysdate env, packageName = de_package e,
                   arguments = row_arguments (args (de_object e) (de_name e))\<rparr>))))"
proof -
  let ?e = "\<lambda>e. e\<lparr>de_rows := args (de_object e) (de_name e)\<rparr>"
  have missing: "headers (proc_key db p) = None \<Longrightarrow>
      Describe (dictionary_db env (dictionary db headers args) args) db p pl = Err object_missing"
    by (simp add: Describe_def dictionary_db_def stm_descr_short_def dictionary_def Let_def)
  moreover have "Describe (dictionary_db env (dictionary db headers args) args) db p pl = Ok pl"
    if "headers (proc_key db p) = Some e" "de_status e \<noteq> ''INVALID''" "de_ddl e \<le> fst (ProcedureInfo pl db p)" for e
    by (rule dict.Describe_unchanged [where e = "?e e"])
       (use that in \<open>simp_all add: dictionary_def usable_def compile_error_def seen_ddl_def\<close>)
  moreover have "Describe (dictionary_db env (dictionary db headers args) args) db p pl = Err (reraise err)"
    if "headers (proc_key db p) = Some e" "de_status e = ''INVALID''" "alter_compile env (?e e) = Some err" for e err
    using that by (simp add: Describe_def dictionary_db_def stm_descr_short_def dictionary_def Let_def compile_error_def)
  moreover have "Describe (dictionary_db env (dictionary db headers args) args) db p pl =
      Ok (pl(proc_key db p \<mapsto> \<lparr>timestamp = sysdate env, packageName = de_package e,
            arguments = row_arguments (args (de_object e) (de_name e))\<rparr>))"
    if "headers (proc_key db p) = Some e" "de_status e = ''INVALID''" "alter_compile env (?e e) = None"
      "fst (ProcedureInfo pl db p) < sysdate env" for e
    using dict.Describe_changed [of db headers args p "?e e" env pl] that
    by (simp add: dictionary_def usable_def compile_error_def seen_ddl_def)
  ultimately show ?thesis by (auto split: option.splits)
qed

definition quiet_env :: dict_env where
  "quiet_env = \<lparr>alter_compile = (\<lambda>_. None), sysdate = 200\<rparr>"

theorem Describe_cached_witness:
  "Describe (dictionary_db quiet_env (dictionary ''db'' Map.empty (\<lambda>_ _. [])) (\<lambda>_ _. [])) ''db'' ''p'' Map.empty =
     Err object_missing"
  using Describe_cached [of Map.empty "''db''" "''p''" quiet_env "\<lambda>_ _. []" Map.empty] by simp

text \<open>C11: after \<open>Describe\<close> of an existing procedure, valid or compiled on the way, the cache holds its
  current package and arguments, whatever it held before, as long as no entry is newer than the change it
  missed; and that condition is kept.  The database is any data dictionary read by the two statements, whose
  changes lie in the past.\<close>

theorem Describe_current:
  assumes "dict_names db dict" "dict_ok dict args" "coherent dict db pl"
    and "dict p = Some e" "compile_error env e = None" "0 < de_ddl e" "de_ddl e \<le> sysdate env"
  shows "\<exists>pl' i. Describe (dictionary_db env dict args) db p pl = Ok pl' \<and>
     pl' (proc_key db p) = Some i \<and> packageName i = de_package e \<and>
     arguments i = row_arguments (de_rows e) \<and> coherent dict db pl'"
  by (rule description_source.Describe_coherent [OF dictionary_source [OF assms(1,2)] assms(3,4)])
     (use assms(5-7) in \<open>simp_all add: usable_def seen_ddl_def\<close>)

definition some_entry :: dict_entry where
  "some_entry = \<lparr>de_object = 7, de_package = ''HR.PKG'', de_name = ''PAGE'', de_status = ''INVALID'',
     de_ddl = 100, de_rows = [(''N'', 2, ''NUMBER'')]\<rparr>"

theorem Describe_current_witness:
  "\<exists>pl' i. Describe (dictionary_db quiet_env (\<lambda>_. Some some_entry) (\<lambda>_ _. de_rows some_entry)) ''db'' ''page'' Map.empty = Ok pl' \<and>
     pl' (proc_key ''db'' ''page'') = Some i \<and> arguments i = row_arguments [(''N'', 2, ''NUMBER'')]"
proof -
  have "\<exists>pl' i. Describe (dictionary_db quiet_env (\<lambda>_. Some some_entry) (\<lambda>_ _. de_rows some_entry)) ''db'' ''page'' Map.empty = Ok pl' \<and>
     pl' (proc_key ''db'' ''page'') = Some i \<and> packageName i = de_package some_entry \<and>
     arguments i = row_arguments (de_rows some_entry) \<and> coherent (\<lambda>_. Some some_entry) ''db'' pl'"
    by (rule Describe_current)
       (simp_all add: dict_names_def dict_ok_def coherent_def some_entry_def compile_error_def quiet_env_def)
  then show ?thesis by (auto simp: some_entry_def)
qed

text \<open>A change of the dictionary keeps the cache coherent when it is newer than what is cached.\<close>

lemma coherent_change:
  assumes "coherent dict db pl"
    and "\<And>p e i. dict' p = Some e \<Longrightarrow> dict' p \<noteq> dict p \<Longrightarrow> pl (proc_key db p) = Some i \<Longrightarrow>
       timestamp i < de_ddl e"
  shows "coherent dict' db pl"
  unfolding coherent_def
proof (intro allI impI)
  fix p e i
  assume p: "dict' p = Some e" "pl (proc_key db p) = Some i" "de_ddl e \<le> timestamp i"
  with assms(2) have "dict' p = dict p" by force
  with p assms(1) show "packageName i = de_package e \<and> arguments i = row_arguments (de_rows e)"
    unfolding coherent_def by metis
qed

text \<open>Later rows win: the argument found under a name is that of its last row.\<close>

lemma row_arguments_last:
  "row_arguments (rows @ [(n, ty, tn)]) n = Some \<lparr>dataType = ty, dataTypeName = tn\<rparr>"
  by (simp add: row_arguments_def)

text \<open>An argument's type is found under its name in any case, and an unknown procedure or
  argument gives type 0 with an error, which the caller reads as a parameter to be saved only.\<close>

lemma ArgumentInfo_reads:
  "ArgumentInfo pl db p a =
     (case pl (proc_key db p) of
        None \<Rightarrow> (0, [], Some (no_procedure p))
      | Some i \<Rightarrow>
          (case arguments i (to_upper a) of
             None \<Rightarrow> (0, [], Some (no_argument a p))
           | Some x \<Rightarrow> (dataType x, dataTypeName x, None))) \<and>
   fst (ArgumentInfo pl db p (to_upper a)) = fst (ArgumentInfo pl db p a)"
  by (auto simp: ArgumentInfo_def split: option.splits)

end
