(* ===== verification/Tasker.thy ===== *)
theory Tasker
  imports Sql_Params Describe
begin

text \<open>
  The tasker of \<open>otasker/oratasker.go\<close>: one database session of one user.  This theory has its
  state, its log of steps, connecting and disconnecting, \<open>Break\<close>, \<open>CloseAndFree\<close> and the
  error dump; \<open>Tasker_Run\<close> has the request itself.  The database driver is the parameter
  \<open>drv\<close>, a record of functions on a state \<open>'d\<close> that is passed along; connection 0 is the
  tasker's, connection 1 the one \<open>killSession\<close> opens.  A Go method is a function from the state
  to a result and a new state; a panic ends the process.
\<close>

section \<open>Driver and state\<close>

record lob =
  lob_size :: "int res"
  lob_data :: "bytes res"

text \<open>A value read from a variable or row: SQL null, or a value of a Go type.\<close>

datatype out_val = O_Nil | O_Int int | O_Str string | O_Lob "lob option"

record 'd driver =
  drv_now :: "'d \<Rightarrow> time"
  drv_connect :: "nat \<Rightarrow> string \<Rightarrow> string \<Rightarrow> string \<Rightarrow> 'd \<Rightarrow> go_error option \<times> 'd"
  drv_connected :: "nat \<Rightarrow> 'd \<Rightarrow> bool"
  drv_close :: "nat \<Rightarrow> 'd \<Rightarrow> go_error option \<times> 'd"
  drv_free :: "nat \<Rightarrow> 'd \<Rightarrow> 'd"
  drv_new_var :: "nat \<Rightarrow> 'd \<Rightarrow> new_var"
  drv_exec :: "nat \<Rightarrow> string \<Rightarrow> (string \<rightharpoonup> bind) \<Rightarrow> 'd \<Rightarrow> go_error option \<times> 'd"
  drv_fetch :: "nat \<Rightarrow> 'd \<Rightarrow> out_val list res"
  drv_value :: "nat \<Rightarrow> string \<Rightarrow> 'd \<Rightarrow> out_val res"
  drv_describe :: "'d \<Rightarrow> describe_db"

record oracleTaskerStep =
  stepID :: nat
  stepName :: string
  stepBg :: time
  stepFn :: time
  stepStm :: string
  stepStmForShowning :: string
  stepSuccess :: bool

definition stepConnectNum :: nat where "stepConnectNum = 0"
definition stepEvalSid :: nat where "stepEvalSid = 1"
definition stepDescribeNum :: nat where "stepDescribeNum = 2"
definition stepSaveFileToDBNum :: nat where "stepSaveFileToDBNum = 3"
definition stepRunNum :: nat where "stepRunNum = 4"
definition stepChunkGetNum :: nat where "stepChunkGetNum = 5"
definition stepDisconnectNum :: nat where "stepDisconnectNum = 6"

lemmas step_num_defs = stepConnectNum_def stepEvalSid_def stepDescribeNum_def
  stepSaveFileToDBNum_def stepRunNum_def stepChunkGetNum_def stepDisconnectNum_def

text \<open>The tasker's fields, then the driver's state, the result a running request fills in
  (\<open>res\<close> of \<open>Run\<close>), the shared description cache and the files written.\<close>

record 'd oracleTasker =
  conn :: bool
  connUserName :: string
  connUserPass :: string
  connStr :: string
  sessID :: string
  logRequestProceeded :: int
  logErrorsNum :: int
  logSessionID :: string
  logTaskID :: string
  logUserName :: string
  logUserPass :: string
  logConnStr :: string
  logProcName :: string
  logSteps :: "nat \<rightharpoonup> oracleTaskerStep"
  stateIsWorking :: bool
  stateCreateDT :: time
  stateLastFinishDT :: time
  stmEvalSessionID :: string
  stmMain :: string
  stmGetRestChunk :: string
  stmKillSession :: string
  stmFileUpload :: string
  db :: 'd
  out_res :: OracleTaskResult
  plist_cache :: plist
  dumps :: "(string \<times> bytes) list"

definition newTasker :: "time \<Rightarrow> string \<Rightarrow> string \<Rightarrow> string \<Rightarrow> string \<Rightarrow> string \<Rightarrow> 'd \<Rightarrow> plist
    \<Rightarrow> 'd oracleTasker" where
  "newTasker now evalSID mainStm rest kill upload d pl =
     \<lparr>conn = False, connUserName = [], connUserPass = [], connStr = [], sessID = [],
      logRequestProceeded = 0, logErrorsNum = 0, logSessionID = [], logTaskID = [],
      logUserName = [], logUserPass = [], logConnStr = [], logProcName = [],
      logSteps = Map.empty, stateIsWorking = False, stateCreateDT = now, stateLastFinishDT = 0,
      stmEvalSessionID = evalSID, stmMain = mainStm, stmGetRestChunk = rest,
      stmKillSession = kill, stmFileUpload = upload, db = d, out_res = empty_result,
      plist_cache = pl, dumps = []\<rparr>"

section \<open>Methods\<close>

type_synonym ('d, 'a) meth = "'d oracleTasker \<Rightarrow> 'a res \<times> 'd oracleTasker"

definition ret :: "'a \<Rightarrow> ('d, 'a) meth" where
  "ret x r = (Ok x, r)"

definition fail :: "go_error \<Rightarrow> ('d, 'a) meth" where
  "fail e r = (Err e, r)"

definition lift :: "'a res \<Rightarrow> ('d, 'a) meth" where
  "lift x r = (x, r)"

definition andThen :: "('d, 'a) meth \<Rightarrow> ('a \<Rightarrow> ('d, 'b) meth) \<Rightarrow> ('d, 'b) meth" where
  "andThen m f r =
     (case m r of
        (Ok x, r') \<Rightarrow> f x r'
      | (Err e, r') \<Rightarrow> (Err e, r')
      | (Panic, r') \<Rightarrow> (Panic, r')
      | (Running, r') \<Rightarrow> (Running, r'))"

definition update :: "('d oracleTasker \<Rightarrow> 'd oracleTasker) \<Rightarrow> ('d, unit) meth" where
  "update f r = (Ok (), f r)"

definition query :: "('d oracleTasker \<Rightarrow> 'a) \<Rightarrow> ('d, 'a) meth" where
  "query f r = (Ok (f r), r)"

text \<open>\<open>defer\<close>: the second method runs when the first is done, whatever its result; a panic
  of it replaces the result.\<close>

definition deferred :: "('d, 'a) meth \<Rightarrow> ('d, unit) meth \<Rightarrow> ('d, 'a) meth" where
  "deferred m fin r =
     (let (x, r') = m r; (y, r'') = fin r'
      in (case y of Ok _ \<Rightarrow> x | Err _ \<Rightarrow> x | Panic \<Rightarrow> Panic | Running \<Rightarrow> Running, r''))"

definition of_error :: "go_error option \<Rightarrow> unit res" where
  "of_error e = (case e of None \<Rightarrow> Ok () | Some e \<Rightarrow> Err e)"

text \<open>A driver call that may fail and moves the driver's state.\<close>

definition call_driver :: "('d \<Rightarrow> go_error option \<times> 'd) \<Rightarrow> ('d, unit) meth" where
  "call_driver f r = (let (e, d) = f (db r) in (of_error e, r\<lparr>db := d\<rparr>))"

lemmas meth_defs = ret_def fail_def lift_def andThen_def update_def query_def deferred_def
  of_error_def call_driver_def

section \<open>The log of steps\<close>

definition openStep :: "'d driver \<Rightarrow> nat \<Rightarrow> string \<Rightarrow> ('d, unit) meth" where
  "openStep drv stepNum stepType = update (\<lambda>r. r\<lparr>logSteps := (logSteps r)(stepNum \<mapsto>
     \<lparr>stepID = stepNum, stepName = pad0 3 (int stepNum) @ '' - '' @ stepType,
      stepBg = drv_now drv (db r), stepFn = 0, stepStm = [], stepStmForShowning = [],
      stepSuccess = False\<rparr>)\<rparr>)"

text \<open>A step that is not in the log is a nil pointer.\<close>

definition closeStep :: "'d driver \<Rightarrow> nat \<Rightarrow> ('d, unit) meth" where
  "closeStep drv stepNum r =
     (case logSteps r stepNum of
        None \<Rightarrow> (Panic, r)
      | Some st \<Rightarrow> (Ok (), r\<lparr>logSteps := (logSteps r)(stepNum \<mapsto> st\<lparr>stepFn := drv_now drv (db r)\<rparr>)\<rparr>))"

definition setStepInfo :: "nat \<Rightarrow> string \<Rightarrow> string \<Rightarrow> bool \<Rightarrow> ('d, unit) meth" where
  "setStepInfo stepNum stm shown success r =
     (case logSteps r stepNum of
        None \<Rightarrow> (Panic, r)
      | Some st \<Rightarrow> (Ok (), r\<lparr>logSteps := (logSteps r)(stepNum \<mapsto>
          st\<lparr>stepStm := stm, stepStmForShowning := shown, stepSuccess := success\<rparr>)\<rparr>))"

definition initLog :: "'d oracleTasker \<Rightarrow> 'd oracleTasker" where
  "initLog r = r\<lparr>logSessionID := [], logTaskID := [], logUserName := [], logUserPass := [],
     logConnStr := [], logProcName := [], logSteps := Map.empty\<rparr>"

text \<open>The step numbers are 0 to 6: the largest one in the log.\<close>

definition lastStep :: "(nat \<rightharpoonup> oracleTaskerStep) \<Rightarrow> nat option" where
  "lastStep steps =
     (case filter (\<lambda>k. steps k \<noteq> None) (rev [0 ..< Suc stepDisconnectNum]) of
        [] \<Rightarrow> None | k # _ \<Rightarrow> Some k)"

definition lastStms :: "'d oracleTasker \<Rightarrow> string \<times> string" where
  "lastStms r =
     (case lastStep (logSteps r) of
        None \<Rightarrow> ([], [])
      | Some k \<Rightarrow>
          (case logSteps r k of
             None \<Rightarrow> ([], [])
           | Some st \<Rightarrow> (stepStm st, stepStmForShowning st)))"

section \<open>Connection\<close>

definition disconnect :: "'d driver \<Rightarrow> ('d, unit) meth" where
  "disconnect drv r =
     (if conn r then
        andThen
          (if drv_connected drv 0 (db r) then
             andThen (openStep drv stepDisconnectNum ''disconnect'') (\<lambda>_.
             andThen (setStepInfo stepDisconnectNum ''disconnect'' ''disconnect'' False) (\<lambda>_.
             andThen (update (\<lambda>r. r\<lparr>db := snd (drv_close drv 0 (db r))\<rparr>)) (\<lambda>_.
             andThen (setStepInfo stepDisconnectNum ''disconnect'' ''disconnect'' True) (\<lambda>_.
             closeStep drv stepDisconnectNum))))
           else update (\<lambda>r. r\<lparr>db := drv_free drv 0 (db r)\<rparr>))
          (\<lambda>_. update (\<lambda>r. r\<lparr>conn := False, connUserName := [], connUserPass := [], connStr := [],
             sessID := []\<rparr>)) r
      else (Ok (), r))"

definition as_str :: "out_val \<Rightarrow> string res" where
  "as_str v = (case v of O_Str s \<Rightarrow> Ok s | _ \<Rightarrow> Panic)"

definition as_int32 :: "out_val \<Rightarrow> int res" where
  "as_int32 v = (case v of O_Int i \<Rightarrow> Ok i | _ \<Rightarrow> Panic)"

text \<open>\<open>row[0].(string)\<close>\<close>

definition first_string :: "out_val list \<Rightarrow> string res" where
  "first_string row = (case row of v # _ \<Rightarrow> as_str v | [] \<Rightarrow> Panic)"

definition evalSessionID :: "'d driver \<Rightarrow> ('d, unit) meth" where
  "evalSessionID drv =
     andThen (openStep drv stepEvalSid ''evalSessionID'') (\<lambda>_.
     deferred
       (andThen (update (\<lambda>r. r\<lparr>sessID := []\<rparr>)) (\<lambda>_.
        andThen (query stmEvalSessionID) (\<lambda>stm.
        andThen (setStepInfo stepEvalSid stm stm False) (\<lambda>_.
        andThen (call_driver (drv_exec drv 0 stm Map.empty)) (\<lambda>_.
        andThen (\<lambda>r. (drv_fetch drv 0 (db r), r)) (\<lambda>row.
        andThen (lift (first_string row)) (\<lambda>s.
        andThen (update (\<lambda>r. r\<lparr>sessID := s\<rparr>)) (\<lambda>_.
        setStepInfo stepEvalSid stm stm True))))))))
       (closeStep drv stepEvalSid))"

definition connect :: "'d driver \<Rightarrow> string \<Rightarrow> string \<Rightarrow> string \<Rightarrow> ('d, unit) meth" where
  "connect drv username userpass connstr r =
     (if \<not> conn r \<or> connUserName r \<noteq> username \<or> connUserPass r \<noteq> userpass \<or> connStr r \<noteq> connstr then
        andThen (disconnect drv) (\<lambda>_.
        andThen (openStep drv stepConnectNum ''connect'') (\<lambda>_.
        deferred
          (andThen (setStepInfo stepConnectNum ''connect'' ''connect'' False) (\<lambda>_.
           andThen (update (\<lambda>r. r\<lparr>conn := True\<rparr>)) (\<lambda>_.
           andThen (call_driver (drv_connect drv 0 username userpass connstr)) (\<lambda>_.
           andThen (update (\<lambda>r. r\<lparr>connUserName := username, connUserPass := userpass,
             connStr := connstr\<rparr>)) (\<lambda>_.
           andThen (evalSessionID drv) (\<lambda>_.
           setStepInfo stepConnectNum ''connect'' ''connect'' True))))))
          (closeStep drv stepConnectNum))) r
      else if \<not> drv_connected drv 0 (db r) then (Panic, r)
      else (Ok (), r))"

definition CloseAndFree :: "'d driver \<Rightarrow> ('d, unit) meth" where
  "CloseAndFree drv r =
     (if conn r then
        (case drv_close drv 0 (db r) of
           (Some e, d) \<Rightarrow> (Err e, r\<lparr>db := d\<rparr>)
         | (None, d) \<Rightarrow> (Ok (), initLog (r\<lparr>db := d\<rparr>)))
      else (Ok (), initLog r))"

section \<open>Interrupting a session\<close>

definition txt_user :: string where
  "txt_user = encode_runes [0x418, 0x43C, 0x44F, 0x20, 0x43F, 0x43E, 0x43B, 0x44C, 0x437, 0x43E,
    0x432, 0x430, 0x442, 0x435, 0x43B, 0x44F, 0x20, 0x3A, 0x20]"

definition txt_conn :: string where
  "txt_conn = encode_runes [0x421, 0x442, 0x440, 0x43E, 0x43A, 0x430, 0x20, 0x441, 0x43E, 0x435,
    0x434, 0x438, 0x43D, 0x435, 0x43D, 0x438, 0x44F, 0x20, 0x3A, 0x20]"

definition txt_time :: string where
  "txt_time = encode_runes [0x414, 0x430, 0x442, 0x430, 0x20, 0x438, 0x20, 0x432, 0x440, 0x435,
    0x43C, 0x44F, 0x20, 0x432, 0x43E, 0x437, 0x43D, 0x438, 0x43A, 0x43D, 0x43E, 0x432, 0x435,
    0x43D, 0x438, 0x44F, 0x20, 0x3A, 0x20]"

definition txt_sql :: string where
  "txt_sql = encode_runes [0x422, 0x435, 0x43A, 0x441, 0x442, 0x20, 0x53, 0x51, 0x4C]"

definition txt_done :: string where
  "txt_done = encode_runes [0x437, 0x430, 0x43A, 0x43E, 0x43D, 0x447, 0x435, 0x43D]"

definition txt_error :: string where
  "txt_error = encode_runes [0x422, 0x435, 0x43A, 0x441, 0x442, 0x20, 0x43E, 0x448, 0x438,
    0x431, 0x43A, 0x438]"

definition txt_params :: string where
  "txt_params = encode_runes [0x441, 0x20, 0x43F, 0x430, 0x440, 0x430, 0x43C, 0x435, 0x442,
    0x440, 0x430, 0x43C, 0x438]"

definition txt_no_session :: string where
  "txt_no_session = encode_runes [0x41E, 0x442, 0x441, 0x443, 0x442, 0x441, 0x442, 0x432, 0x443,
    0x435, 0x442, 0x20, 0x438, 0x43D, 0x444, 0x43E, 0x440, 0x43C, 0x430, 0x446, 0x438, 0x44F,
    0x20, 0x43E, 0x20, 0x441, 0x435, 0x441, 0x441, 0x438, 0x438]"

text \<open>Making variables one after another: the key in the bind map, the name and type for the
  error text, the variable.\<close>

type_synonym var_req = "string \<times> string \<times> string \<times> bind"

fun make_vars :: "new_var \<Rightarrow> var_req list \<Rightarrow> (string \<rightharpoonup> bind) \<Rightarrow> (string \<rightharpoonup> bind) res" where
  "make_vars nv [] ps = Ok ps"
| "make_vars nv ((key, name, ty, b) # vs) ps =
     (case nv (b_spec b) of
        Some e \<Rightarrow> Err (errV name ty e)
      | None \<Rightarrow> make_vars nv vs (ps(key \<mapsto> b)))"

definition out_var :: "vtype \<Rightarrow> nat \<Rightarrow> bind" where
  "out_var ty n = \<lparr>b_spec = NewVariable 0 ty n, b_set = []\<rparr>"

definition killSession :: "'d driver \<Rightarrow> string \<Rightarrow> string \<Rightarrow> string \<Rightarrow> string \<Rightarrow> string \<Rightarrow> ('d, unit) meth" where
  "killSession drv stm username password sid sessionID =
     andThen (call_driver (drv_connect drv 1 username password sid)) (\<lambda>_.
     deferred
       (andThen (\<lambda>r. (make_vars (drv_new_var drv 1 (db r))
           [(''sess_id'', ''sessId'', ''string'', \<lparr>b_spec = NewVariable 0 StringVarType 40, b_set = [(0, sessionID)]\<rparr>),
            (''out_err_msg'', ''retMsg'', ''string'', out_var StringVarType 32767),
            (''ret'', ''retVar'', ''string'', out_var Int32VarType 0)] Map.empty, r)) (\<lambda>ps.
        andThen (call_driver (drv_exec drv 1 stm ps)) (\<lambda>_.
        andThen (\<lambda>r. (drv_value drv 1 ''ret'' (db r), r)) (\<lambda>rv.
        andThen (lift (as_int32 rv)) (\<lambda>i.
        if i \<noteq> 1 then
          andThen (\<lambda>r. (drv_value drv 1 ''out_err_msg'' (db r), r)) (\<lambda>mv.
          andThen (lift (as_str mv)) (\<lambda>m. fail (errgo_Newf m)))
        else ret ())))))
       (update (\<lambda>r. r\<lparr>db := snd (drv_close drv 1 (db r))\<rparr>)))"

definition Break :: "'d driver \<Rightarrow> ('d, unit) meth" where
  "Break drv r =
     (if \<not> stateIsWorking r then (Ok (), r)
      else if \<not> conn r then (Ok (), r)
      else if \<not> drv_connected drv 0 (db r) then (Ok (), r)
      else if sessID r = [] then (Err (errgo_Newf txt_no_session), r)
      else killSession drv (stmKillSession r) (connUserName r) (connUserPass r) (connStr r) (sessID r) r)"

section \<open>The error dump\<close>

definition CRLF :: string where
  "CRLF = [CR, LF]"

definition crlf_lines :: "string \<Rightarrow> string" where
  "crlf_lines s = replace_all [LF] CRLF s"

text \<open>The layout of the dump; the time is already formatted.\<close>

definition dump_text :: "string \<Rightarrow> string \<Rightarrow> string \<Rightarrow> string \<Rightarrow> string \<Rightarrow> string \<Rightarrow> string \<Rightarrow> bytes" where
  "dump_text userName connstr time_text referer stm shown err =
     [chr_of 0xEF, chr_of 0xBB, chr_of 0xBF] @
     txt_user @ userName @ CRLF @
     txt_conn @ connstr @ CRLF @
     txt_time @ time_text @ CRLF @
     ''Referer : '' @ referer @ CRLF @
     ''******* '' @ txt_sql @ ''  ********************************'' @ CRLF @
     crlf_lines stm @ CRLF @
     ''******* '' @ txt_sql @ '' '' @ txt_done @ '' ************************'' @ CRLF @
     CRLF @
     ''******* '' @ txt_error @ ''  *****************************'' @ CRLF @
     crlf_lines err @ CRLF @
     ''******* '' @ txt_error @ '' '' @ txt_done @ '' *********************'' @ CRLF @
     CRLF @
     ''******* '' @ txt_sql @ '' '' @ txt_params @ '' *******************'' @ CRLF @
     crlf_lines shown @ CRLF @
     ''******* '' @ txt_sql @ '' '' @ txt_params @ '' '' @ txt_done @ '' **********'' @ CRLF"

definition dumpError :: "'d driver \<Rightarrow> (time \<Rightarrow> string) \<Rightarrow> string \<Rightarrow> string \<Rightarrow> string \<Rightarrow> string \<Rightarrow> go_error
    \<Rightarrow> ('d, unit) meth" where
  "dumpError drv rfc1123z userName connstr fileName referer err =
     update (\<lambda>r. r\<lparr>dumps := dumps r @ [(fileName,
       dump_text userName connstr (rfc1123z (drv_now drv (db r))) referer
         (fst (lastStms r)) (snd (lastStms r)) (error_text err))]\<rparr>)"

end
