(* ===== verification/Tasker_Run.thy ===== *)
theory Tasker_Run
  imports Tasker "HOL-Library.AList" "HOL-Library.Char_ord" "HOL-Library.List_Lexorder"
begin

text \<open>
  The request of \<open>otasker/oratasker.go\<close>: \<open>Run\<close>, \<open>run\<close>, \<open>getRestChunks\<close>, \<open>saveFile\<close> and
  \<open>saveFileToDB\<close>.  The CGI environment is an association list; iterating over request
  parameters and files goes in the list's order.  Functions of Go's library that only look at
  contents (content sniffing, media types, file reading, time formatting) are the record \<open>env\<close>;
  it also bounds the rounds of the chunk loop.
\<close>

section \<open>Surroundings\<close>

record env =
  rfc1123z :: "time \<Rightarrow> string"
  detectContentType :: "bytes \<Rightarrow> string"
  parseMediaType :: "string \<Rightarrow> (string \<times> (string \<times> string) list) option"
  formatMediaType :: "string \<Rightarrow> (string \<times> string) list \<Rightarrow> string"
  readFile :: "string \<Rightarrow> bytes res"
  chunk_fuel :: nat

definition fixContentType :: "env \<Rightarrow> string \<Rightarrow> string \<times> string \<times> bool" where
  "fixContentType E contentType =
     (case parseMediaType E contentType of
        None \<Rightarrow> (contentType, [], False)
      | Some (mt, prms) \<Rightarrow>
          if has_prefix mt ''text'' \<or> has_prefix mt ''application/json'' \<or>
             has_prefix mt ''application/x-sql'' \<or> has_prefix mt ''application/javascript''
          then (formatMediaType E mt (AList.update ''charset'' ''utf-8'' prms),
                (case map_of prms ''charset'' of None \<Rightarrow> [] | Some c \<Rightarrow> c), True)
          else (contentType, [], False))"

definition value_of :: "'d driver \<Rightarrow> string \<Rightarrow> ('d, out_val) meth" where
  "value_of drv k r = (drv_value drv 0 k (db r), r)"

definition set_res :: "(OracleTaskResult \<Rightarrow> OracleTaskResult) \<Rightarrow> ('d, unit) meth" where
  "set_res f = update (\<lambda>r. r\<lparr>out_res := f (out_res r)\<rparr>)"

text \<open>The error a block reports through its three error variables.\<close>

definition check_sqlerr :: "'d driver \<Rightarrow> ('d, unit) meth" where
  "check_sqlerr drv =
     andThen (value_of drv ''sqlerrcode'') (\<lambda>cv.
     andThen (lift (as_int32 cv)) (\<lambda>c.
     if c \<noteq> 0 then
       andThen (value_of drv ''sqlerrm'') (\<lambda>mv.
       andThen (value_of drv ''sqlerrtrace'') (\<lambda>tv.
       andThen (lift (as_str mv)) (\<lambda>m.
       andThen (lift (as_str tv)) (\<lambda>t. fail (NewErrorAt c m t)))))
     else ret ()))"

definition error_vars :: "var_req list" where
  "error_vars =
     [(''sqlerrcode'', ''sqlErrCode'', ''string'', out_var Int32VarType 0),
      (''sqlerrm'', ''sqlErrM'', ''string'', out_var StringVarType 32767),
      (''sqlerrtrace'', ''sqlErrTrace'', ''string'', out_var StringVarType 32767)]"

definition make_binds :: "'d driver \<Rightarrow> var_req list \<Rightarrow> (string \<rightharpoonup> bind) \<Rightarrow> ('d, string \<rightharpoonup> bind) meth" where
  "make_binds drv reqs ps r = (make_vars (drv_new_var drv 0 (db r)) reqs ps, r)"

section \<open>The rest of a page\<close>

text \<open>The loop of \<open>getRestChunks\<close>.  \<open>bNextChunkExists\<close> is a Go variable the driver writes
  to after the statement, zero for a null; when it writes nothing the variable keeps its value, which is
  not zero.\<close>

definition next_exists :: "'d driver \<Rightarrow> 'd \<Rightarrow> bool" where
  "next_exists drv d =
     (case drv_value drv 0 ''bNextChunkExists'' d of Ok (O_Int i) \<Rightarrow> i \<noteq> 0 | Ok O_Nil \<Rightarrow> False | _ \<Rightarrow> True)"

fun chunk_loop :: "'d driver \<Rightarrow> string \<Rightarrow> (string \<rightharpoonup> bind) \<Rightarrow> nat \<Rightarrow> ('d, unit) meth" where
  "chunk_loop drv stm ps 0 = lift Running"
| "chunk_loop drv stm ps (Suc n) =
     andThen (call_driver (drv_exec drv 0 stm ps)) (\<lambda>_.
     andThen (check_sqlerr drv) (\<lambda>_.
     andThen (value_of drv ''Data'') (\<lambda>dv.
     andThen (lift (as_str dv)) (\<lambda>d.
     andThen (set_res (\<lambda>res. res\<lparr>Content := Content res @ addCR d\<rparr>)) (\<lambda>_.
     andThen (query (\<lambda>r. next_exists drv (db r))) (\<lambda>more.
     if more then chunk_loop drv stm ps n else ret ()))))))"

definition getRestChunks :: "env \<Rightarrow> 'd driver \<Rightarrow> ('d, unit) meth" where
  "getRestChunks E drv =
     andThen (openStep drv stepChunkGetNum ''getRestChunks'') (\<lambda>_.
     deferred
       (andThen (make_binds drv
          ([(''Data'', ''Data'', ''string'', out_var StringVarType 32767),
            (''bNextChunkExists'', ''%!s(int32=0)'', ''int32'', \<lparr>b_spec = NewVarInt 0, b_set = []\<rparr>)] @
           error_vars) Map.empty) (\<lambda>ps.
        andThen (query stmGetRestChunk) (\<lambda>stm.
        andThen (setStepInfo stepChunkGetNum stm stm True) (\<lambda>_.
        andThen (chunk_loop drv stm ps (chunk_fuel E)) (\<lambda>_.
        setStepInfo stepChunkGetNum stm stm True)))))
       (closeStep drv stepChunkGetNum))"

section \<open>Uploaded files\<close>

type_synonym cgi_env = "(string \<times> string) list"

definition cgi_get :: "cgi_env \<Rightarrow> string \<Rightarrow> string" where
  "cgi_get cgi k = (case map_of cgi k of None \<Rightarrow> [] | Some v \<Rightarrow> v)"

definition cgi_binds :: "cgi_env \<Rightarrow> string list \<Rightarrow> var_req list" where
  "cgi_binds cgi keys =
     (let n = length cgi in
      [(''num_params'', ''%!s(int32='' @ itoa (int n) @ '')'', ''int32'',
          \<lparr>b_spec = NewVarInt (int n), b_set = []\<rparr>),
       (''param_name'', ''paramName'', ''string'',
          \<lparr>b_spec = NewVariable n StringVarType (max_len (map fst cgi)),
           b_set = zip [0 ..< length keys] keys\<rparr>),
       (''param_val'', ''paramVal'', ''string'',
          \<lparr>b_spec = NewVariable n StringVarType (max_len (map snd cgi)),
           b_set = zip [0 ..< length keys] (map (cgi_get cgi) keys)\<rparr>)])"

definition string_var :: "string \<Rightarrow> string \<Rightarrow> var_req" where
  "string_var key v = (key, v, ''string'', \<lparr>b_spec = NewVar v, b_set = []\<rparr>)"

text \<open>The statement of a file upload and its variables; the content goes into \<open>lob\<close>.\<close>

definition upload_vars :: "cgi_env \<Rightarrow> multimap \<Rightarrow> string \<Rightarrow> string \<Rightarrow> string \<Rightarrow> string \<Rightarrow> bytes \<Rightarrow> var_req list"
where
  "upload_vars cgi urlParams fName fItem fMime fContentType fContent =
     cgi_binds cgi (map fst cgi) @
     [string_var ''name'' fName, string_var ''mime_type'' fMime, string_var ''content_type'' fContentType,
      (''doc_size'', ''%!s(int='' @ itoa (int (length fContent)) @ '')'', ''int'',
         \<lparr>b_spec = NewVarInt (int (length fContent)), b_set = []\<rparr>),
      (''lob'', ''lob'', ''lob'', \<lparr>b_spec = NewVariable 0 BlobVarType (length fContent), b_set = [(0, fContent)]\<rparr>),
      string_var ''item_id'' fItem,
      string_var ''application_id'' (vals_get urlParams ''p_flow_id''),
      string_var ''page_id'' (vals_get urlParams ''p_flow_step_id''),
      string_var ''session_id'' (vals_get urlParams ''p_instance''),
      string_var ''request'' (vals_get urlParams ''p_request''),
      string_var ''ret_name'' []] @ error_vars"

text \<open>When the returned name cannot be read the code returns the earlier, empty error.\<close>

definition saveFileToDB :: "'d driver \<Rightarrow> string \<Rightarrow> string \<Rightarrow> cgi_env \<Rightarrow> multimap \<Rightarrow> string \<Rightarrow> string
    \<Rightarrow> string \<Rightarrow> string \<Rightarrow> bytes \<Rightarrow> ('d, string) meth" where
  "saveFileToDB drv beforeScript documentTable cgi urlParams fName fItem fMime fContentType fContent =
     andThen (openStep drv stepSaveFileToDBNum ''saveFileToDB'') (\<lambda>_.
     deferred
       (andThen (make_binds drv
           (upload_vars cgi urlParams fName fItem fMime fContentType fContent) Map.empty) (\<lambda>ps.
        andThen (query stmFileUpload) (\<lambda>fmt.
        let stm = sprintf fmt [beforeScript, documentTable] in
        andThen (setStepInfo stepSaveFileToDBNum stm stm False) (\<lambda>_.
        andThen (call_driver (drv_exec drv 0 stm ps)) (\<lambda>_.
        andThen (check_sqlerr drv) (\<lambda>_.
        andThen (query (\<lambda>r. drv_value drv 0 ''ret_name'' (db r))) (\<lambda>rv.
        (case rv of
           Ok v \<Rightarrow>
             andThen (setStepInfo stepSaveFileToDBNum stm stm True) (\<lambda>_.
             (case v of O_Nil \<Rightarrow> ret [] | _ \<Rightarrow> lift (as_str v)))
         | Err e \<Rightarrow> ret []
         | Panic \<Rightarrow> lift Panic
         | Running \<Rightarrow> lift Running))))))))
       (closeStep drv stepSaveFileToDBNum))"

definition file_bytes :: "env \<Rightarrow> FileHeader \<Rightarrow> bytes res" where
  "file_bytes E fh = (case content fh of Some b \<Rightarrow> Ok b | None \<Rightarrow> readFile E (tmpfile fh))"

fun saveFile :: "env \<Rightarrow> 'd driver \<Rightarrow> string \<Rightarrow> string \<Rightarrow> cgi_env \<Rightarrow> multimap \<Rightarrow> FileHeader list
    \<Rightarrow> ('d, string list) meth" where
  "saveFile E drv beforeScript documentTable cgi urlParams [] = ret []"
| "saveFile E drv beforeScript documentTable cgi urlParams (fh # fhs) =
     andThen
       (case Header fh of
          None \<Rightarrow> ret (Filename fh)
        | Some h \<Rightarrow>
            andThen (lift (file_bytes E fh)) (\<lambda>b.
            saveFileToDB drv beforeScript documentTable cgi urlParams
              (ExtractFileName (header_get h ''Content-Disposition'')) (LastArg fh)
              (header_get h ''Content-Type'') (header_get h ''Content-Type'') b))
       (\<lambda>n. andThen (saveFile E drv beforeScript documentTable cgi urlParams fhs) (\<lambda>ns. ret (n # ns)))"

section \<open>The block of a request\<close>

definition initParams :: string where
  "initParams = concat (map (\<lambda>l. l @ [LF])
     [[], ''  l_num_params := :num_params;'', ''  l_param_name := :param_name;'',
      ''  l_param_val := :param_val;'', ''  l_num_ext_params := :num_ext_params;'',
      ''  l_ext_param_name := :ext_param_name;'', ''  l_ext_param_val := :ext_param_val;'',
      ''  l_package_name := :package_name;''])"

definition show_cgi :: "cgi_env \<Rightarrow> string list \<Rightarrow> string" where
  "show_cgi cgi keys =
     ''  l_num_params := '' @ itoa (int (length cgi)) @ '';'' @ [LF] @
     concat (map (\<lambda>i.
       ''  l_param_name('' @ itoa (int i + 1) @ '') := '' @ sql_quoted (keys ! i) @ '';'' @ [LF] @
       ''  l_param_val('' @ itoa (int i + 1) @ '') := '' @ sql_quoted (cgi_get cgi (keys ! i)) @ '';'' @ [LF])
       [0 ..< length keys])"

text \<open>The variables every block has, in the order they are made.\<close>

definition base_vars :: "cgi_env \<Rightarrow> string list \<Rightarrow> var_req list" where
  "base_vars cgi keys = cgi_binds cgi keys @
     [(''ContentType'', ''ContentType'', ''string'', out_var StringVarType 1024),
      (''ContentLength'', ''ContentLength'', ''string'', out_var Int32VarType 0),
      (''CustomHeaders'', ''CustomHeaders'', ''string'', out_var StringVarType 32767),
      (''rc__'', ''rc__'', ''string'', out_var Int32VarType 0),
      (''content__'', ''content__'', ''string'', out_var StringVarType 32767),
      (''bNextChunkExists'', ''bNextChunkExists'', ''string'', out_var Int32VarType 0),
      (''lob__'', ''BlobVarType'', ''string'', out_var BlobVarType 0)] @ error_vars"

text \<open>What the parameter loops carry: the buffers, the extra parameters and their lengths.\<close>

record ext =
  x_prep :: prep
  x_names :: "string list"
  x_vals :: "string list"
  x_name_len :: nat
  x_val_len :: nat

definition prepare_arg :: "'d driver \<Rightarrow> string \<Rightarrow> string \<Rightarrow> string list \<Rightarrow> string \<Rightarrow> prep \<Rightarrow> ('d, prep) meth"
where
  "prepare_arg drv procName name vals storeProc st r =
     (let (ty, tn, _) = ArgumentInfo (plist_cache r) (connStr r) procName name
      in (prepareParam (drv_new_var drv 0 (db r)) name vals ty tn storeProc st, r))"

definition first_value :: "string list \<Rightarrow> string res" where
  "first_value vs = (case vs of [] \<Rightarrow> Panic | v # _ \<Rightarrow> Ok v)"

fun run_files :: "env \<Rightarrow> 'd driver \<Rightarrow> string \<Rightarrow> string \<Rightarrow> string \<Rightarrow> string \<Rightarrow> cgi_env \<Rightarrow> multimap
    \<Rightarrow> (string \<times> FileHeader list) list \<Rightarrow> ext \<Rightarrow> ('d, ext) meth" where
  "run_files E drv procName storeProc beforeScript documentTable cgi urlParams [] x = ret x"
| "run_files E drv procName storeProc beforeScript documentTable cgi urlParams ((name, fhs) # fs) x =
     andThen (saveFile E drv beforeScript documentTable cgi urlParams fhs) (\<lambda>fileName.
     andThen (prepare_arg drv procName name fileName storeProc (x_prep x)) (\<lambda>st.
     andThen (lift (first_value fileName)) (\<lambda>v.
     run_files E drv procName storeProc beforeScript documentTable cgi urlParams fs
       (x\<lparr>x_prep := st, x_names := x_names x @ [name], x_vals := x_vals x @ [v],
          x_val_len := max (x_val_len x) (length v)\<rparr>))))"

fun run_params :: "'d driver \<Rightarrow> string \<Rightarrow> string \<Rightarrow> multimap \<Rightarrow> ext \<Rightarrow> ('d, ext) meth" where
  "run_params drv procName storeProc [] x = ret x"
| "run_params drv procName storeProc ((n, vals) # ps) x =
     (let name = trim_set n '' '' in
      if name = [] then run_params drv procName storeProc ps x
      else
        andThen (prepare_arg drv procName name vals storeProc (x_prep x)) (\<lambda>st.
        andThen (lift (first_value vals)) (\<lambda>v.
        run_params drv procName storeProc ps
          (x\<lparr>x_prep := st, x_names := x_names x @ [name], x_vals := x_vals x @ [v],
             x_name_len := max (x_name_len x) (length name),
             x_val_len := max (x_val_len x) (length v)\<rparr>))))"

text \<open>Resources of an APEX-like base: module, method and URL go to \<open>get_resource\<close>.\<close>

definition resource_params :: "'d driver \<Rightarrow> string list \<Rightarrow> cgi_env \<Rightarrow> prep \<Rightarrow> ('d, prep) meth" where
  "resource_params drv parts cgi st r =
     (let nv = drv_new_var drv 0 (db r);
          module = parts ! 0 @ ''/'' @ parts ! 1 @ ''/'';
          url = str_join (drop 2 parts) ''/''
      in (bind_res (prepareStringParam nv ''amodule'' [module] ''varchar2'' [] st) (\<lambda>st.
          bind_res (prepareStringParam nv ''amethod'' [cgi_get cgi ''REQUEST_METHOD''] ''varchar2'' [] st) (\<lambda>st.
          prepareStringParam nv ''aurl'' [url] ''varchar2'' [] st)), r))"

definition package_var :: "string \<Rightarrow> var_req" where
  "package_var pkg = (''package_name'', ''package_name'', ''string'',
     \<lparr>b_spec = NewVariable 0 StringVarType 80, b_set = [(0, pkg)]\<rparr>)"

text \<open>The extra parameters as assignments; the names are not escaped, the values are.\<close>

definition ext_lines :: "string list \<Rightarrow> string list \<Rightarrow> string" where
  "ext_lines names vals =
     ''  l_num_ext_params := '' @ itoa (int (length names)) @ '';'' @ [LF] @
     concat (map (\<lambda>i. ''  l_ext_param_name('' @ itoa (int i + 1) @ '') := '' @
        sql_quoted (to_upper (names ! i)) @ '';'' @ [LF]) [0 ..< length names]) @
     concat (map (\<lambda>i. ''  l_ext_param_val('' @ itoa (int i + 1) @ '') := '' @
        sql_quoted (sql_escape (vals ! i)) @ '';'' @ [LF]) [0 ..< length vals])"

definition ext_vars :: "ext \<Rightarrow> var_req list" where
  "ext_vars x =
     [(''ext_param_name'', ''ext_param_name'', ''string'',
         \<lparr>b_spec = NewArrayVar StringVarType (map E_Str (x_names x)) (x_name_len x), b_set = []\<rparr>),
      (''ext_param_val'', ''ext_param_val'', ''string'',
         \<lparr>b_spec = NewArrayVar StringVarType (map E_Str (x_vals x)) (x_val_len x), b_set = []\<rparr>),
      (''num_ext_params'', ''num_ext_params'', ''string'',
         \<lparr>b_spec = NewVarInt (int (length (x_names x))), b_set = []\<rparr>)]"

section \<open>Reading the answer\<close>

definition ignore_error :: "('d, unit) meth \<Rightarrow> ('d, unit) meth" where
  "ignore_error m r = (case m r of (Err e, r') \<Rightarrow> (Ok (), r') | x \<Rightarrow> x)"

text \<open>A content type among the custom headers wins and is taken out of them.\<close>

definition header_content_type :: "string \<Rightarrow> multimap \<Rightarrow> string \<times> multimap" where
  "header_content_type ct h =
     foldl (\<lambda>(ct, h') (k, vs). if to_lower k = ''content-type'' then (str_join vs '';'', vals_del h' k)
                               else (ct, h')) (ct, h) h"

definition read_headers :: "'d driver \<Rightarrow> ('d, string) meth" where
  "read_headers drv =
     andThen (value_of drv ''ContentType'') (\<lambda>cv.
     andThen (case cv of O_Nil \<Rightarrow> ret [] | _ \<Rightarrow> lift (as_str cv)) (\<lambda>ct.
     andThen (value_of drv ''CustomHeaders'') (\<lambda>hv.
     andThen
       (case hv of
          O_Nil \<Rightarrow> ret ()
        | _ \<Rightarrow> andThen (lift (as_str hv)) (\<lambda>s. set_res (\<lambda>res. res\<lparr>Headers := Some (parseHeaders s)\<rparr>)))
       (\<lambda>_. andThen (query out_res) (\<lambda>res.
        let h = (case Headers res of None \<Rightarrow> [] | Some h \<Rightarrow> h); (ct', h') = header_content_type ct h in
        andThen (set_res (\<lambda>res. res\<lparr>Headers := map_option (\<lambda>_. h') (Headers res), ContentType := ct'\<rparr>))
          (\<lambda>_. ret ct'))))))"

text \<open>A page (\<open>rc__ = 0\<close>); the result tells whether \<open>run\<close> goes on to its end.\<close>

definition read_page :: "env \<Rightarrow> 'd driver \<Rightarrow> string \<Rightarrow> ('d, bool) meth" where
  "read_page E drv contentType =
     andThen (value_of drv ''content__'') (\<lambda>dv.
     if dv = O_Nil then ret False
     else
       andThen (lift (as_str dv)) (\<lambda>d.
       andThen (set_res (\<lambda>res. res\<lparr>Content := Content res @ addCR d\<rparr>)) (\<lambda>_.
       andThen (value_of drv ''bNextChunkExists'') (\<lambda>nv.
       andThen (lift (as_int32 nv)) (\<lambda>n.
       andThen (if n \<noteq> 0 then ignore_error (getRestChunks E drv) else ret ()) (\<lambda>_.
       andThen (set_res (\<lambda>res.
         let c = fixMeta (Content res); ct = fst (fixContentType E contentType)
         in res\<lparr>Content := c, ContentType := (if ct = [] then detectContentType E c else ct)\<rparr>))
       (\<lambda>_. ret True)))))))"

text \<open>A download (\<open>rc__ = 1\<close>).  An error of the size is only printed; the size is then zero.\<close>

definition read_file :: "env \<Rightarrow> 'd driver \<Rightarrow> ('d, bool) meth" where
  "read_file E drv =
     andThen (value_of drv ''lob__'') (\<lambda>v.
     (case v of
        O_Lob None \<Rightarrow> ret True
      | O_Lob (Some l) \<Rightarrow>
          if (case lob_size l of Ok n \<Rightarrow> n = 0 | _ \<Rightarrow> True) then ret True
          else
            andThen (lift (lob_data l)) (\<lambda>b.
            andThen (set_res (\<lambda>res. res\<lparr>Content := b,
              ContentType := (if ContentType res = [] then detectContentType E b else ContentType res)\<rparr>))
            (\<lambda>_. ret True))
      | O_Nil \<Rightarrow> fail (errgo_Newf ''data is not *ExternalLobVar, but <nil>'')
      | O_Int i \<Rightarrow> fail (errgo_Newf ''data is not *ExternalLobVar, but int32'')
      | O_Str s \<Rightarrow> fail (errgo_Newf ''data is not *ExternalLobVar, but string'')))"

definition read_answer :: "env \<Rightarrow> 'd driver \<Rightarrow> string \<Rightarrow> string \<Rightarrow> ('d, unit) meth" where
  "read_answer E drv stm shown =
     andThen (check_sqlerr drv) (\<lambda>_.
     andThen (read_headers drv) (\<lambda>contentType.
     andThen (value_of drv ''rc__'') (\<lambda>rv.
     andThen (lift (as_int32 rv)) (\<lambda>rc.
     andThen (if rc = 0 then read_page E drv contentType
              else if rc = 1 then read_file E drv else ret True) (\<lambda>more.
     if \<not> more then ret ()
     else
       andThen (set_res (\<lambda>res. res\<lparr>ContentType :=
         (if ContentType res = [] then ''text/html'' else ContentType res)\<rparr>)) (\<lambda>_.
       setStepInfo stepRunNum stm shown True))))))"

section \<open>\<open>run\<close> and \<open>Run\<close>\<close>

definition describe_step :: "'d driver \<Rightarrow> string \<Rightarrow> ('d, unit) meth" where
  "describe_step drv procName =
     andThen (openStep drv stepDescribeNum ''Describe'') (\<lambda>_.
     deferred
       (\<lambda>r. (let d = Describe (drv_describe drv (db r)) (connStr r) procName (plist_cache r);
                 stm = ''describe procedure '' @ in_quotes procName;
                 r' = (case d of Ok pl \<Rightarrow> r\<lparr>plist_cache := pl\<rparr> | _ \<Rightarrow> r)
             in case d of
                  Panic \<Rightarrow> (Panic, r')
                | Running \<Rightarrow> (Running, r')
                | _ \<Rightarrow> andThen (setStepInfo stepDescribeNum stm stm (case d of Ok _ \<Rightarrow> True | _ \<Rightarrow> False))
                         (\<lambda>_. lift (bind_res d (\<lambda>_. Ok ()))) r'))
       (closeStep drv stepDescribeNum))"

definition empty_ext :: "(string \<rightharpoonup> bind) \<Rightarrow> string \<Rightarrow> string \<Rightarrow> ext" where
  "empty_ext ps setPart shownSet =
     \<lparr>x_prep = \<lparr>execDeclare = [], showDeclare = [], execSet = setPart, showSet = shownSet,
        execProc = [], showProc = [], execStore = [], showStore = [], params = ps\<rparr>,
      x_names = [], x_vals = [], x_name_len = 0, x_val_len = 0\<rparr>"

record run_req =
  paramStoreProc :: string
  beforeScript :: string
  afterScript :: string
  documentTable :: string
  cgiEnv :: cgi_env
  procName :: string
  urlParams :: multimap
  reqForm :: "Form option"

text \<open>All parameters of the request, and the package of the procedure.\<close>

definition run_args_part :: "env \<Rightarrow> 'd driver \<Rightarrow> run_req \<Rightarrow> string list \<Rightarrow> cgi_env \<Rightarrow> ext \<Rightarrow> ('d, ext) meth" where
  "run_args_part E drv q parts cgi x =
     (if length parts > 1 then
        andThen (resource_params drv parts cgi (x_prep x)) (\<lambda>st.
        andThen (make_binds drv [package_var []] (params st)) (\<lambda>ps. ret (x\<lparr>x_prep := st\<lparr>params := ps\<rparr>\<rparr>)))
      else
        andThen
          (case reqForm q of
             None \<Rightarrow> ret x
           | Some f \<Rightarrow> run_files E drv (procName q) (paramStoreProc q) (beforeScript q) (documentTable q)
                        cgi (urlParams q) (form_File f) x) (\<lambda>x.
        andThen (run_params drv (procName q) (paramStoreProc q) (urlParams q) x) (\<lambda>x.
        andThen (\<lambda>r. (let (_, pkg, e) = ProcedureInfo (plist_cache r) (connStr r) (procName q)
                      in (bind_res (of_error e) (\<lambda>_. Ok pkg), r))) (\<lambda>pkg.
        andThen (make_binds drv [package_var pkg] (params (x_prep x))) (\<lambda>ps.
        ret (x\<lparr>x_prep := (x_prep x)\<lparr>params := ps\<rparr>\<rparr>))))))"

definition run_block :: "env \<Rightarrow> 'd driver \<Rightarrow> run_req \<Rightarrow> string list \<Rightarrow> cgi_env \<Rightarrow> ('d, unit) meth" where
  "run_block E drv q parts cgi =
     (let keys = sort (map fst cgi) in
      andThen (make_binds drv (base_vars cgi keys) Map.empty) (\<lambda>ps.
      andThen (run_args_part E drv q parts cgi (empty_ext ps initParams (show_cgi cgi keys))) (\<lambda>x.
      andThen (make_binds drv (ext_vars x) (params (x_prep x))) (\<lambda>ps.
      andThen (query stmMain) (\<lambda>fmt.
      let st = x_prep x; lines = ext_lines (x_names x) (x_vals x);
          proc = (if length parts > 1 then ''get_resource'' else procName q);
          stm = sprintf fmt [execDeclare st, execSet st @ lines, beforeScript q, execStore st, proc,
                             execProc st, afterScript q];
          shown = sprintf fmt [showDeclare st, showSet st @ lines, beforeScript q, showStore st, proc,
                               showProc st, afterScript q]
      in andThen (setStepInfo stepRunNum stm shown False) (\<lambda>_.
         andThen (call_driver (drv_exec drv 0 stm ps)) (\<lambda>_.
         read_answer E drv stm shown)))))))"

definition run :: "env \<Rightarrow> 'd driver \<Rightarrow> run_req \<Rightarrow> ('d, unit) meth" where
  "run E drv q =
     (let parts = str_split (procName q) ''/'';
          cgi = (if length parts > 1 then AList.update ''X-APEX-BASE'' (''/'' @ hd parts) (cgiEnv q)
                 else cgiEnv q)
      in andThen (if length parts > 1 then ret () else describe_step drv (procName q)) (\<lambda>_.
         andThen (openStep drv stepRunNum ''run'') (\<lambda>_.
         deferred (run_block E drv q parts cgi) (closeStep drv stepRunNum))))"

text \<open>An error of \<open>connect\<close> or \<open>run\<close>: pack it, dump it, drop the connection.\<close>

definition finish_error :: "env \<Rightarrow> 'd driver \<Rightarrow> string \<Rightarrow> string \<Rightarrow> string \<Rightarrow> cgi_env \<Rightarrow> time \<Rightarrow> go_error
    \<Rightarrow> ('d, unit) meth" where
  "finish_error E drv userName connstr dumpFile cgi bg e =
     (let (status, text, _) = packError e in
      andThen (set_res (\<lambda>res. res\<lparr>StatusCode := status, Content := text\<rparr>)) (\<lambda>_.
      andThen (dumpError drv (rfc1123z E) userName connstr dumpFile (cgi_get cgi ''HTTP_REFERER'') e) (\<lambda>_.
      andThen (disconnect drv) (\<lambda>_.
      update (\<lambda>r. r\<lparr>out_res := (out_res r)\<lparr>Duration := (drv_now drv (db r) - bg) div Second\<rparr>,
                     logErrorsNum := logErrorsNum r + 1\<rparr>)))))"

definition on_error :: "('d, unit) meth \<Rightarrow> (go_error \<Rightarrow> ('d, unit) meth) \<Rightarrow> ('d, unit) meth \<Rightarrow> ('d, unit) meth" where
  "on_error m h k r =
     (case m r of
        (Err e, r') \<Rightarrow> h e r'
      | (Ok _, r') \<Rightarrow> k r'
      | (Panic, r') \<Rightarrow> (Panic, r')
      | (Running, r') \<Rightarrow> (Running, r'))"

definition start_log :: "string \<Rightarrow> string \<Rightarrow> string \<Rightarrow> string \<Rightarrow> string \<Rightarrow> string \<Rightarrow> 'd oracleTasker \<Rightarrow> 'd oracleTasker"
where
  "start_log sessionID taskID userName userPass connstr proc r =
     (initLog r)\<lparr>logRequestProceeded := logRequestProceeded r + 1, logSessionID := sessionID,
       logTaskID := taskID, logUserName := userName, logUserPass := userPass, logConnStr := connstr,
       logProcName := proc, stateIsWorking := True, out_res := empty_result\<rparr>"

text \<open>\<open>Run\<close>: its result is \<open>out_res\<close> of the state it leaves.  Without a CGI environment the
  process exits.\<close>

definition Run :: "env \<Rightarrow> 'd driver \<Rightarrow> string \<Rightarrow> string \<Rightarrow> string \<Rightarrow> string \<Rightarrow> string \<Rightarrow> run_req \<Rightarrow> string
    \<Rightarrow> ('d, unit) meth" where
  "Run E drv sessionID taskID userName userPass connstr q dumpFile =
     andThen (update (start_log sessionID taskID userName userPass connstr (procName q))) (\<lambda>_.
     if cgiEnv q = [] then lift Panic
     else
       deferred
         (andThen (query (\<lambda>r. drv_now drv (db r))) (\<lambda>bg.
          on_error (connect drv userName userPass connstr)
            (finish_error E drv userName connstr dumpFile (cgiEnv q) bg)
            (on_error (run E drv q)
              (finish_error E drv userName connstr dumpFile (cgiEnv q) bg)
              (update (\<lambda>r. r\<lparr>out_res := (out_res r)\<lparr>StatusCode := StatusOK,
                 Duration := (drv_now drv (db r) - bg) div Second\<rparr>\<rparr>)))))
         (update (\<lambda>r. r\<lparr>stateIsWorking := False, stateLastFinishDT := drv_now drv (db r)\<rparr>)))"

end
