(* ===== verification/Tasker_Frame.thy ===== *)
theory Tasker_Frame
  imports Tasker_Run
begin

text \<open>
  Reasoning about tasker methods.  First what a request leaves alone: a view of the state that
  does not look at the driver, the step log, the result being filled in and the description
  cache is the same before and after \<open>run\<close>.  The locale \<open>quiet_view\<close> states what such a view
  is; the credentials of the connection and the counters are two.  Then the outcome of a method,
  as a triple over the steps that are open.
\<close>

section \<open>Views\<close>

definition keeps :: "('d oracleTasker \<Rightarrow> 'x) \<Rightarrow> ('d, 'a) meth \<Rightarrow> bool" where
  "keeps f m = (\<forall>r. f (snd (m r)) = f r)"

lemma keeps_ret [intro]: "keeps f (ret x)" "keeps f (fail e)" "keeps f (lift y)" "keeps f (query g)"
  by (simp_all add: keeps_def meth_defs)

lemma keeps_const [intro]: "keeps f (\<lambda>r. (g r, r))"
  by (simp add: keeps_def)

lemma keeps_andThen [intro]:
  "keeps f m \<Longrightarrow> (\<And>x. keeps f (k x)) \<Longrightarrow> keeps f (andThen m k)"
  by (auto simp: keeps_def andThen_def split: prod.splits res.splits) (metis snd_conv)+

lemma keeps_deferred [intro]: "keeps f m \<Longrightarrow> keeps f k \<Longrightarrow> keeps f (deferred m k)"
  by (auto simp: keeps_def deferred_def Let_def case_prod_beta)

lemma keeps_update: "(\<And>r. f (g r) = f r) \<Longrightarrow> keeps f (update g)"
  by (simp add: keeps_def update_def)

lemma keeps_if [intro]: "keeps f m \<Longrightarrow> keeps f k \<Longrightarrow> keeps f (if b then m else k)"
  by simp

lemma keeps_ignore [intro]: "keeps f m \<Longrightarrow> keeps f (ignore_error m)"
  by (auto simp: keeps_def ignore_error_def split: prod.splits res.splits) (metis snd_conv)+

lemmas keeps_rules = keeps_andThen keeps_deferred keeps_if keeps_ignore keeps_ret

locale quiet_view =
  fixes view :: "'d oracleTasker \<Rightarrow> 'x"
  assumes view_db: "view (r\<lparr>db := d\<rparr>) = view r"
    and view_steps: "view (r\<lparr>logSteps := l\<rparr>) = view r"
    and view_res: "view (r\<lparr>out_res := x\<rparr>) = view r"
    and view_cache: "view (r\<lparr>plist_cache := pl\<rparr>) = view r"
begin

lemma openStep [intro]: "keeps view (openStep drv n ty)"
  by (simp add: openStep_def keeps_update view_steps)

lemma closeStep [intro]: "keeps view (closeStep drv n)"
  by (auto simp: keeps_def closeStep_def view_steps split: option.splits)

lemma setStepInfo [intro]: "keeps view (setStepInfo n stm shown b)"
  by (auto simp: keeps_def setStepInfo_def view_steps split: option.splits)

lemma call_driver [intro]: "keeps view (call_driver f)"
  by (auto simp: keeps_def call_driver_def view_db split: prod.splits)

lemma set_res [intro]: "keeps view (set_res f)"
  by (simp add: set_res_def keeps_update view_res)

lemma value_of [intro]: "keeps view (value_of drv k)"
  by (simp add: keeps_def value_of_def)

lemma make_binds [intro]: "keeps view (make_binds drv reqs ps)"
  by (simp add: keeps_def make_binds_def)

lemma prepare_arg [intro]: "keeps view (prepare_arg drv p n vs sp st)"
  by (simp add: keeps_def prepare_arg_def case_prod_beta)

lemma resource_params [intro]: "keeps view (resource_params drv parts cgi st)"
  by (simp add: keeps_def resource_params_def Let_def)

lemmas view_rules = keeps_rules openStep closeStep setStepInfo call_driver set_res value_of
  make_binds prepare_arg resource_params

lemma check_sqlerr [intro]: "keeps view (check_sqlerr drv)"
  unfolding check_sqlerr_def by (intro view_rules)

lemma chunk_loop [intro]: "keeps view (chunk_loop drv stm ps n)"
proof (induction n)
  case 0
  show ?case unfolding chunk_loop.simps by (rule keeps_ret)
next
  case (Suc n)
  show ?case unfolding chunk_loop.simps by (intro view_rules check_sqlerr Suc)
qed

lemma getRestChunks [intro]: "keeps view (getRestChunks E drv)"
  unfolding getRestChunks_def by (intro view_rules chunk_loop)

lemma saveFileToDB [intro]: "keeps view (saveFileToDB drv b d cgi up n i m ct c)"
  unfolding saveFileToDB_def Let_def
  by (intro view_rules check_sqlerr)
     (auto split: res.splits out_val.splits intro!: view_rules)

lemma saveFile [intro]: "keeps view (saveFile E drv b d cgi up fhs)"
proof (induction fhs)
  case Nil
  show ?case unfolding saveFile.simps by (rule keeps_ret)
next
  case (Cons fh fhs)
  show ?case unfolding saveFile.simps
    by (intro view_rules Cons) (auto split: option.splits intro!: view_rules saveFileToDB)
qed

lemma run_files [intro]: "keeps view (run_files E drv p sp b d cgi up fs x)"
proof (induction fs arbitrary: x)
  case Nil
  show ?case unfolding run_files.simps by (rule keeps_ret)
next
  case (Cons f fs)
  show ?case by (cases f) (simp only: run_files.simps, intro view_rules saveFile Cons)
qed

lemma run_params [intro]: "keeps view (run_params drv p sp ps x)"
proof (induction ps arbitrary: x)
  case Nil
  show ?case unfolding run_params.simps by (rule keeps_ret)
next
  case (Cons f fs)
  show ?case by (cases f) (simp only: run_params.simps Let_def, intro view_rules Cons)
qed

lemma read_headers [intro]: "keeps view (read_headers drv)"
  unfolding read_headers_def Let_def case_prod_beta
  by (intro view_rules) (auto split: out_val.splits intro!: view_rules)

lemma read_page [intro]: "keeps view (read_page E drv ct)"
  unfolding read_page_def by (intro view_rules getRestChunks)

lemma read_file [intro]: "keeps view (read_file E drv)"
  unfolding read_file_def
  by (intro view_rules) (auto split: out_val.splits option.splits intro!: view_rules)

lemma read_answer [intro]: "keeps view (read_answer E drv stm shown)"
  unfolding read_answer_def by (intro view_rules check_sqlerr read_headers read_page read_file)

lemma describe_step [intro]: "keeps view (describe_step drv p)"
  unfolding describe_step_def
proof (intro keeps_andThen keeps_deferred openStep closeStep)
  show "keeps view (\<lambda>r. (let d = Describe (drv_describe drv (db r)) (connStr r) p (plist_cache r);
                 stm = ''describe procedure '' @ in_quotes p;
                 r' = (case d of Ok pl \<Rightarrow> r\<lparr>plist_cache := pl\<rparr> | _ \<Rightarrow> r)
             in case d of
                  Panic \<Rightarrow> (Panic, r')
                | Running \<Rightarrow> (Running, r')
                | _ \<Rightarrow> andThen (setStepInfo stepDescribeNum stm stm (case d of Ok _ \<Rightarrow> True | _ \<Rightarrow> False))
                         (\<lambda>_. lift (bind_res d (\<lambda>_. Ok ()))) r'))"
    by (auto simp: keeps_def setStepInfo_def andThen_def lift_def view_steps view_cache Let_def
        split: res.splits option.splits)
qed

lemma run_args_part [intro]: "keeps view (run_args_part E drv q parts cgi x)"
proof -
  have "keeps view (\<lambda>r. (let (_, pkg, e) = ProcedureInfo (plist_cache r) (connStr r) (procName q)
                      in (bind_res (of_error e) (\<lambda>_. Ok pkg), r)))"
    by (simp add: keeps_def case_prod_beta)
  then show ?thesis
    unfolding run_args_part_def
    by (intro view_rules run_params) (auto split: option.splits intro!: view_rules)
qed

lemma run_block [intro]: "keeps view (run_block E drv q parts cgi)"
  unfolding run_block_def Let_def by (intro view_rules run_args_part read_answer)

lemma run [intro]: "keeps view (run E drv q)"
  unfolding run_def Let_def by (intro view_rules describe_step run_block)

lemma evalSessionID:
  assumes "\<And>r s. view (r\<lparr>sessID := s\<rparr>) = view r"
  shows "keeps view (evalSessionID drv)"
  unfolding evalSessionID_def
  by (intro view_rules keeps_const) (simp_all add: keeps_update assms)

end

definition credentials :: "'d oracleTasker \<Rightarrow> bool \<times> string \<times> string \<times> string" where
  "credentials r = (conn r, connUserName r, connUserPass r, connStr r)"

definition counters :: "'d oracleTasker \<Rightarrow> int \<times> int \<times> bool \<times> (string \<times> bytes) list" where
  "counters r = (logRequestProceeded r, logErrorsNum r, stateIsWorking r, dumps r)"

interpretation cred: quiet_view credentials
  by unfold_locales (simp_all add: credentials_def)

interpretation count: quiet_view counters
  by unfold_locales (simp_all add: counters_def)

end
