(* ===== verification/Tasker_Safe.thy ===== *)
theory Tasker_Safe
  imports Tasker_Frame
begin

text \<open>
  When a request does not end the process: what the blocks and the driver must promise, and a judgement on
  methods.  \<open>safe I S m V A\<close> says of a method \<open>m\<close>: started with the
  steps \<open>S\<close> in the log and the invariant \<open>I\<close>, it does not panic, keeps both, and when it
  returns a value then \<open>V\<close> holds of it and the steps \<open>A\<close> are in the log as well.
\<close>

section \<open>Safe methods\<close>

definition steps_open :: "('d oracleTasker \<Rightarrow> bool) \<Rightarrow> nat set \<Rightarrow> 'd oracleTasker \<Rightarrow> bool" where
  "steps_open I S r = (S \<subseteq> dom (logSteps r) \<and> I r)"

definition safe :: "('d oracleTasker \<Rightarrow> bool) \<Rightarrow> nat set \<Rightarrow> ('d, 'a) meth \<Rightarrow> ('a \<Rightarrow> bool) \<Rightarrow> nat set \<Rightarrow> bool"
where
  "safe I S m V A =
     (\<forall>r. steps_open I S r \<longrightarrow>
         (case m r of
            (Ok x, r') \<Rightarrow> V x \<and> steps_open I (S \<union> A) r'
          | (Err e, r') \<Rightarrow> steps_open I S r'
          | (Panic, r') \<Rightarrow> False
          | (Running, r') \<Rightarrow> steps_open I S r'))"

lemma steps_open_mono: "S \<subseteq> S' \<Longrightarrow> steps_open I S' r \<Longrightarrow> steps_open I S r"
  by (auto simp: steps_open_def)

lemma safeD:
  assumes "safe I S m V A" "steps_open I S r" "m r = (y, r')"
  shows "y \<noteq> Panic" "steps_open I S r'" "y = Ok x \<Longrightarrow> V x" "y = Ok x \<Longrightarrow> steps_open I (S \<union> A) r'"
proof -
  have "case (y, r') of (Ok x, r') \<Rightarrow> V x \<and> steps_open I (S \<union> A) r' | (Err e, r') \<Rightarrow> steps_open I S r'
      | (Panic, r') \<Rightarrow> False | (Running, r') \<Rightarrow> steps_open I S r'"
    using assms(1) [unfolded safe_def, rule_format, OF assms(2)] assms(3) by simp
  then show "y \<noteq> Panic" "steps_open I S r'" "y = Ok x \<Longrightarrow> V x" "y = Ok x \<Longrightarrow> steps_open I (S \<union> A) r'"
    using steps_open_mono [of S "S \<union> A" I r'] by (auto split: res.splits)
qed

lemma safeI:
  assumes "\<And>r y r'. steps_open I S r \<Longrightarrow> m r = (y, r') \<Longrightarrow>
     y \<noteq> Panic \<and> steps_open I S r' \<and> (\<forall>x. y = Ok x \<longrightarrow> V x \<and> steps_open I (S \<union> A) r')"
  shows "safe I S m V A"
  unfolding safe_def using assms by (auto split: prod.splits res.splits)

lemma safe_andThen:
  assumes m: "safe I S m V A" and k: "\<And>x. V x \<Longrightarrow> safe I (S \<union> A) (k x) W B"
  shows "safe I S (andThen m k) W B"
proof (rule safeI)
  fix r y r'
  assume r: "steps_open I S r" and eq: "andThen m k r = (y, r')"
  obtain z r1 where mr: "m r = (z, r1)" by fastforce
  show "y \<noteq> Panic \<and> steps_open I S r' \<and> (\<forall>x. y = Ok x \<longrightarrow> W x \<and> steps_open I (S \<union> B) r')"
  proof (cases z)
    case (Ok x)
    note m' = safeD [OF m r mr]
    have kx: "k x r1 = (y, r')" using eq mr Ok by (simp add: andThen_def)
    note k' = safeD [OF k [OF m'(3) [OF Ok]] m'(4) [OF Ok] kx]
    have "S \<subseteq> S \<union> A" "S \<union> B \<subseteq> S \<union> A \<union> B" by auto
    with k' show ?thesis using steps_open_mono by metis
  qed (use safeD [OF m r mr] eq mr in \<open>auto simp: andThen_def\<close>)
qed

lemma safe_if: "(b \<Longrightarrow> safe I S m V A) \<Longrightarrow> (\<not> b \<Longrightarrow> safe I S k V A) \<Longrightarrow> safe I S (if b then m else k) V A"
  by simp

lemma safe_ret: "V x \<Longrightarrow> safe I S (ret x) V {}"
  by (simp add: safe_def ret_def)

lemma safe_fail: "safe I S (fail e) V A"
  by (simp add: safe_def fail_def)

lemma safe_lift: "y \<noteq> Panic \<Longrightarrow> (\<And>x. y = Ok x \<Longrightarrow> V x) \<Longrightarrow> safe I S (lift y) V {}"
  by (cases y) (simp_all add: safe_def lift_def)

lemma safe_query: "(\<And>r. V (f r)) \<Longrightarrow> safe I S (query f) V {}"
  by (simp add: safe_def query_def)

text \<open>Reading the state without changing it.\<close>

lemma safe_read:
  "(\<And>r. f r \<noteq> Panic) \<Longrightarrow> (\<And>r x. f r = Ok x \<Longrightarrow> V x) \<Longrightarrow> safe I S (\<lambda>r. (f r, r)) V {}"
  by (auto simp: safe_def split: res.splits)

lemma safe_update:
  "(\<And>r. I r \<Longrightarrow> I (f r)) \<Longrightarrow> (\<And>r. dom (logSteps r) \<subseteq> dom (logSteps (f r))) \<Longrightarrow>
   safe I S (update f) (\<lambda>_. True) {}"
  by (force simp: safe_def update_def steps_open_def)

lemma safe_ignore:
  assumes "safe I S m V A"
  shows "safe I S (ignore_error m) (\<lambda>_. True) {}"
proof (rule safeI)
  fix r y r'
  assume r: "steps_open I S r" and eq: "ignore_error m r = (y, r')"
  obtain z r1 where mr: "m r = (z, r1)" by fastforce
  show "y \<noteq> Panic \<and> steps_open I S r' \<and> (\<forall>x. y = Ok x \<longrightarrow> True \<and> steps_open I (S \<union> {}) r')"
    using safeD(1,2) [OF assms r mr] eq mr by (cases z) (auto simp: ignore_error_def)
qed

lemma safe_weaken:
  assumes "safe I S m V A" "\<And>x. V x \<Longrightarrow> W x" "B \<subseteq> A"
  shows "safe I S m W B"
proof (rule safeI)
  fix r y r'
  assume r: "steps_open I S r" and eq: "m r = (y, r')"
  have "S \<union> B \<subseteq> S \<union> A" using assms(3) by auto
  then show "y \<noteq> Panic \<and> steps_open I S r' \<and> (\<forall>x. y = Ok x \<longrightarrow> W x \<and> steps_open I (S \<union> B) r')"
    using safeD [OF assms(1) r eq] assms(2) steps_open_mono by metis
qed

section \<open>Invariants the calls keep\<close>

text \<open>An invariant the log, the result, the cache, the session and executed statements do not
  touch.\<close>

definition quiet :: "'d driver \<Rightarrow> ('d oracleTasker \<Rightarrow> bool) \<Rightarrow> bool" where
  "quiet drv I =
     (\<forall>r. (\<forall>l. I (r\<lparr>logSteps := l\<rparr>) = I r) \<and> (\<forall>x. I (r\<lparr>out_res := x\<rparr>) = I r) \<and>
          (\<forall>pl. I (r\<lparr>plist_cache := pl\<rparr>) = I r) \<and> (\<forall>s. I (r\<lparr>sessID := s\<rparr>) = I r) \<and>
          (\<forall>stm ps. I r \<longrightarrow> I (r\<lparr>db := snd (drv_exec drv 0 stm ps (db r))\<rparr>)))"

lemma quietD:
  assumes "quiet drv I"
  shows "I (r\<lparr>logSteps := l\<rparr>) = I r" "I (r\<lparr>out_res := x\<rparr>) = I r"
    "I (r\<lparr>plist_cache := pl\<rparr>) = I r" "I (r\<lparr>sessID := s\<rparr>) = I r"
    "I r \<Longrightarrow> I (r\<lparr>db := snd (drv_exec drv 0 stm ps (db r))\<rparr>)"
  using assms unfolding quiet_def by blast+

lemma safe_openStep: "quiet drv I \<Longrightarrow> safe I S (openStep drv n ty) (\<lambda>_. True) {n}"
  by (auto simp: safe_def openStep_def update_def steps_open_def quietD(1))

lemma safe_setStepInfo:
  "quiet drv I \<Longrightarrow> n \<in> S \<Longrightarrow> safe I S (setStepInfo n stm shown b) (\<lambda>_. True) {}"
  by (auto simp: safe_def setStepInfo_def steps_open_def quietD(1) split: option.splits)

lemma safe_exec: "quiet drv I \<Longrightarrow> safe I S (call_driver (drv_exec drv 0 stm ps)) (\<lambda>_. True) {}"
  using quietD(5) [of drv I]
  by (auto simp: safe_def call_driver_def of_error_def steps_open_def split: prod.splits option.splits)
     (metis snd_conv)+

lemma safe_set_res: "quiet drv I \<Longrightarrow> safe I S (set_res f) (\<lambda>_. True) {}"
  unfolding set_res_def by (rule safe_update) (simp_all add: quietD(2))

text \<open>A step opened, worked on and closed by \<open>defer\<close>.\<close>

lemma safe_step:
  assumes q: "quiet drv I" and m: "safe I (insert n S) m V A"
  shows "safe I S (andThen (openStep drv n ty) (\<lambda>_. deferred m (closeStep drv n))) V {}"
proof (rule safe_andThen [OF safe_openStep [OF q]])
  have close: "n \<in> dom (logSteps r) \<Longrightarrow> \<exists>r'. closeStep drv n r = (Ok (), r') \<and>
      dom (logSteps r') = dom (logSteps r) \<and> I r' = I r" for r
    by (auto simp: closeStep_def quietD(1) [OF q])
  have "safe I (insert n S) (deferred m (closeStep drv n)) V {}"
  proof (rule safeI)
    fix r y r'
    assume r: "steps_open I (insert n S) r" and eq: "deferred m (closeStep drv n) r = (y, r')"
    obtain z r1 where mr: "m r = (z, r1)" by fastforce
    note m' = safeD [OF m r mr]
    obtain r2 where "closeStep drv n r1 = (Ok (), r2)" "dom (logSteps r2) = dom (logSteps r1)" "I r2 = I r1"
      using close [of r1] m'(2) by (auto simp: steps_open_def)
    then show "y \<noteq> Panic \<and> steps_open I (insert n S) r' \<and>
       (\<forall>x. y = Ok x \<longrightarrow> V x \<and> steps_open I (insert n S \<union> {}) r')"
      using m' eq mr by (auto simp: deferred_def steps_open_def)
  qed
  then show "safe I (S \<union> {n}) (deferred m (closeStep drv n)) V {}" by simp
qed

section \<open>Well-typed answers\<close>

fun is_int :: "out_val \<Rightarrow> bool" where
  "is_int (O_Int i) = True"
| "is_int _ = False"

fun is_str :: "out_val \<Rightarrow> bool" where
  "is_str (O_Str s) = True"
| "is_str _ = False"

fun is_text :: "out_val \<Rightarrow> bool" where
  "is_text (O_Str s) = True"
| "is_text O_Nil = True"
| "is_text _ = False"

fun lob_ok :: "out_val \<Rightarrow> bool" where
  "lob_ok (O_Lob (Some l)) = (lob_data l \<noteq> Panic)"
| "lob_ok _ = True"

definition answers_in :: "('d \<Rightarrow> bool) \<Rightarrow> 'd driver \<Rightarrow> string \<Rightarrow> (out_val \<Rightarrow> bool) \<Rightarrow> bool" where
  "answers_in P drv k T =
     (\<forall>d. P d \<longrightarrow> drv_value drv 0 k d \<noteq> Panic \<and> (\<forall>v. drv_value drv 0 k d = Ok v \<longrightarrow> T v))"

text \<open>The states a statement leaves: after any statement that was executed, after one that reported
  no error of its own, and after one that reported an error.  The blocks set \<open>sqlerrm\<close> and
  \<open>sqlerrtrace\<close> to null when all went well and to texts in their exception handlers.\<close>

definition ran :: "'d driver \<Rightarrow> 'd \<Rightarrow> bool" where
  "ran drv d = (\<exists>stm ps d0. drv_exec drv 0 stm ps d0 = (None, d))"

definition went_well :: "'d driver \<Rightarrow> 'd \<Rightarrow> bool" where
  "went_well drv d = (ran drv d \<and> drv_value drv 0 ''sqlerrcode'' d = Ok (O_Int 0))"

definition went_wrong :: "'d driver \<Rightarrow> 'd \<Rightarrow> bool" where
  "went_wrong drv d = (ran drv d \<and> (\<exists>c. c \<noteq> 0 \<and> drv_value drv 0 ''sqlerrcode'' d = Ok (O_Int c)))"

definition page_there :: "'d driver \<Rightarrow> 'd \<Rightarrow> bool" where
  "page_there drv d = (went_well drv d \<and> (\<exists>s. drv_value drv 0 ''content__'' d = Ok (O_Str s)))"

text \<open>What the PL/SQL blocks and the driver promise of the values the code reads: their types in the
  states in which it reads them; and of the connection: a log-on without an error connects it, and executing
  statements does not change whether it is connected.\<close>

definition typed_driver :: "'d driver \<Rightarrow> bool" where
  "typed_driver drv =
     (answers_in (ran drv) drv ''sqlerrcode'' is_int \<and>
      answers_in (went_wrong drv) drv ''sqlerrm'' is_str \<and>
      answers_in (went_wrong drv) drv ''sqlerrtrace'' is_str \<and>
      answers_in (went_well drv) drv ''ContentType'' is_text \<and>
      answers_in (went_well drv) drv ''CustomHeaders'' is_text \<and>
      answers_in (went_well drv) drv ''rc__'' is_int \<and>
      answers_in (went_well drv) drv ''content__'' is_text \<and>
      answers_in (page_there drv) drv ''bNextChunkExists'' is_int \<and>
      answers_in (went_well drv) drv ''lob__'' lob_ok \<and>
      answers_in (went_well drv) drv ''ret_name'' is_text \<and>
      (\<forall>d. ran drv d \<longrightarrow> drv_fetch drv 0 d \<noteq> Panic \<and>
           (\<forall>row. drv_fetch drv 0 d = Ok row \<longrightarrow> (\<exists>s vs. row = O_Str s # vs))) \<and>
      (\<forall>d p pkg ts. exec_short (drv_describe drv d) p pkg ts \<noteq> Panic) \<and>
      (\<forall>d n p. exec_long (drv_describe drv d) n p \<noteq> Panic) \<and>
      (\<forall>stm ps d. drv_connected drv 0 (snd (drv_exec drv 0 stm ps d)) = drv_connected drv 0 d) \<and>
      (\<forall>u p c d d'. drv_connect drv 0 u p c d = (None, d') \<longrightarrow> drv_connected drv 0 d'))"

text \<open>No later piece of a page is null: the code takes it for a text unseen.\<close>

definition no_null_chunk :: "'d driver \<Rightarrow> bool" where
  "no_null_chunk drv = answers_in (went_well drv) drv ''Data'' is_str"

lemma typedD:
  assumes "typed_driver drv"
  shows "answers_in (ran drv) drv ''sqlerrcode'' is_int"
    "answers_in (went_wrong drv) drv ''sqlerrm'' is_str"
    "answers_in (went_wrong drv) drv ''sqlerrtrace'' is_str"
    "answers_in (went_well drv) drv ''ContentType'' is_text"
    "answers_in (went_well drv) drv ''CustomHeaders'' is_text"
    "answers_in (went_well drv) drv ''rc__'' is_int"
    "answers_in (went_well drv) drv ''content__'' is_text"
    "answers_in (page_there drv) drv ''bNextChunkExists'' is_int"
    "answers_in (went_well drv) drv ''lob__'' lob_ok"
    "answers_in (went_well drv) drv ''ret_name'' is_text"
  using assms unfolding typed_driver_def by blast+

lemma typed_fetch:
  assumes "typed_driver drv" "ran drv d"
  shows "drv_fetch drv 0 d \<noteq> Panic" "drv_fetch drv 0 d = Ok row \<Longrightarrow> \<exists>s vs. row = O_Str s # vs"
  using assms unfolding typed_driver_def by blast+

section \<open>Safe in some states of the database\<close>

text \<open>\<open>safe_when P\<close> is \<open>safe\<close> for the states whose database satisfies \<open>P\<close>; reading keeps the database.\<close>

definition safe_when :: "('d \<Rightarrow> bool) \<Rightarrow> ('d oracleTasker \<Rightarrow> bool) \<Rightarrow> nat set \<Rightarrow> ('d, 'a) meth \<Rightarrow>
    ('a \<Rightarrow> bool) \<Rightarrow> nat set \<Rightarrow> bool" where
  "safe_when P I S m V A =
     (\<forall>r y r'. P (db r) \<longrightarrow> steps_open I S r \<longrightarrow> m r = (y, r') \<longrightarrow>
        y \<noteq> Panic \<and> steps_open I S r' \<and> (\<forall>x. y = Ok x \<longrightarrow> V x \<and> steps_open I (S \<union> A) r'))"

lemma safe_when_safe: "safe I S m V A \<Longrightarrow> safe_when P I S m V A"
  unfolding safe_when_def using safeD [of I S m V A] by blast

lemma safe_when_then:
  assumes m: "safe_when P I S m V {}" and db: "keeps db m"
    and k: "\<And>x. V x \<Longrightarrow> safe_when P I S (k x) W B"
  shows "safe_when P I S (andThen m k) W B"
  unfolding safe_when_def
proof (intro allI impI)
  fix r y r'
  assume r: "P (db r)" "steps_open I S r" and eq: "andThen m k r = (y, r')"
  obtain z r1 where mr: "m r = (z, r1)" by fastforce
  have m': "z \<noteq> Panic \<and> steps_open I S r1 \<and> (\<forall>x. z = Ok x \<longrightarrow> V x \<and> steps_open I S r1)"
    using m r mr unfolding safe_when_def by (metis sup_bot_right)
  have "P (db r1)" using db r(1) mr by (simp add: keeps_def) (metis snd_conv)
  then show "y \<noteq> Panic \<and> steps_open I S r' \<and> (\<forall>x. y = Ok x \<longrightarrow> W x \<and> steps_open I (S \<union> B) r')"
    using m' eq mr k unfolding safe_when_def by (cases z) (auto simp: andThen_def)
qed

lemma safe_when_value:
  assumes "answers_in P drv k T" "\<And>v. T v \<Longrightarrow> safe_when P I S (m v) W B"
  shows "safe_when P I S (andThen (value_of drv k) m) W B"
proof (rule safe_when_then [OF _ _ assms(2)])
  show "safe_when P I S (value_of drv k) T {}"
    using assms(1) by (auto simp: safe_when_def value_of_def answers_in_def)
qed (simp_all add: keeps_def value_of_def)

lemma safe_when_andThen:
  assumes m: "safe_when P I S m (\<lambda>_. True) {}" and k: "\<And>x. safe I S (k x) W B"
  shows "safe_when P I S (andThen m k) W B"
  unfolding safe_when_def
proof (intro allI impI)
  fix r y r'
  assume r: "P (db r)" "steps_open I S r" and eq: "andThen m k r = (y, r')"
  obtain z r1 where mr: "m r = (z, r1)" by fastforce
  have m': "z \<noteq> Panic \<and> steps_open I S r1" using m r mr unfolding safe_when_def by blast
  show "y \<noteq> Panic \<and> steps_open I S r' \<and> (\<forall>x. y = Ok x \<longrightarrow> W x \<and> steps_open I (S \<union> B) r')"
  proof (cases z)
    case (Ok x)
    with eq mr have "k x r1 = (y, r')" by (simp add: andThen_def)
    with safeD [OF k] m' show ?thesis by metis
  qed (use m' eq mr in \<open>auto simp: andThen_def\<close>)
qed

lemma safe_when_lift:
  "safe I S (lift y) (\<lambda>_. True) {} \<Longrightarrow> (\<And>x. safe_when P I S (m x) W B) \<Longrightarrow>
   safe_when P I S (andThen (lift y) m) W B"
  by (rule safe_when_then [OF safe_when_safe]) (auto simp: keeps_def lift_def)

lemma safe_when_if:
  "(b \<Longrightarrow> safe_when P I S m V A) \<Longrightarrow> (\<not> b \<Longrightarrow> safe_when P I S k V A) \<Longrightarrow>
   safe_when P I S (if b then m else k) V A"
  by simp

lemma safe_as_int: "is_int v \<Longrightarrow> safe I S (lift (as_int32 v)) (\<lambda>_. True) {}"
  by (cases v) (auto simp: as_int32_def intro!: safe_lift)

lemma safe_as_str: "is_str v \<Longrightarrow> safe I S (lift (as_str v)) (\<lambda>_. True) {}"
  by (cases v) (auto simp: as_str_def intro!: safe_lift)

lemma make_vars_ok: "make_vars nv reqs ps \<noteq> Panic"
  by (induction nv reqs ps rule: make_vars.induct) (auto split: option.splits simp del: fun_upd_apply)

lemma safe_make_binds: "safe I S (make_binds drv reqs ps) (\<lambda>_. True) {}"
  unfolding make_binds_def [abs_def] by (rule safe_read) (auto simp: make_vars_ok)

lemma bind_var_ok [simp]: "bind_var nv n ty k b st \<noteq> Panic"
  by (auto simp: bind_var_def split: option.splits)

lemma bind_res_Panic: "bind_res m f = Panic \<longleftrightarrow> m = Panic \<or> (\<exists>x. m = Ok x \<and> f x = Panic)"
  by (cases m) auto

lemma store_scalar_ok [simp]: "store_scalar nv proc n b st \<noteq> Panic"
  by (simp add: store_scalar_def bind_res_Panic)

lemma prepareStringParam_ok: "prepareStringParam nv n (v # vs) ty proc st \<noteq> Panic"
  by (simp add: prepareStringParam_def bind_res_Panic Let_def)

lemma prepare_tab_ok: "prepare_tab nv n vals ty proc spec spec' shown st \<noteq> Panic"
  by (simp add: prepare_tab_def bind_res_Panic Let_def)

lemma prepare_scalar_ok:
  "prepare_number nv n (v # vs) ty proc st \<noteq> Panic" "prepare_integer nv n (v # vs) ty proc st \<noteq> Panic"
  "prepare_date nv n (v # vs) ty proc st \<noteq> Panic" "prepare_boolean nv n (v # vs) ty proc st \<noteq> Panic"
  "prepare_unknown nv n (v # vs) proc st \<noteq> Panic" "prepare_tabs nv n vals pty ty proc st \<noteq> Panic"
  by (simp_all add: prepare_number_def prepare_integer_def prepare_date_def prepare_boolean_def
      prepare_unknown_def prepare_tabs_def prepare_tab_ok bind_res_Panic Let_def)

lemma prepareParam_ok: "vals \<noteq> [] \<Longrightarrow> prepareParam nv name vals pty ty proc st \<noteq> Panic"
  by (cases vals) (simp_all add: prepareParam_def prepareStringParam_ok prepare_scalar_ok)

lemma safe_prepare_arg: "vals \<noteq> [] \<Longrightarrow> safe I S (prepare_arg drv p n vals sp st) (\<lambda>_. True) {}"
  unfolding prepare_arg_def [abs_def] Let_def case_prod_beta
  by (rule safe_read) (simp_all add: prepareParam_ok)

lemma safe_first_value: "vals \<noteq> [] \<Longrightarrow> safe I S (lift (first_value vals)) (\<lambda>_. True) {}"
  by (rule safe_lift) (auto simp: first_value_def split: list.splits)

lemma safe_resource_params: "safe I S (resource_params drv parts cgi st) (\<lambda>_. True) {}"
  unfolding resource_params_def [abs_def] Let_def
  by (rule safe_read) (simp_all add: bind_res_Panic prepareStringParam_ok)

section \<open>The parts of a request\<close>

text \<open>One rule per call in front of the rest of a method.\<close>

lemma safe_then:
  assumes "safe I S m V {}" "\<And>x. V x \<Longrightarrow> safe I S (k x) W B"
  shows "safe I S (andThen m k) W B"
  by (rule safe_andThen [OF assms(1)]) (simp add: assms(2))

lemma safe_then_int:
  "is_int v \<Longrightarrow> (\<And>i. safe I S (m i) W B) \<Longrightarrow> safe I S (andThen (lift (as_int32 v)) m) W B"
  by (rule safe_then [OF safe_as_int])

lemma safe_then_str:
  "is_str v \<Longrightarrow> (\<And>i. safe I S (m i) W B) \<Longrightarrow> safe I S (andThen (lift (as_str v)) m) W B"
  by (rule safe_then [OF safe_as_str])

lemma safe_then_binds:
  "(\<And>ps. safe I S (m ps) W B) \<Longrightarrow> safe I S (andThen (make_binds drv reqs p) m) W B"
  by (rule safe_then [OF safe_make_binds])

lemma safe_then_exec:
  "quiet drv I \<Longrightarrow> (\<And>x. safe I S (m x) W B) \<Longrightarrow>
   safe I S (andThen (call_driver (drv_exec drv 0 stm ps)) m) W B"
  by (rule safe_then [OF safe_exec])

lemma safe_then_info:
  "quiet (drv :: 'd driver) I \<Longrightarrow> n \<in> S \<Longrightarrow> (\<And>x. safe I S (m x) W B) \<Longrightarrow>
   safe I S (andThen (setStepInfo n stm shown b) m) W B"
  by (rule safe_then [OF safe_setStepInfo])

lemma safe_then_res:
  "quiet (drv :: 'd driver) I \<Longrightarrow> (\<And>x. safe I S (m x) W B) \<Longrightarrow>
   safe I S (andThen (set_res f) m) W B"
  by (rule safe_then [OF safe_set_res])

lemma safe_then_query:
  "(\<And>x. safe I S (m x) W B) \<Longrightarrow> safe I S (andThen (query f) m) W B"
  by (rule safe_then [OF safe_query [where V = "\<lambda>_. True"]]) auto

lemma safe_then_any:
  "safe I S m (\<lambda>_. True) {} \<Longrightarrow> (\<And>x. safe I S (k x) W B) \<Longrightarrow> safe I S (andThen m k) W B"
  by (rule safe_then)

lemma safe_True: "safe I S (ret x) (\<lambda>_. True) {}"
  by (rule safe_ret) (rule TrueI)

lemmas safe_rules = safe_then_int safe_then_str safe_then_binds safe_then_exec
  safe_then_query safe_if safe_fail safe_True

lemma safe_after_exec:
  assumes "quiet drv I" "safe_when (ran drv) I S m W B"
  shows "safe I S (andThen (call_driver (drv_exec drv 0 stm ps)) (\<lambda>_. m)) W B"
proof (rule safeI)
  fix r y r'
  assume r: "steps_open I S r" and eq: "andThen (call_driver (drv_exec drv 0 stm ps)) (\<lambda>_. m) r = (y, r')"
  obtain e d where e: "drv_exec drv 0 stm ps (db r) = (e, d)" by fastforce
  have "I r \<Longrightarrow> I (r\<lparr>db := d\<rparr>)" using quietD(5) [OF assms(1), of r stm ps] e by simp
  then have r1: "steps_open I S (r\<lparr>db := d\<rparr>)" using r by (simp add: steps_open_def)
  show "y \<noteq> Panic \<and> steps_open I S r' \<and> (\<forall>x. y = Ok x \<longrightarrow> W x \<and> steps_open I (S \<union> B) r')"
  proof (cases e)
    case (Some err)
    with eq e r1 show ?thesis by (auto simp: andThen_def call_driver_def of_error_def)
  next
    case None
    with e have "ran drv (db (r\<lparr>db := d\<rparr>))" by (auto simp: ran_def)
    moreover have "m (r\<lparr>db := d\<rparr>) = (y, r')"
      using eq e None by (simp add: andThen_def call_driver_def of_error_def)
    ultimately show ?thesis using assms(2) r1 unfolding safe_when_def by blast
  qed
qed

lemma check_sqlerr_cases:
  assumes "typed_driver drv" "ran drv (db r)" "check_sqlerr drv r = (y, r')"
  shows "r' = r \<and> y \<noteq> Panic \<and> (y = Ok () \<longrightarrow> went_well drv (db r))"
proof (cases "drv_value drv 0 ''sqlerrcode'' (db r)")
  case (Ok v)
  with typedD(1) [OF assms(1)] assms(2) have "is_int v" by (auto simp: answers_in_def)
  then obtain c where v: "v = O_Int c" by (cases v) auto
  show ?thesis
  proof (cases "c = 0")
    case True
    with assms(2,3) Ok v show ?thesis
      by (auto simp: check_sqlerr_def value_of_def andThen_def lift_def as_int32_def ret_def went_well_def)
  next
    case False
    with assms(2) Ok v have w: "went_wrong drv (db r)" by (auto simp: went_wrong_def)
    have str: "y \<noteq> Panic \<and> (\<forall>x. y = Ok x \<longrightarrow> is_str x)"
      if "y = drv_value drv 0 k (db r)" "k = ''sqlerrm'' \<or> k = ''sqlerrtrace''" for k y
      using that w typedD(2,3) [OF assms(1)] by (auto simp: answers_in_def)
    have "is_str x \<Longrightarrow> as_str x \<noteq> Panic" for x by (cases x) (auto simp: as_str_def)
    then show ?thesis
      using assms(3) Ok v False str [OF refl, of "''sqlerrm''"] str [OF refl, of "''sqlerrtrace''"]
      by (auto simp: check_sqlerr_def value_of_def andThen_def lift_def as_int32_def fail_def
          split: res.splits)
  qed
next
  case Panic
  with typedD(1) [OF assms(1)] assms(2) show ?thesis by (auto simp: answers_in_def)
qed (use assms(3) in \<open>auto simp: check_sqlerr_def value_of_def andThen_def\<close>)

lemma safe_after_check:
  assumes "typed_driver drv" "safe_when (went_well drv) I S m W B"
  shows "safe_when (ran drv) I S (andThen (check_sqlerr drv) (\<lambda>_. m)) W B"
  unfolding safe_when_def
proof (intro allI impI)
  fix r y r'
  assume r: "ran drv (db r)" "steps_open I S r" and eq: "andThen (check_sqlerr drv) (\<lambda>_. m) r = (y, r')"
  obtain z r1 where z: "check_sqlerr drv r = (z, r1)" by fastforce
  from check_sqlerr_cases [OF assms(1) r(1) z]
  show "y \<noteq> Panic \<and> steps_open I S r' \<and> (\<forall>x. y = Ok x \<longrightarrow> W x \<and> steps_open I (S \<union> B) r')"
    using assms(2) eq r z unfolding safe_when_def by (cases z) (auto simp: andThen_def)
qed

lemma safe_chunk_loop:
  assumes "typed_driver drv" "no_null_chunk drv" "quiet drv I"
  shows "safe I S (chunk_loop drv stm ps n) (\<lambda>_. True) {}"
proof (induction n)
  case 0
  show ?case unfolding chunk_loop.simps by (rule safe_lift) auto
next
  case (Suc n)
  have tail: "safe I S (andThen (lift (as_str v)) (\<lambda>d.
      andThen (set_res (\<lambda>res. res\<lparr>Content := Content res @ addCR d\<rparr>)) (\<lambda>_.
      andThen (query (\<lambda>r. next_exists drv (db r))) (\<lambda>more.
      if more then chunk_loop drv stm ps n else ret ())))) (\<lambda>_. True) {}" if "is_str v" for v
    using that by (intro safe_rules safe_then_res [OF assms(3)] Suc)
  have "answers_in (went_well drv) drv ''Data'' is_str" using assms(2) by (simp add: no_null_chunk_def)
  from safe_when_value [OF this safe_when_safe [OF tail]] show ?case
    unfolding chunk_loop.simps by (intro safe_after_exec safe_after_check assms) simp_all
qed

lemma safe_getRestChunks:
  assumes "typed_driver drv" "no_null_chunk drv" "quiet drv I"
  shows "safe I S (getRestChunks E drv) (\<lambda>_. True) {}"
  unfolding getRestChunks_def
  by (rule safe_step [OF assms(3), where A = "{}"])
     (intro safe_rules safe_then_any [OF safe_chunk_loop [OF assms]] assms(3)
        safe_then_info [OF assms(3)] safe_setStepInfo [OF assms(3)] insertI1)

lemma safe_text: "is_text v \<Longrightarrow>
   safe I T (case v of O_Nil \<Rightarrow> ret [] | _ \<Rightarrow> lift (as_str v)) (\<lambda>_. True) {}"
  by (cases v) (auto intro: safe_True safe_as_str)

lemma safe_saveFileToDB:
  assumes "typed_driver drv" "quiet drv I"
  shows "safe I S (saveFileToDB drv b d cgi up n i m ct c) (\<lambda>_. True) {}"
proof -
  let ?V = "\<lambda>y. y \<noteq> Panic \<and> (\<forall>v. y = Ok v \<longrightarrow> is_text v)"
  have last: "safe I (insert stepSaveFileToDBNum S) (case rv of
           Ok v \<Rightarrow> andThen (setStepInfo stepSaveFileToDBNum stm stm True)
                    (\<lambda>_. case v of O_Nil \<Rightarrow> ret [] | _ \<Rightarrow> lift (as_str v))
         | Err e \<Rightarrow> ret [] | Panic \<Rightarrow> lift Panic | Running \<Rightarrow> lift Running) (\<lambda>_. True) {}"
    if "?V rv" for rv stm
  proof (cases rv)
    case (Ok v)
    with that have "is_text v" by simp
    then show ?thesis using Ok
      by (simp del: out_val.case) (intro safe_then_info [OF assms(2)] insertI1 safe_text)
  qed (use that in \<open>auto intro: safe_True safe_lift\<close>)
  have read: "safe_when (went_well drv) I T (andThen (query (\<lambda>r. drv_value drv 0 ''ret_name'' (db r))) k) W B"
    if "\<And>rv. ?V rv \<Longrightarrow> safe I T (k rv) W B" for k W B T
  proof (rule safe_when_then [OF _ _ safe_when_safe [OF that]])
    show "safe_when (went_well drv) I T (query (\<lambda>r. drv_value drv 0 ''ret_name'' (db r))) ?V {}"
      using typedD(10) [OF assms(1)] by (auto simp: safe_when_def query_def answers_in_def)
  qed (auto simp: keeps_def query_def)
  show ?thesis
    unfolding saveFileToDB_def Let_def
    by (rule safe_step [OF assms(2), where A = "{}"])
       (intro safe_then_binds safe_then_query safe_then_info [OF assms(2)] insertI1 safe_after_exec assms
          safe_after_check read last; assumption)
qed

lemma safe_saveFile:
  assumes "typed_driver drv" "quiet drv I" "\<And>f. readFile E f \<noteq> Panic"
  shows "safe I S (saveFile E drv b d cgi up fhs) (\<lambda>ns. length ns = length fhs) {}"
proof (induction fhs)
  case Nil
  show ?case unfolding saveFile.simps by (rule safe_ret) simp
next
  case (Cons fh fhs)
  have bytes: "safe I S (lift (file_bytes E fh)) (\<lambda>_. True) {}"
    by (rule safe_lift) (use assms(3) in \<open>auto simp: file_bytes_def split: option.splits\<close>)
  have one: "safe I S (case Header fh of
          None \<Rightarrow> ret (Filename fh)
        | Some h \<Rightarrow>
            andThen (lift (file_bytes E fh)) (\<lambda>c.
            saveFileToDB drv b d cgi up
              (ExtractFileName (header_get h ''Content-Disposition'')) (LastArg fh)
              (header_get h ''Content-Type'') (header_get h ''Content-Type'') c)) (\<lambda>_. True) {}"
    by (cases "Header fh")
       (auto intro!: safe_True safe_then_any [OF bytes] safe_saveFileToDB [OF assms(1,2)])
  have rest: "safe I S (andThen (saveFile E drv b d cgi up fhs) (\<lambda>ns. ret (n # ns)))
      (\<lambda>ns. length ns = length (fh # fhs)) {}" for n
    by (rule safe_then [OF Cons]) (rule safe_ret, simp)
  show ?case unfolding saveFile.simps by (rule safe_then_any [OF one rest])
qed

lemma safe_run_files:
  assumes "typed_driver drv" "quiet drv I" "\<And>f. readFile E f \<noteq> Panic" "\<forall>(n, fhs) \<in> set fs. fhs \<noteq> []"
  shows "safe I S (run_files E drv p sp b d cgi up fs x) (\<lambda>_. True) {}"
  using assms(4)
proof (induction fs arbitrary: x)
  case Nil
  show ?case unfolding run_files.simps by (rule safe_True)
next
  case (Cons f fs)
  obtain n fhs where f: "f = (n, fhs)" by fastforce
  with Cons have "fhs \<noteq> []" by simp
  then have names: "ns \<noteq> []" if "length ns = length fhs" for ns :: "string list" using that by auto
  show ?case unfolding f run_files.simps
    by (rule safe_then [OF safe_saveFile [OF assms(1-3)]])
       (intro safe_then_any [OF safe_prepare_arg] safe_then_any [OF safe_first_value] names Cons.IH;
        use Cons.prems in simp)
qed

lemma safe_run_params:
  assumes "\<forall>(n, vs) \<in> set ps. vs \<noteq> []"
  shows "safe I S (run_params drv p sp ps x) (\<lambda>_. True) {}"
  using assms
proof (induction ps arbitrary: x)
  case Nil
  show ?case unfolding run_params.simps by (rule safe_True)
next
  case (Cons f fs)
  obtain n vs where f: "f = (n, vs)" by fastforce
  with Cons have "vs \<noteq> []" by simp
  with Cons show ?case unfolding f run_params.simps Let_def
    by (intro safe_if safe_then_any [OF safe_prepare_arg] safe_then_any [OF safe_first_value] Cons.IH) simp_all
qed

lemma keeps_db_res: "keeps db (set_res f)"
  by (simp add: keeps_def set_res_def update_def)

lemma safe_when_res:
  "quiet drv I \<Longrightarrow> (\<And>x. safe_when P I S (m x) W B) \<Longrightarrow> safe_when P I S (andThen (set_res f) m) W B"
  by (rule safe_when_then [OF safe_when_safe [OF safe_set_res] keeps_db_res])

lemma safe_when_query:
  "(\<And>x. safe_when P I S (m x) W B) \<Longrightarrow> safe_when P I S (andThen (query f) m) W B"
  by (rule safe_when_then [OF safe_when_safe [OF safe_query [where V = "\<lambda>_. True"]]])
     (auto simp: keeps_def query_def)

lemma safe_when_text:
  assumes "is_text v" "\<And>x. safe_when P I S (m x) W B"
  shows "safe_when P I S (andThen (case v of O_Nil \<Rightarrow> ret [] | _ \<Rightarrow> lift (as_str v)) m) W B"
  by (rule safe_when_then [OF safe_when_safe [OF safe_text [OF assms(1)]]])
     (auto simp: assms(2) keeps_def ret_def lift_def split: out_val.splits)

lemma safe_when_headers:
  assumes "typed_driver drv" "quiet drv I" "\<And>ct. safe_when (went_well drv) I S (k ct) W B"
  shows "safe_when (went_well drv) I S (andThen (read_headers drv) k) W B"
proof -
  let ?hdr = "\<lambda>hv. case hv of O_Nil \<Rightarrow> ret ()
        | _ \<Rightarrow> andThen (lift (as_str hv)) (\<lambda>s. set_res (\<lambda>res. res\<lparr>Headers := Some (parseHeaders s)\<rparr>))"
  have hdr: "safe I S (?hdr hv) (\<lambda>_. True) {}" if "is_text hv" for hv
    using that by (cases hv) (auto intro: safe_True intro!: safe_then_str safe_set_res [OF assms(2)])
  have hdr_db: "keeps db (?hdr hv)" for hv
    by (cases hv) (auto simp: keeps_def ret_def andThen_def lift_def set_res_def update_def split: res.splits)
  have all: "safe_when (went_well drv) I S (read_headers drv) (\<lambda>_. True) {}"
    unfolding read_headers_def Let_def case_prod_beta
    by (intro typedD [OF assms(1), THEN safe_when_value] safe_when_text safe_when_query
        safe_when_then [OF safe_when_safe [OF hdr] hdr_db] safe_when_res [OF assms(2)]
        safe_when_safe [OF safe_True]; assumption)
  have "keeps db (read_headers drv)"
    unfolding read_headers_def Let_def case_prod_beta
    by (intro keeps_andThen keeps_db_res keeps_ret hdr_db)
       (auto simp: keeps_def value_of_def ret_def lift_def query_def split: out_val.splits)
  from safe_when_then [OF all this] assms(3) show ?thesis by blast
qed

lemma andThen_value: "drv_value drv 0 k (db r) = Ok v \<Longrightarrow> andThen (value_of drv k) f r = f v r"
  by (simp add: andThen_def value_of_def)

lemma andThen_lift_Ok: "andThen (lift (Ok x)) f r = f x r"
  by (simp add: andThen_def lift_def)

lemma safe_read_page:
  assumes "typed_driver drv" "no_null_chunk drv" "quiet drv I"
  shows "safe_when (went_well drv) I S (read_page E drv ct) (\<lambda>_. True) {}"
  unfolding safe_when_def
proof (intro allI impI)
  fix r y r'
  assume r: "went_well drv (db r)" "steps_open I S r" and eq: "read_page E drv ct r = (y, r')"
  let ?tail = "\<lambda>s. andThen (set_res (\<lambda>res. res\<lparr>Content := Content res @ addCR s\<rparr>)) (\<lambda>_.
       andThen (value_of drv ''bNextChunkExists'') (\<lambda>nv.
       andThen (lift (as_int32 nv)) (\<lambda>n.
       andThen (if n \<noteq> 0 then ignore_error (getRestChunks E drv) else ret ()) (\<lambda>_.
       andThen (set_res (\<lambda>res.
         let c = fixMeta (Content res); ct = fst (fixContentType E ct)
         in res\<lparr>Content := c, ContentType := (if ct = [] then detectContentType E c else ct)\<rparr>))
       (\<lambda>_. ret True)))))"
  have tail: "safe_when (page_there drv) I S (?tail s) (\<lambda>_. True) {}" for s
    by (intro safe_when_res [OF assms(3)] safe_when_value [OF typedD(8) [OF assms(1)]] safe_when_safe
        safe_then_int safe_then_res [OF assms(3)] safe_True
        safe_then_any [OF safe_if, OF safe_ignore, OF safe_getRestChunks [OF assms]])
       assumption
  show "y \<noteq> Panic \<and> steps_open I S r' \<and> (\<forall>x. y = Ok x \<longrightarrow> True \<and> steps_open I (S \<union> {}) r')"
  proof (cases "drv_value drv 0 ''content__'' (db r)")
    case (Ok v)
    with typedD(7) [OF assms(1)] r(1) have "is_text v" by (auto simp: answers_in_def)
    show ?thesis
    proof (cases "v = O_Nil")
      case True
      with Ok eq r(2) show ?thesis by (auto simp: read_page_def andThen_def value_of_def ret_def)
    next
      case False
      with \<open>is_text v\<close> obtain s where v: "v = O_Str s" by (cases v) auto
      with Ok r(1) have there: "page_there drv (db r)" by (auto simp: page_there_def)
      have "read_page E drv ct r = ?tail s r"
        using v unfolding read_page_def andThen_value [OF Ok]
        by (simp only: out_val.distinct if_False as_str_def out_val.case andThen_lift_Ok)
      with eq have "?tail s r = (y, r')" by simp
      from tail [of s, unfolded safe_when_def, rule_format, OF there r(2) this] show ?thesis by simp
    qed
  next
    case Panic
    with typedD(7) [OF assms(1)] r(1) show ?thesis by (auto simp: answers_in_def)
  qed (use eq r(2) in \<open>auto simp: read_page_def andThen_def value_of_def\<close>)
qed

lemma safe_read_file:
  assumes "typed_driver drv" "quiet drv I"
  shows "safe_when (went_well drv) I S (read_file E drv) (\<lambda>_. True) {}"
proof -
  have lob: "safe I S (case v of
        O_Lob None \<Rightarrow> ret True
      | O_Lob (Some l) \<Rightarrow>
          if (case lob_size l of Ok n \<Rightarrow> n = 0 | _ \<Rightarrow> True) then ret True
          else
            andThen (lift (lob_data l)) (\<lambda>b.
            andThen (set_res (\<lambda>res. res\<lparr>Content := b,
              ContentType := (if ContentType res = [] then detectContentType E b else ContentType res)\<rparr>))
            (\<lambda>_. ret True))
      | O_Nil \<Rightarrow> fail (errgo_Newf ''data is not *ExternalLobVar, but <nil>'')
      | O_Int i \<Rightarrow> fail (errgo_Newf ''data is not *ExternalLobVar, but int32'')
      | O_Str s \<Rightarrow> fail (errgo_Newf ''data is not *ExternalLobVar, but string'')) (\<lambda>_. True) {}"
    if ok: "lob_ok v" for v
  proof (cases v)
    case (O_Lob l)
    show ?thesis
    proof (cases l)
      case (Some x)
      with ok O_Lob have "lob_data x \<noteq> Panic" by simp
      then have "safe I S (lift (lob_data x)) (\<lambda>_. True) {}" by (rule safe_lift) simp
      note data = safe_then_any [OF this]
      show ?thesis unfolding O_Lob Some out_val.case option.case
        by (intro safe_if safe_True data safe_then_res [OF assms(2)])
    qed (simp add: O_Lob safe_True)
  qed (simp_all add: safe_fail)
  show ?thesis
    unfolding read_file_def
    by (intro safe_when_value [OF typedD(9) [OF assms(1)]] safe_when_safe lob; assumption)
qed

lemma safe_read_answer:
  assumes "typed_driver drv" "no_null_chunk drv" "quiet drv I" "stepRunNum \<in> S"
  shows "safe_when (ran drv) I S (read_answer E drv stm shown) (\<lambda>_. True) {}"
proof -
  have last: "safe I S (if \<not> more then ret () else andThen (set_res f) (\<lambda>_. setStepInfo stepRunNum stm shown True))
      (\<lambda>_. True) {}" for more f
    by (intro safe_if safe_True safe_then_res [OF assms(3)] safe_setStepInfo [OF assms(3,4)])
  have pick: "safe_when (went_well drv) I S (if rc = (0::int) then read_page E drv ct
              else if rc = 1 then read_file E drv else ret True) (\<lambda>_. True) {}" for rc ct
    by (intro safe_when_if safe_read_page safe_read_file safe_when_safe [OF safe_True] assms)
  show ?thesis
    unfolding read_answer_def
    by (intro safe_after_check [OF assms(1)] safe_when_headers [OF assms(1,3)]
        safe_when_value [OF typedD(6) [OF assms(1)]] safe_when_lift [OF safe_as_int]
        safe_when_andThen [OF pick] last; assumption)
qed

lemma Describe_ok:
  assumes "typed_driver drv"
  shows "Describe (drv_describe drv d) dbn p pl \<noteq> Panic"
proof -
  have "exec_short (drv_describe drv d) p pkg ts \<noteq> Panic" "exec_long (drv_describe drv d) n q \<noteq> Panic"
    for p pkg ts n q
    using assms unfolding typed_driver_def by blast+
  then show ?thesis
    by (auto simp: Describe_def Let_def bind_res_Panic split: option.splits if_splits)
qed

lemma safe_describe_step:
  fixes drv :: "'a driver"
  assumes "typed_driver drv" "quiet drv I"
  shows "safe I S (describe_step drv p) (\<lambda>_. True) {}"
  unfolding describe_step_def
proof (rule safe_step [OF assms(2), where A = "{}"], rule safeI)
  fix r :: "'a oracleTasker" and y r'
  let ?d = "Describe (drv_describe drv (db r)) (connStr r) p (plist_cache r)"
  let ?r = "case ?d of Ok pl \<Rightarrow> r\<lparr>plist_cache := pl\<rparr> | _ \<Rightarrow> r"
  let ?stm = "''describe procedure '' @ in_quotes p"
  assume r: "steps_open I (insert stepDescribeNum S) r"
    and eq: "(let d = ?d; stm = ?stm; r' = (case d of Ok pl \<Rightarrow> r\<lparr>plist_cache := pl\<rparr> | _ \<Rightarrow> r)
             in case d of
                  Panic \<Rightarrow> (Panic, r')
                | Running \<Rightarrow> (Running, r')
                | _ \<Rightarrow> andThen (setStepInfo stepDescribeNum stm stm (case d of Ok _ \<Rightarrow> True | _ \<Rightarrow> False))
                         (\<lambda>_. lift (bind_res d (\<lambda>_. Ok ()))) r') = (y, r')"
  have r1: "steps_open I (insert stepDescribeNum S) ?r"
    using r by (auto simp: steps_open_def quietD(3) [OF assms(2)] split: res.splits)
  have m: "safe I (insert stepDescribeNum S)
      (andThen (setStepInfo stepDescribeNum ?stm ?stm b) (\<lambda>_. lift (bind_res ?d (\<lambda>_. Ok ())))) (\<lambda>_. True) {}" for b
    using Describe_ok [OF assms(1)]
    by (intro safe_then_info [OF assms(2)] insertI1 safe_lift) (simp_all add: bind_res_Panic)
  show "y \<noteq> Panic \<and> steps_open I (insert stepDescribeNum S) r' \<and>
      (\<forall>x. y = Ok x \<longrightarrow> True \<and> steps_open I (insert stepDescribeNum S \<union> {}) r')"
  proof (cases "?d = Running")
    case True
    with eq r show ?thesis by auto
  next
    case False
    with Describe_ok [OF assms(1)] eq have
      "andThen (setStepInfo stepDescribeNum ?stm ?stm (case ?d of Ok _ \<Rightarrow> True | _ \<Rightarrow> False))
         (\<lambda>_. lift (bind_res ?d (\<lambda>_. Ok ()))) ?r = (y, r')"
      by (auto simp: Let_def split: res.splits)
    from safeD [OF m r1 this] show ?thesis by simp
  qed
qed

text \<open>A request the server builds: every parameter has a value, every form field a file.\<close>

definition request_ok :: "run_req \<Rightarrow> bool" where
  "request_ok q =
     ((\<forall>(n, vs) \<in> set (urlParams q). vs \<noteq> []) \<and>
      (\<forall>f. reqForm q = Some f \<longrightarrow> (\<forall>(n, fhs) \<in> set (form_File f). fhs \<noteq> [])))"

lemma safe_run_args_part:
  assumes "typed_driver drv" "quiet drv I" "\<And>f. readFile E f \<noteq> Panic" "request_ok q"
  shows "safe I S (run_args_part E drv q parts cgi x) (\<lambda>_. True) {}"
proof -
  have files: "safe I S (case reqForm q of
             None \<Rightarrow> ret x
           | Some f \<Rightarrow> run_files E drv (procName q) (paramStoreProc q) (beforeScript q) (documentTable q)
                        cgi (urlParams q) (form_File f) x) (\<lambda>_. True) {}"
    using assms(4) safe_run_files [OF assms(1-3)]
    by (cases "reqForm q") (auto simp: safe_True request_ok_def)
  have ps: "\<forall>(n, vs) \<in> set (urlParams q). vs \<noteq> []" using assms(4) by (simp add: request_ok_def)
  have pkg: "safe I S (\<lambda>r. (let (_, pkg, e) = ProcedureInfo (plist_cache r) (connStr r) (procName q)
                      in (bind_res (of_error e) (\<lambda>_. Ok pkg), r))) (\<lambda>_. True) {}"
    unfolding Let_def case_prod_beta
    by (rule safe_read) (auto simp: of_error_def split: option.splits)
  show ?thesis
    unfolding run_args_part_def
    by (intro safe_if safe_then_any [OF safe_resource_params] safe_then_binds safe_True
        safe_then_any [OF files] safe_then_any [OF safe_run_params [OF ps]] safe_then_any [OF pkg])
qed

lemma safe_run:
  assumes "typed_driver drv" "quiet drv I" "\<And>f. readFile E f \<noteq> Panic" "request_ok q" "no_null_chunk drv"
  shows "safe I S (run E drv q) (\<lambda>_. True) {}"
proof -
  have block: "safe I (insert stepRunNum S) (run_block E drv q parts cgi) (\<lambda>_. True) {}" for parts cgi
    unfolding run_block_def Let_def
    by (intro safe_then_binds safe_then_any [OF safe_run_args_part [OF assms(1-4)]] safe_then_query
        safe_then_info [OF assms(2)] insertI1 safe_after_exec assms(1,2,5) safe_read_answer)
  have first: "safe I S (if b then ret () else describe_step drv (procName q)) (\<lambda>_. True) {}" for b
    by (intro safe_if safe_True safe_describe_step assms)
  show ?thesis
    unfolding run_def Let_def
    by (rule safe_then_any [OF first], rule safe_step [OF assms(2)], rule block)
qed

end
