(* ===== verification/Tasker_Props.thy ===== *)
theory Tasker_Props
  imports Tasker_Safe
begin

text \<open>
  What a tasker promises: what a request leaves behind when it succeeds and when it fails, that
  it does not end the process when the database and the driver keep their promises, which connection it works on, and how the rest of a page is read.
\<close>

section \<open>Connecting and disconnecting\<close>

lemma andThen_Ok:
  "andThen m k r = (Ok y, r') \<longleftrightarrow> (\<exists>x r1. m r = (Ok x, r1) \<and> k x r1 = (Ok y, r'))"
  by (auto simp: andThen_def split: prod.splits res.splits)

lemma andThen_step: "m r = (Ok x, r1) \<Longrightarrow> andThen m k r = k x r1"
  by (simp add: andThen_def)

lemma andThen_update [simp]: "andThen (update f) k r = k () (f r)"
  by (simp add: andThen_def update_def)

lemma deferred_Ok:
  "deferred m fin r = (Ok y, r') \<Longrightarrow> \<exists>r1 z. m r = (Ok y, r1) \<and> fin r1 = (z, r')"
  by (auto simp: deferred_def Let_def split: prod.splits res.splits)

lemma setStepInfo_open:
  "n \<in> dom (logSteps r) \<Longrightarrow> \<exists>l. setStepInfo n a b c r = (Ok (), r\<lparr>logSteps := l\<rparr>)"
  by (auto simp: setStepInfo_def)

definition opened :: "'d driver \<Rightarrow> nat \<Rightarrow> string \<Rightarrow> 'd oracleTasker \<Rightarrow> 'd oracleTasker" where
  "opened drv n ty r = snd (openStep drv n ty r)"

lemma andThen_open: "andThen (openStep drv n ty) k r = k () (opened drv n ty r)"
  by (simp add: opened_def openStep_def andThen_def update_def)

lemma opened_sel [simp]:
  "n \<in> dom (logSteps (opened drv n ty r))" "conn (opened drv n ty r) = conn r"
  "db (opened drv n ty r) = db r" "counters (opened drv n ty r) = counters r"
  by (simp_all add: opened_def openStep_def update_def counters_def)

lemma disconnect_sel [simp]:
  "fst (disconnect drv r) = Ok ()" "\<not> conn (snd (disconnect drv r))"
  "conn r \<Longrightarrow> credentials (snd (disconnect drv r)) = (False, [], [], [])"
  "conn r \<Longrightarrow> sessID (snd (disconnect drv r)) = []"
  "out_res (snd (disconnect drv r)) = out_res r" "dumps (snd (disconnect drv r)) = dumps r"
  "logErrorsNum (snd (disconnect drv r)) = logErrorsNum r"
  "logRequestProceeded (snd (disconnect drv r)) = logRequestProceeded r"
  "stateIsWorking (snd (disconnect drv r)) = stateIsWorking r"
  by (cases "drv_connected drv 0 (db r)";
      simp add: disconnect_def andThen_def openStep_def update_def setStepInfo_def closeStep_def
        credentials_def)+

lemma disconnect_pair: "disconnect drv r = (Ok (), snd (disconnect drv r))"
  by (metis disconnect_sel(1) prod.collapse)

lemma disconnect_counters [simp]: "counters (snd (disconnect drv r)) = counters r"
  by (simp add: counters_def)

text \<open>The body of a fresh connect: everything after the step is opened.\<close>

definition connect_rest :: "'d driver \<Rightarrow> string \<Rightarrow> string \<Rightarrow> string \<Rightarrow> ('d, unit) meth" where
  "connect_rest drv u p c =
     andThen (call_driver (drv_connect drv 0 u p c)) (\<lambda>_.
     andThen (update (\<lambda>r. r\<lparr>connUserName := u, connUserPass := p, connStr := c\<rparr>)) (\<lambda>_.
     andThen (evalSessionID drv) (\<lambda>_. setStepInfo stepConnectNum ''connect'' ''connect'' True)))"

definition connect_body :: "'d driver \<Rightarrow> string \<Rightarrow> string \<Rightarrow> string \<Rightarrow> ('d, unit) meth" where
  "connect_body drv u p c =
     andThen (setStepInfo stepConnectNum ''connect'' ''connect'' False) (\<lambda>_.
     andThen (update (\<lambda>r. r\<lparr>conn := True\<rparr>)) (\<lambda>_. connect_rest drv u p c))"

lemma connect_new:
  assumes "\<not> conn r \<or> connUserName r \<noteq> u \<or> connUserPass r \<noteq> p \<or> connStr r \<noteq> c"
  shows "connect drv u p c r =
    andThen (openStep drv stepConnectNum ''connect'')
      (\<lambda>_. deferred (connect_body drv u p c) (closeStep drv stepConnectNum)) (snd (disconnect drv r))"
proof -
  have "connect drv u p c r = andThen (disconnect drv) (\<lambda>_. andThen (openStep drv stepConnectNum ''connect'')
      (\<lambda>_. deferred (connect_body drv u p c) (closeStep drv stepConnectNum))) r"
    unfolding connect_def connect_body_def connect_rest_def if_P [OF assms] ..
  also have "\<dots> = andThen (openStep drv stepConnectNum ''connect'')
      (\<lambda>_. deferred (connect_body drv u p c) (closeStep drv stepConnectNum)) (snd (disconnect drv r))"
    by (rule andThen_step [OF disconnect_pair])
  finally show ?thesis .
qed

lemma quiet_True: "quiet drv (\<lambda>_. True)"
  by (simp add: quiet_def)

lemma safe_call_True: "safe (\<lambda>_. True) S (call_driver f) (\<lambda>_. True) {}"
  by (auto simp: safe_def call_driver_def of_error_def steps_open_def split: prod.splits option.splits)

lemma safe_evalSessionID:
  assumes "typed_driver drv" "quiet drv I"
  shows "safe I S (evalSessionID drv) (\<lambda>_. True) {}"
proof -
  have row: "safe_when (ran drv) I T (\<lambda>r. (drv_fetch drv 0 (db r), r)) (\<lambda>row. \<exists>s vs. row = O_Str s # vs) {}" for T
    using typed_fetch [OF assms(1)] by (auto simp: safe_when_def)
  have row_db: "keeps db (\<lambda>r. (drv_fetch drv 0 (db r), r))" by (simp add: keeps_def)
  have str: "safe I T (lift (first_string row)) (\<lambda>_. True) {}" if "\<exists>s vs. row = O_Str s # vs" for row T
    using that by (auto simp: first_string_def as_str_def intro!: safe_lift)
  have upd: "safe I T (update (\<lambda>r. r\<lparr>sessID := s\<rparr>)) (\<lambda>_. True) {}" for s T
    by (rule safe_update) (simp_all add: quietD(4) [OF assms(2)])
  show ?thesis
    unfolding evalSessionID_def
    by (rule safe_step [OF assms(2), where A = "{}"])
       (intro safe_then_any [OF upd] safe_then_query safe_then_info [OF assms(2)] insertI1
          safe_after_exec assms(2) safe_when_then [OF row row_db] safe_when_safe safe_then_any [OF str]
          safe_setStepInfo [OF assms(2)]; assumption)
qed

lemma safe_connect_body:
  assumes "typed_driver drv"
  shows "safe (\<lambda>_. True) (insert stepConnectNum S) (connect_body drv u p c) (\<lambda>_. True) {}"
proof -
  have upd: "safe (\<lambda>_. True) T (update f) (\<lambda>_. True) {}"
    if "\<And>r. logSteps (f r) = logSteps r" for f :: "'a oracleTasker \<Rightarrow> 'a oracleTasker" and T
    by (rule safe_update) (simp_all add: that)
  show ?thesis
    unfolding connect_body_def connect_rest_def
    by (intro safe_then_info [OF quiet_True] insertI1 safe_then_any [OF upd] safe_then_any [OF safe_call_True]
        safe_then_any [OF safe_evalSessionID [OF assms quiet_True]] safe_setStepInfo [OF quiet_True]) simp_all
qed

lemma keeps_disconnect: "keeps counters (disconnect drv)"
  by (simp add: keeps_def)

lemma keeps_connect: "keeps counters (connect drv u p c)"
proof -
  have "keeps counters (connect_body drv u p c)"
    unfolding connect_body_def connect_rest_def
    by (intro count.view_rules count.evalSessionID keeps_update) (simp_all add: counters_def)
  then have "keeps counters (andThen (openStep drv stepConnectNum ''connect'')
      (\<lambda>_. deferred (connect_body drv u p c) (closeStep drv stepConnectNum)))"
    by (intro count.view_rules)
  then show ?thesis
    unfolding keeps_def using connect_new [of _ u p c drv]
    by (metis (no_types, lifting) connect_def disconnect_counters snd_conv)
qed

lemma typed_connect:
  assumes "typed_driver drv"
  shows "drv_connect drv 0 u p c d = (None, d') \<Longrightarrow> drv_connected drv 0 d'"
    "drv_connected drv 0 (snd (drv_exec drv 0 stm ps d)) = drv_connected drv 0 d"
  using assms unfolding typed_driver_def by blast+

definition connected :: "'d driver \<Rightarrow> 'd oracleTasker \<Rightarrow> bool" where
  "connected drv r = drv_connected drv 0 (db r)"

lemma quiet_connected: "typed_driver drv \<Longrightarrow> quiet drv (connected drv)"
  by (simp add: quiet_def connected_def typed_connect(2))

lemma keeps_creds_eval: "keeps credentials (evalSessionID drv)"
  by (rule cred.evalSessionID) (simp add: credentials_def)

interpretation linked: quiet_view conn
  by unfold_locales simp_all

lemma connect_rest_conn: "conn r \<Longrightarrow> conn (snd (connect_rest drv u p c r))"
proof -
  have "keeps conn (connect_rest drv u p c)"
    unfolding connect_rest_def
    by (intro linked.view_rules keeps_update linked.evalSessionID) simp_all
  then show "conn r \<Longrightarrow> conn (snd (connect_rest drv u p c r))" by (simp add: keeps_def)
qed

lemma connect_body_conn:
  assumes "stepConnectNum \<in> dom (logSteps r)"
  shows "conn (snd (connect_body drv u p c r))"
proof -
  obtain r1 where r1: "setStepInfo stepConnectNum ''connect'' ''connect'' False r = (Ok (), r1)"
    using setStepInfo_open [OF assms] by blast
  show ?thesis unfolding connect_body_def
    by (simp add: andThen_step [of "setStepInfo stepConnectNum ''connect'' ''connect'' False" r, OF r1] connect_rest_conn)
qed

lemma connect_rest_Ok:
  assumes ty: "typed_driver drv" and "connect_rest drv u p c r = (Ok (), r')" "conn r"
    and open_step: "stepConnectNum \<in> dom (logSteps r)"
  shows "connected drv r'" "credentials r' = (True, u, p, c)"
proof -
  let ?set = "\<lambda>r :: 'a oracleTasker. r\<lparr>connUserName := u, connUserPass := p, connStr := c\<rparr>"
  obtain r1 r2 where
    r1: "call_driver (drv_connect drv 0 u p c) r = (Ok (), r1)" and
    r2: "evalSessionID drv (?set r1) = (Ok (), r2)" and
    r3: "setStepInfo stepConnectNum ''connect'' ''connect'' True r2 = (Ok (), r')"
    using assms(2) by (auto simp: connect_rest_def andThen_Ok update_def)
  obtain d where d: "drv_connect drv 0 u p c (db r) = (None, d)" "r1 = r\<lparr>db := d\<rparr>"
    using r1 by (auto simp: call_driver_def of_error_def split: prod.splits option.splits)
  have "steps_open (connected drv) {stepConnectNum} (?set r1)"
    using typed_connect(1) [OF ty d(1)] d(2) open_step by (simp add: steps_open_def connected_def)
  from safeD(2) [OF safe_evalSessionID [OF ty quiet_connected [OF ty]] this r2]
  have "connected drv r2" by (simp add: steps_open_def)
  moreover have "credentials r2 = credentials (?set r1)"
    using keeps_creds_eval [of drv] r2 by (simp add: keeps_def) (metis snd_conv)
  moreover have "\<exists>l. r' = r2\<lparr>logSteps := l\<rparr>" using r3 by (auto simp: setStepInfo_def split: option.splits)
  ultimately show "connected drv r'" "credentials r' = (True, u, p, c)"
    using d(2) assms(3) by (auto simp: connected_def credentials_def)
qed

lemma closeStep_open:
  "n \<in> dom (logSteps r) \<Longrightarrow> \<exists>l. closeStep drv n r = (Ok (), r\<lparr>logSteps := l\<rparr>)"
  by (auto simp: closeStep_def)

lemma connect_new_outcome:
  assumes ty: "typed_driver drv" and r: "stepConnectNum \<in> dom (logSteps r)"
    and eq: "deferred (connect_body drv u p c) (closeStep drv stepConnectNum) r = (y, r')"
  shows "y \<noteq> Panic" "conn r'" "y = Ok () \<Longrightarrow> connected drv r' \<and> credentials r' = (True, u, p, c)"
proof -
  obtain z r1 where z: "connect_body drv u p c r = (z, r1)" by fastforce
  have so: "steps_open (\<lambda>_. True) (insert stepConnectNum {}) r" using r by (simp add: steps_open_def)
  note body = safeD [OF safe_connect_body [OF ty] so z]
  have "stepConnectNum \<in> dom (logSteps r1)" using body(2) by (simp add: steps_open_def)
  then obtain l where l: "closeStep drv stepConnectNum r1 = (Ok (), r1\<lparr>logSteps := l\<rparr>)"
    using closeStep_open by blast
  then have y: "y = z" "r' = r1\<lparr>logSteps := l\<rparr>" using eq z by (simp_all add: deferred_def)
  show "y \<noteq> Panic" using body(1) y by simp
  show "conn r'" using connect_body_conn [OF r, of drv u p c] z y by simp
  show "connected drv r' \<and> credentials r' = (True, u, p, c)" if "y = Ok ()"
  proof -
    obtain k where k: "setStepInfo stepConnectNum ''connect'' ''connect'' False r = (Ok (), r\<lparr>logSteps := k\<rparr>)"
      "stepConnectNum \<in> dom k"
      using r by (auto simp: setStepInfo_def)
    then have "connect_rest drv u p c (r\<lparr>logSteps := k, conn := True\<rparr>) = (Ok (), r1)"
      using z that y(1) unfolding connect_body_def by (simp add: andThen_step [of "setStepInfo stepConnectNum ''connect'' ''connect'' False" r, OF k(1)])
    from connect_rest_Ok [OF ty this] k(2) y(2) show ?thesis
      by (simp add: connected_def credentials_def)
  qed
qed

lemma connect_outcome:
  assumes ty: "typed_driver drv" and inv: "conn r \<longrightarrow> connected drv r"
    and eq: "connect drv u p c r = (y, r')"
  shows "y \<noteq> Panic" "conn r'" "y = Ok () \<Longrightarrow> connected drv r' \<and> credentials r' = (True, u, p, c)"
    "counters r' = counters r"
proof -
  have "y \<noteq> Panic \<and> conn r' \<and> (y = Ok () \<longrightarrow> connected drv r' \<and> credentials r' = (True, u, p, c))"
  proof (cases "\<not> conn r \<or> connUserName r \<noteq> u \<or> connUserPass r \<noteq> p \<or> connStr r \<noteq> c")
    case True
    then have "deferred (connect_body drv u p c) (closeStep drv stepConnectNum)
        (opened drv stepConnectNum ''connect'' (snd (disconnect drv r))) = (y, r')"
      using eq by (simp only: connect_new andThen_open)
    from connect_new_outcome [OF ty opened_sel(1) this] show ?thesis by blast
  next
    case False
    with eq inv show ?thesis by (auto simp: connect_def connected_def credentials_def)
  qed
  then show "y \<noteq> Panic" "conn r'" "y = Ok () \<Longrightarrow> connected drv r' \<and> credentials r' = (True, u, p, c)"
    by blast+
  show "counters r' = counters r" using keeps_connect [of drv u p c] eq by (simp add: keeps_def) (metis snd_conv)
qed

section \<open>The outcome of a request\<close>

lemma finish_error_outcome:
  assumes "conn r"
  shows "\<exists>r'. finish_error E drv u c f cgi bg e r = (Ok (), r') \<and>
     credentials r' = (False, [], [], []) \<and> sessID r' = [] \<and>
     StatusCode (out_res r') = fst (packError e) \<and>
     logRequestProceeded r' = logRequestProceeded r \<and> logErrorsNum r' = logErrorsNum r + 1 \<and>
     (\<exists>d. dumps r' = dumps r @ [(f, d)])"
proof -
  obtain code page b where pe: "packError e = (code, page, b)" by (cases "packError e")
  let ?r1 = "r\<lparr>out_res := (out_res r)\<lparr>StatusCode := code, Content := page\<rparr>\<rparr>"
  obtain d where d: "dumpError drv (rfc1123z E) u c f (cgi_get cgi ''HTTP_REFERER'') e ?r1 =
      (Ok (), ?r1\<lparr>dumps := dumps r @ [(f, d)]\<rparr>)"
    by (simp add: dumpError_def update_def)
  let ?r2 = "?r1\<lparr>dumps := dumps r @ [(f, d)]\<rparr>"
  let ?r3 = "snd (disconnect drv ?r2)"
  let ?r4 = "?r3\<lparr>out_res := (out_res ?r3)\<lparr>Duration := (drv_now drv (db ?r3) - bg) div Second\<rparr>,
      logErrorsNum := logErrorsNum ?r3 + 1\<rparr>"
  have "finish_error E drv u c f cgi bg e r = (Ok (), ?r4)"
    unfolding finish_error_def set_res_def pe
    by (simp only: Let_def case_prod_conv andThen_update
        andThen_step [of "dumpError drv (rfc1123z E) u c f (cgi_get cgi ''HTTP_REFERER'') e", OF d]
        andThen_step [of "disconnect drv", OF disconnect_pair] update_def)
  moreover have "conn ?r2" using assms by simp
  ultimately show ?thesis
    using disconnect_sel(3,4) [of ?r2 drv] by (auto simp: credentials_def pe)
qed

lemma linked_quiet: "typed_driver drv \<Longrightarrow> quiet drv (\<lambda>r. conn r \<longrightarrow> connected drv r)"
  by (simp add: quiet_def connected_def typed_connect(2))

lemma run_outcome:
  assumes "typed_driver drv" "\<And>f. readFile E f \<noteq> Panic" "request_ok q" "no_null_chunk drv"
    and "conn r \<longrightarrow> connected drv r" "run E drv q r = (y, r')"
  shows "y \<noteq> Panic" "conn r' \<longrightarrow> connected drv r'" "credentials r' = credentials r"
    "counters r' = counters r"
proof -
  have "steps_open (\<lambda>r. conn r \<longrightarrow> connected drv r) {} r" using assms(5) by (simp add: steps_open_def)
  from safeD [OF safe_run [OF assms(1) linked_quiet [OF assms(1)] assms(2-4)] this assms(6)]
  show "y \<noteq> Panic" "conn r' \<longrightarrow> connected drv r'" by (simp_all add: steps_open_def)
  show "credentials r' = credentials r" "counters r' = counters r"
    using cred.run [of E drv q] count.run [of E drv q] assms(6)
    by (simp_all add: keeps_def) (metis snd_conv)+
qed

text \<open>What holds after a request that returned: it succeeded and stays connected as its user, or
  it failed, was counted and dumped, and nothing of the connection is left.\<close>

definition succeeded :: "'d driver \<Rightarrow> string \<Rightarrow> string \<Rightarrow> string \<Rightarrow> 'd oracleTasker \<Rightarrow> 'd oracleTasker \<Rightarrow> bool"
where
  "succeeded drv u p c r r' =
     (StatusCode (out_res r') = StatusOK \<and> credentials r' = (True, u, p, c) \<and>
      drv_connected drv 0 (db r') \<and> logErrorsNum r' = logErrorsNum r \<and> dumps r' = dumps r)"

definition failed :: "string \<Rightarrow> 'd oracleTasker \<Rightarrow> 'd oracleTasker \<Rightarrow> bool" where
  "failed dumpFile r r' =
     (StatusCode (out_res r') \<noteq> StatusOK \<and> credentials r' = (False, [], [], []) \<and> sessID r' = [] \<and>
      logErrorsNum r' = logErrorsNum r + 1 \<and> (\<exists>d. dumps r' = dumps r @ [(dumpFile, d)]))"

lemma packError_not_OK: "fst (packError e) \<noteq> StatusOK"
proof (cases "UnMask e")
  case None
  then show ?thesis by (simp add: packError_def status_defs)
next
  case (Some d)
  then obtain c m a n where "d = OracleError c m a n" using UnMask_oracle by blast
  with Some show ?thesis by (simp add: packError_def status_defs)
qed

lemma finish_error_failed:
  assumes "conn r"
  shows "\<exists>r'. finish_error E drv u c f cgi bg e r = (Ok (), r') \<and> failed f r r' \<and>
     logRequestProceeded r' = logRequestProceeded r"
  using finish_error_outcome [OF assms, of E drv u c f cgi bg e] packError_not_OK [of e]
  by (auto simp: failed_def)

lemma failed_counters:
  "failed f r r' \<Longrightarrow> counters r = counters r0 \<Longrightarrow> failed f r0 r'"
  by (auto simp: failed_def counters_def)

text \<open>The two stages of a request, after the log is started.\<close>

lemma request_outcome:
  assumes ty: "typed_driver drv" and rf: "\<And>f. readFile E f \<noteq> Panic" and q: "request_ok q"
    and nn: "no_null_chunk drv"
    and inv: "conn r \<longrightarrow> connected drv r"
    and eq: "on_error (connect drv u p c)
            (finish_error E drv u c f cgi bg)
            (on_error (run E drv q)
              (finish_error E drv u c f cgi bg)
              (update (\<lambda>r. r\<lparr>out_res := (out_res r)\<lparr>StatusCode := StatusOK,
                 Duration := (drv_now drv (db r) - bg) div Second\<rparr>\<rparr>))) r = (y, r')"
  shows "y \<noteq> Panic" "y = Ok () \<Longrightarrow> succeeded drv u p c r r' \<or> failed f r r'"
    "y = Ok () \<Longrightarrow> logRequestProceeded r' = logRequestProceeded r"
proof -
  obtain y1 r1 where c1: "connect drv u p c r = (y1, r1)" by fastforce
  note con = connect_outcome [OF ty inv c1]
  have "y \<noteq> Panic \<and> (y = Ok () \<longrightarrow> (succeeded drv u p c r r' \<or> failed f r r') \<and>
      logRequestProceeded r' = logRequestProceeded r)"
  proof (cases y1)
    case (Err e)
    obtain r2 where "finish_error E drv u c f cgi bg e r1 = (Ok (), r2)" "failed f r1 r2"
      "logRequestProceeded r2 = logRequestProceeded r1"
      using finish_error_failed [OF con(2), of E drv u c f cgi bg e] by blast
    with Err eq c1 con(4) show ?thesis
      by (auto simp: on_error_def counters_def failed_def)
  next
    case (Ok x)
    then have ok: "connected drv r1" "credentials r1 = (True, u, p, c)" using con(3) by simp_all
    obtain y2 r2 where r2: "run E drv q r1 = (y2, r2)" by fastforce
    have inv1: "conn r1 \<longrightarrow> connected drv r1" using ok by simp
    note runs = run_outcome [OF ty rf q nn inv1 r2]
    have c2: "conn r2" using runs(3) ok(2) by (simp add: credentials_def)
    show ?thesis
    proof (cases y2)
      case (Err e)
      obtain r3 where "finish_error E drv u c f cgi bg e r2 = (Ok (), r3)" "failed f r2 r3"
        "logRequestProceeded r3 = logRequestProceeded r2"
        using finish_error_failed [OF c2, of E drv u c f cgi bg e] by blast
      with Err Ok eq c1 r2 con(4) runs(4) show ?thesis
        by (auto simp: on_error_def counters_def failed_def)
    next
      case (Ok z)
      with eq c1 r2 \<open>y1 = Ok x\<close> have
        "r' = r2\<lparr>out_res := (out_res r2)\<lparr>StatusCode := StatusOK,
           Duration := (drv_now drv (db r2) - bg) div Second\<rparr>\<rparr>" "y = Ok ()"
        by (simp_all add: on_error_def update_def)
      with runs con(4) ok c2 show ?thesis
        by (simp add: succeeded_def counters_def credentials_def connected_def)
    qed (use Ok eq c1 r2 runs(1) in \<open>auto simp: on_error_def\<close>)
  qed (use eq c1 con(1) in \<open>auto simp: on_error_def\<close>)
  then show "y \<noteq> Panic" "y = Ok () \<Longrightarrow> succeeded drv u p c r r' \<or> failed f r r'"
    "y = Ok () \<Longrightarrow> logRequestProceeded r' = logRequestProceeded r" by blast+
qed

text \<open>Whatever the fuel, a request does not panic, and when it returns it has succeeded or failed.\<close>

lemma Run_returns:
  assumes "typed_driver drv" "no_null_chunk drv" "\<And>f. readFile E f \<noteq> Panic" "request_ok q" "cgiEnv q \<noteq> []"
    and "conn r \<longrightarrow> drv_connected drv 0 (db r)"
    and "Run E drv sid tid u p c q dumpFile r = (y, r')"
  shows "y \<noteq> Panic \<and>
     (y = Ok () \<longrightarrow>
        (succeeded drv u p c r r' \<or> failed dumpFile r r') \<and> \<not> stateIsWorking r' \<and>
        logRequestProceeded r' = logRequestProceeded r + 1 \<and>
        (conn r' \<longrightarrow> drv_connected drv 0 (db r')))"
proof -
  let ?r0 = "start_log sid tid u p c (procName q) r" and ?bg = "drv_now drv (db r)"
  let ?body = "on_error (connect drv u p c)
            (finish_error E drv u c dumpFile (cgiEnv q) ?bg)
            (on_error (run E drv q)
              (finish_error E drv u c dumpFile (cgiEnv q) ?bg)
              (update (\<lambda>r. r\<lparr>out_res := (out_res r)\<lparr>StatusCode := StatusOK,
                 Duration := (drv_now drv (db r) - ?bg) div Second\<rparr>\<rparr>)))"
  have start: "conn ?r0 \<longrightarrow> connected drv ?r0" "logErrorsNum ?r0 = logErrorsNum r" "dumps ?r0 = dumps r"
    "logRequestProceeded ?r0 = logRequestProceeded r + 1" "db ?r0 = db r"
    using assms(6) by (simp_all add: start_log_def initLog_def connected_def)
  obtain z r1 where z: "?body ?r0 = (z, r1)" by fastforce
  note body = request_outcome [OF assms(1,3,4,2) start(1) z]
  have "Run E drv sid tid u p c q dumpFile r =
      (z, r1\<lparr>stateIsWorking := False, stateLastFinishDT := drv_now drv (db r1)\<rparr>)"
    using assms(5) z start(5) by (simp add: Run_def deferred_def query_def andThen_def update_def)
  then have y: "y = z" "r' = r1\<lparr>stateIsWorking := False, stateLastFinishDT := drv_now drv (db r1)\<rparr>"
    using assms(7) by simp_all
  show ?thesis
    using body start y by (auto simp: succeeded_def failed_def credentials_def)
qed

text \<open>A small driver: its state says whether the session is connected and how many chunks are
  left; every page is \<open><p>\<close>.\<close>

record small_db =
  sd_connected :: bool
  sd_chunks :: "string list"
  sd_broken :: bool

definition small_value :: "string \<Rightarrow> small_db \<Rightarrow> out_val res" where
  "small_value k d =
     (if k = ''sqlerrcode'' \<or> k = ''rc__'' then Ok (O_Int 0)
      else if k = ''bNextChunkExists'' then Ok (O_Int (if tl (sd_chunks d) = [] then 0 else 1))
      else if k = ''lob__'' then Ok (O_Lob None)
      else if k = ''content__'' \<or> k = ''Data''
        then Ok (O_Str (case sd_chunks d of [] \<Rightarrow> ''<p>'' | c # _ \<Rightarrow> c))
      else Ok (O_Str []))"

definition small_driver :: "small_db driver" where
  "small_driver =
     \<lparr>drv_now = (\<lambda>_. 0), drv_connect = (\<lambda>n u p c d. (None, d\<lparr>sd_connected := True\<rparr>)),
      drv_connected = (\<lambda>n d. sd_connected d), drv_close = (\<lambda>n d. (None, d\<lparr>sd_connected := False\<rparr>)),
      drv_free = (\<lambda>n d. d\<lparr>sd_connected := False\<rparr>), drv_new_var = (\<lambda>n d s. None),
      drv_exec = (\<lambda>n stm ps d.
         if sd_broken d then (Some (OracleError 3113 ''end-of-file'' [] 0), d)
         else (None, d\<lparr>sd_chunks := tl (sd_chunks d)\<rparr>)),
      drv_fetch = (\<lambda>n d. Ok [O_Str ''17'']), drv_value = (\<lambda>n. small_value),
      drv_describe = (\<lambda>d. dictionary_db quiet_env (\<lambda>_. None) (\<lambda>_ _. []))\<rparr>"

definition small_env :: env where
  "small_env = \<lparr>rfc1123z = (\<lambda>_. []), detectContentType = (\<lambda>_. ''text/html''),
     parseMediaType = (\<lambda>_. None), formatMediaType = (\<lambda>m _. m), readFile = (\<lambda>_. Ok []), chunk_fuel = 10\<rparr>"

definition small_request :: "string \<Rightarrow> run_req" where
  "small_request proc = \<lparr>paramStoreProc = [], beforeScript = [], afterScript = [], documentTable = [],
     cgiEnv = [(''A'', ''b'')], procName = proc, urlParams = [], reqForm = None\<rparr>"

definition small_tasker :: "bool \<Rightarrow> string list \<Rightarrow> bool \<Rightarrow> small_db oracleTasker" where
  "small_tasker connd cs broken =
     (newTasker 0 ''eval'' ''main'' ''rest'' ''kill'' ''upload''
       \<lparr>sd_connected = connd, sd_chunks = cs, sd_broken = broken\<rparr> Map.empty)\<lparr>conn := connd\<rparr>"

lemma small_typed: "typed_driver small_driver" "no_null_chunk small_driver"
  by (auto simp: typed_driver_def no_null_chunk_def answers_in_def small_driver_def small_value_def
    went_wrong_def dictionary_db_def stm_descr_short_def stm_descr_long_def)

section \<open>Connections\<close>

lemma deferred_close:
  assumes "deferred m (closeStep drv n) r = (Ok y, r')"
  shows "\<exists>r1 l. m r = (Ok y, r1) \<and> r' = r1\<lparr>logSteps := l\<rparr>"
proof -
  obtain z r1 where m: "m r = (z, r1)" by fastforce
  with assms have "z = Ok y" "\<exists>l. r' = r1\<lparr>logSteps := l\<rparr>"
    by (auto simp: deferred_def closeStep_def split: option.splits)
  with m show ?thesis by blast
qed

lemma setStepInfo_Ok: "setStepInfo n a b w r = (Ok (), r') \<Longrightarrow> \<exists>l. r' = r\<lparr>logSteps := l\<rparr>"
  by (auto simp: setStepInfo_def split: option.splits)

lemma evalSessionID_Ok:
  assumes "evalSessionID drv r = (Ok (), r')"
  shows "\<exists>l s vs. drv_exec drv 0 (stmEvalSessionID r) Map.empty (db r) = (None, db r') \<and>
     drv_fetch drv 0 (db r') = Ok (O_Str s # vs) \<and>
     r' = r\<lparr>db := db r', logSteps := l, sessID := s\<rparr>"
proof -
  have str: "first_string row = Ok s \<Longrightarrow> \<exists>vs. row = O_Str s # vs" for row s
    by (auto simp: first_string_def as_str_def split: list.splits out_val.splits)
  obtain r1 l where body: "andThen (update (\<lambda>r. r\<lparr>sessID := []\<rparr>)) (\<lambda>_.
        andThen (query stmEvalSessionID) (\<lambda>stm.
        andThen (setStepInfo stepEvalSid stm stm False) (\<lambda>_.
        andThen (call_driver (drv_exec drv 0 stm Map.empty)) (\<lambda>_.
        andThen (\<lambda>r. (drv_fetch drv 0 (db r), r)) (\<lambda>row.
        andThen (lift (first_string row)) (\<lambda>s.
        andThen (update (\<lambda>r. r\<lparr>sessID := s\<rparr>)) (\<lambda>_.
        setStepInfo stepEvalSid stm stm True))))))) (opened drv stepEvalSid ''evalSessionID'' r) = (Ok (), r1)"
    and r1: "r' = r1\<lparr>logSteps := l\<rparr>"
    using deferred_close [OF assms [unfolded evalSessionID_def andThen_open]] by (elim exE conjE)
  obtain st where st: "opened drv stepEvalSid ''evalSessionID'' r = r\<lparr>logSteps := (logSteps r)(stepEvalSid \<mapsto> st)\<rparr>"
    by (simp add: opened_def openStep_def update_def)
  obtain e d where ex: "drv_exec drv 0 (stmEvalSessionID r) Map.empty (db r) = (e, d)" by fastforce
  note eval = andThen_def update_def query_def setStepInfo_def call_driver_def of_error_def lift_def
  have e: "e = None" using body ex unfolding st by (cases e) (simp_all add: eval)
  obtain row where row: "drv_fetch drv 0 d = Ok row"
    using body ex e unfolding st by (cases "drv_fetch drv 0 d") (simp_all add: eval)
  obtain s where "first_string row = Ok s"
    using body ex e row unfolding st by (cases "first_string row") (simp_all add: eval)
  moreover from this obtain vs where "row = O_Str s # vs" using str by blast
  moreover have "\<exists>k. r1 = r\<lparr>db := d, sessID := s, logSteps := k\<rparr>"
    using body ex e row calculation(1) unfolding st
    by (intro exI [of _ "logSteps r1"]) (auto simp: eval)
  then obtain k where k: "r1 = r\<lparr>db := d, sessID := s, logSteps := k\<rparr>" ..
  have d: "db r' = d" and eq: "r' = r\<lparr>db := d, logSteps := l, sessID := s\<rparr>" unfolding r1 k by simp_all
  have "drv_exec drv 0 (stmEvalSessionID r) Map.empty (db r) = (None, db r')" using ex e d by simp
  moreover have "drv_fetch drv 0 (db r') = Ok (O_Str s # vs)" using row \<open>row = O_Str s # vs\<close> d by simp
  moreover have "r' = r\<lparr>db := db r', logSteps := l, sessID := s\<rparr>" unfolding d by (rule eq)
  ultimately show ?thesis by blast
qed

text \<open>The database after the session that was there is logged off.\<close>

definition logged_off :: "'d driver \<Rightarrow> 'd oracleTasker \<Rightarrow> 'd" where
  "logged_off drv r = (if conn r then snd (drv_close drv 0 (db r)) else db r)"

lemma disconnect_db:
  assumes "conn r \<longrightarrow> drv_connected drv 0 (db r)"
  shows "db (snd (disconnect drv r)) = logged_off drv r"
    "stmEvalSessionID (snd (disconnect drv r)) = stmEvalSessionID r"
  using assms
  by (simp_all add: disconnect_def logged_off_def andThen_def openStep_def update_def setStepInfo_def closeStep_def)

lemma connect_body_Ok:
  assumes "connect_body drv u p c r = (Ok (), r')"
  shows "\<exists>d s vs. drv_connect drv 0 u p c (db r) = (None, d) \<and>
     drv_exec drv 0 (stmEvalSessionID r) Map.empty d = (None, db r') \<and>
     drv_fetch drv 0 (db r') = Ok (O_Str s # vs) \<and> sessID r' = s \<and> credentials r' = (True, u, p, c)"
proof -
  obtain k where k: "setStepInfo stepConnectNum ''connect'' ''connect'' False r = (Ok (), r\<lparr>logSteps := k\<rparr>)"
    using assms by (auto simp: connect_body_def andThen_Ok setStepInfo_def split: option.splits)
  have rest: "connect_rest drv u p c (r\<lparr>logSteps := k, conn := True\<rparr>) = (Ok (), r')"
    using assms by (simp add: connect_body_def andThen_step [where m = "setStepInfo _ _ _ _", OF k])
  obtain e d where e: "drv_connect drv 0 u p c (db r) = (e, d)" by fastforce
  let ?r2 = "r\<lparr>logSteps := k, conn := True, db := d, connUserName := u, connUserPass := p, connStr := c\<rparr>"
  have none: "e = None"
    using rest e by (cases e) (auto simp: connect_rest_def andThen_def call_driver_def of_error_def)
  have "andThen (evalSessionID drv) (\<lambda>_. setStepInfo stepConnectNum ''connect'' ''connect'' True) ?r2 = (Ok (), r')"
    using rest e none
    by (simp add: connect_rest_def call_driver_def of_error_def andThen_step [where m = "call_driver _"])
  then obtain r3 l where r3: "evalSessionID drv ?r2 = (Ok (), r3)" "r' = r3\<lparr>logSteps := l\<rparr>"
    by (auto simp: andThen_Ok dest!: setStepInfo_Ok)
  from evalSessionID_Ok [OF r3(1)] obtain l' s vs where
    exec: "drv_exec drv 0 (stmEvalSessionID r) Map.empty d = (None, db r3)"
      "drv_fetch drv 0 (db r3) = Ok (O_Str s # vs)"
    and eq: "r3 = ?r2\<lparr>db := db r3, logSteps := l', sessID := s\<rparr>" by auto
  have "sessID r3 = s" "credentials r3 = (True, u, p, c)"
    by (subst eq, simp add: credentials_def)+
  with exec e none r3(2) show ?thesis by (simp add: credentials_def)
qed

text \<open>C8: a request with the user, password and connect string of the open session works on that
  session: nothing is asked of the database.  For any other the session that was open is logged off and a
  log-on under the request's user, password and connect string is made: when the database refuses it, this is
  the error; and when \<open>connect\<close> returns without an error, the connection is the one this log-on opened,
  with nothing executed on it but the statement for the session's number.\<close>

theorem connect_credentials:
  assumes "conn r \<longrightarrow> drv_connected drv 0 (db r)"
  shows "(credentials r = (True, u, p, c) \<longrightarrow> connect drv u p c r = (Ok (), r)) \<and>
     (credentials r \<noteq> (True, u, p, c) \<longrightarrow>
        (\<forall>e d. drv_connect drv 0 u p c (logged_off drv r) = (Some e, d) \<longrightarrow> fst (connect drv u p c r) = Err e) \<and>
        (\<forall>r'. connect drv u p c r = (Ok (), r') \<longrightarrow>
           (\<exists>d s vs. drv_connect drv 0 u p c (logged_off drv r) = (None, d) \<and>
              drv_exec drv 0 (stmEvalSessionID r) Map.empty d = (None, db r') \<and>
              drv_fetch drv 0 (db r') = Ok (O_Str s # vs) \<and> sessID r' = s \<and>
              credentials r' = (True, u, p, c))))"
proof (intro conjI impI allI)
  assume "credentials r = (True, u, p, c)"
  with assms show "connect drv u p c r = (Ok (), r)"
    by (auto simp: connect_def credentials_def)
next
  fix e d
  assume "credentials r \<noteq> (True, u, p, c)" and e: "drv_connect drv 0 u p c (logged_off drv r) = (Some e, d)"
  then have "connect drv u p c r = deferred (connect_body drv u p c) (closeStep drv stepConnectNum)
      (opened drv stepConnectNum ''connect'' (snd (disconnect drv r)))"
    by (subst connect_new) (auto simp: credentials_def andThen_open)
  moreover have "db (snd (disconnect drv r)) = logged_off drv r" by (rule disconnect_db(1) [OF assms])
  ultimately show "fst (connect drv u p c r) = Err e"
    using e by (simp add: deferred_def connect_body_def connect_rest_def andThen_def update_def call_driver_def
        of_error_def opened_def openStep_def setStepInfo_def closeStep_def)
next
  fix r'
  assume "credentials r \<noteq> (True, u, p, c)" and eq: "connect drv u p c r = (Ok (), r')"
  let ?r0 = "opened drv stepConnectNum ''connect'' (snd (disconnect drv r))"
  have "deferred (connect_body drv u p c) (closeStep drv stepConnectNum) ?r0 = (Ok (), r')"
    using \<open>credentials r \<noteq> (True, u, p, c)\<close> eq
    by (subst (asm) connect_new) (auto simp: credentials_def andThen_open)
  then obtain r1 where r1: "connect_body drv u p c ?r0 = (Ok (), r1)"
    and same: "db r' = db r1" "sessID r' = sessID r1" "credentials r' = credentials r1"
    by (auto simp: deferred_def closeStep_def credentials_def Let_def split: prod.splits res.splits option.splits)
  have "db ?r0 = logged_off drv r" "stmEvalSessionID ?r0 = stmEvalSessionID r"
    using disconnect_db [OF assms] by (simp_all add: opened_def openStep_def update_def)
  with connect_body_Ok [OF r1] show "\<exists>d s vs. drv_connect drv 0 u p c (logged_off drv r) = (None, d) \<and>
     drv_exec drv 0 (stmEvalSessionID r) Map.empty d = (None, db r') \<and>
     drv_fetch drv 0 (db r') = Ok (O_Str s # vs) \<and> sessID r' = s \<and> credentials r' = (True, u, p, c)"
    unfolding same by metis
qed

theorem connect_credentials_witness:
  "sessID (snd (connect small_driver ''u'' ''p'' ''c'' (small_tasker True [] False))) = ''17'' \<and>
   credentials (snd (connect small_driver ''u'' ''p'' ''c'' (small_tasker True [] False))) =
     (True, ''u'', ''p'', ''c'')"
proof -
  let ?r = "small_tasker True [] False"
  have ok: "fst (connect small_driver ''u'' ''p'' ''c'' ?r) = Ok ()"
    by (simp add: connect_def disconnect_def evalSessionID_def meth_defs openStep_def closeStep_def
      setStepInfo_def step_num_defs small_tasker_def newTasker_def small_driver_def first_string_def
      as_str_def)
  have "conn ?r \<longrightarrow> drv_connected small_driver 0 (db ?r)" "credentials ?r \<noteq> (True, ''u'', ''p'', ''c'')"
    by (simp_all add: small_tasker_def newTasker_def small_driver_def credentials_def)
  with connect_credentials [of ?r small_driver "''u''" "''p''" "''c''"] ok
  obtain d s vs where "drv_fetch small_driver 0 (db (snd (connect small_driver ''u'' ''p'' ''c'' ?r))) = Ok (O_Str s # vs)"
    "sessID (snd (connect small_driver ''u'' ''p'' ''c'' ?r)) = s"
    "credentials (snd (connect small_driver ''u'' ''p'' ''c'' ?r)) = (True, ''u'', ''p'', ''c'')"
    by (metis prod.collapse)
  then show ?thesis by (simp add: small_driver_def)
qed

text \<open>\<open>CloseAndFree\<close> closes the connection but keeps the pointer to it and the credentials.
  A request with the same credentials that came after it would end the process with the panic the
  source says is never reached.\<close>

theorem Run_after_CloseAndFree_panics:
  assumes "credentials r = (True, u, p, c)" "drv_close drv 0 (db r) = (None, d)"
    and "\<not> drv_connected drv 0 d" "cgiEnv q \<noteq> []"
  shows "fst (Run E drv sid tid u p c q dumpFile (snd (CloseAndFree drv r))) = Panic"
  using assms
  by (simp add: CloseAndFree_def Run_def start_log_def initLog_def credentials_def connect_def
      on_error_def deferred_def andThen_def update_def query_def)

theorem Run_after_CloseAndFree_panics_witness:
  "fst (Run small_env small_driver ''s'' ''t'' [] [] [] (small_request ''page'') ''f''
     (snd (CloseAndFree small_driver (small_tasker True [] False)))) = Panic"
  by (rule Run_after_CloseAndFree_panics
      [where d = "\<lparr>sd_connected = False, sd_chunks = [], sd_broken = False\<rparr>"])
     (simp_all add: small_tasker_def newTasker_def small_driver_def credentials_def small_request_def)

lemma lastStep_disconnect: "steps stepDisconnectNum \<noteq> None \<Longrightarrow> lastStep steps = Some stepDisconnectNum"
  by (simp add: lastStep_def)

lemma lastStep_six: "steps 6 \<noteq> None \<Longrightarrow> lastStep steps = Some 6"
  using lastStep_disconnect [of steps] by (simp add: stepDisconnectNum_def)

text \<open>The error dump shows the statement of the step with the largest number.  After a change of
  user that is the step of disconnecting, so the dump of a failed log-on shows \<open>disconnect\<close>
  as its statement.\<close>

theorem failed_reconnect_dump:
  assumes "conn r" "drv_connected drv 0 (db r)" "connUserName r \<noteq> u"
    and "\<And>d. fst (drv_connect drv 0 u p c d) = Some e"
  shows "\<exists>r'. connect drv u p c r = (Err e, r') \<and> lastStms r' = (''disconnect'', ''disconnect'')"
  using assms
  by (simp add: connect_def disconnect_def meth_defs openStep_def closeStep_def setStepInfo_def
      step_num_defs lastStms_def lastStep_six case_prod_beta)

definition refusing_driver :: "small_db driver" where
  "refusing_driver = small_driver\<lparr>drv_connect := (\<lambda>n u p c d. (Some (OracleError 1017 ''logon denied'' [] 0), d))\<rparr>"

theorem failed_reconnect_dump_witness:
  "\<exists>r'. connect refusing_driver ''u'' ''p'' ''c'' (small_tasker True [] False) =
      (Err (OracleError 1017 ''logon denied'' [] 0), r') \<and>
     lastStms r' = (''disconnect'', ''disconnect'')"
  by (rule failed_reconnect_dump)
     (simp_all add: small_tasker_def newTasker_def refusing_driver_def small_driver_def)

section \<open>The rest of a page\<close>

text \<open>The database answers the rounds of the chunk loop: state by state, without error, with these
  chunks, and with the flag set as long as there are more.\<close>

fun serves :: "'d driver \<Rightarrow> string \<Rightarrow> 'd \<Rightarrow> string list \<Rightarrow> 'd \<Rightarrow> bool \<Rightarrow> bool" where
  "serves drv stm d [] d' again = (d' = d)"
| "serves drv stm d (c # cs) d' again =
     (\<exists>d1. (\<forall>ps. drv_exec drv 0 stm ps d = (None, d1)) \<and>
        drv_value drv 0 ''sqlerrcode'' d1 = Ok (O_Int 0) \<and> drv_value drv 0 ''Data'' d1 = Ok (O_Str c) \<and>
        next_exists drv d1 = (cs \<noteq> [] \<or> again) \<and> serves drv stm d1 cs d' again)"

lemma chunk_round:
  assumes "\<And>ps. drv_exec drv 0 stm ps (db r) = (None, d1)"
    "drv_value drv 0 ''sqlerrcode'' d1 = Ok (O_Int 0)" "drv_value drv 0 ''Data'' d1 = Ok (O_Str c)"
  shows "chunk_loop drv stm ps (Suc n) r =
    (if next_exists drv d1 then chunk_loop drv stm ps n else ret ())
      (r\<lparr>db := d1, out_res := (out_res r)\<lparr>Content := Content (out_res r) @ addCR c\<rparr>\<rparr>)"
  using assms
  by (simp add: andThen_def call_driver_def of_error_def check_sqlerr_def value_of_def as_int32_def lift_def
      ret_def as_str_def set_res_def update_def query_def)

definition with_content :: "'d \<Rightarrow> bytes \<Rightarrow> 'd oracleTasker \<Rightarrow> 'd oracleTasker" where
  "with_content d b r = r\<lparr>db := d, out_res := (out_res r)\<lparr>Content := Content (out_res r) @ b\<rparr>\<rparr>"

lemma with_content_comp: "with_content d b (with_content d1 a r) = with_content d (a @ b) r"
  by (simp add: with_content_def)

lemma with_content_steps [simp]:
  "(with_content d b r)\<lparr>logSteps := l\<rparr> = with_content d b (r\<lparr>logSteps := l\<rparr>)"
  "logSteps (with_content d b r) = logSteps r"
  by (simp_all add: with_content_def)

lemma chunk_loop_serves:
  assumes "serves drv stm (db r) cs d' False" "cs \<noteq> []" "length cs \<le> n"
  shows "chunk_loop drv stm ps n r = (Ok (), with_content d' (concat (map addCR cs)) r)"
  using assms
proof (induction cs arbitrary: r n)
  case Nil
  then show ?case by simp
next
  case (Cons c cs)
  then obtain m where n: "n = Suc m" "length cs \<le> m" by (cases n) auto
  from Cons.prems(1) obtain d1 where d1: "\<And>ps. drv_exec drv 0 stm ps (db r) = (None, d1)"
    "drv_value drv 0 ''sqlerrcode'' d1 = Ok (O_Int 0)" "drv_value drv 0 ''Data'' d1 = Ok (O_Str c)"
    "next_exists drv d1 = (cs \<noteq> [])" "serves drv stm d1 cs d' False" by auto
  let ?r1 = "with_content d1 (addCR c) r"
  have step: "chunk_loop drv stm ps n r = (if cs \<noteq> [] then chunk_loop drv stm ps m else ret ()) ?r1"
    unfolding n chunk_round [OF d1(1-3)] d1(4) with_content_def ..
  show ?case
  proof (cases "cs = []")
    case True
    with step d1(5) show ?thesis by (simp add: ret_def)
  next
    case False
    have "chunk_loop drv stm ps m ?r1 = (Ok (), with_content d' (concat (map addCR cs)) ?r1)"
      by (rule Cons.IH) (use d1(5) False n(2) in \<open>simp_all add: with_content_def\<close>)
    with step False show ?thesis by (simp add: with_content_comp)
  qed
qed

text \<open>An error after some rounds.\<close>

lemma chunk_loop_breaks:
  assumes "serves drv stm (db r) cs d' True" "\<And>ps. drv_exec drv 0 stm ps d' = (Some e, d2)"
    "length cs < n"
  shows "chunk_loop drv stm ps n r = (Err e, with_content d2 (concat (map addCR cs)) r)"
  using assms(1,3)
proof (induction cs arbitrary: r n)
  case Nil
  then obtain m where "n = Suc m" by (cases n) auto
  with Nil assms(2) show ?case
    by (simp add: andThen_def call_driver_def of_error_def with_content_def)
next
  case (Cons c cs)
  then obtain m where n: "n = Suc m" "length cs < m" by (cases n) auto
  from Cons.prems(1) obtain d1 where d1: "\<And>ps. drv_exec drv 0 stm ps (db r) = (None, d1)"
    "drv_value drv 0 ''sqlerrcode'' d1 = Ok (O_Int 0)" "drv_value drv 0 ''Data'' d1 = Ok (O_Str c)"
    "next_exists drv d1" "serves drv stm d1 cs d' True" by auto
  let ?r1 = "with_content d1 (addCR c) r"
  have "chunk_loop drv stm ps n r = chunk_loop drv stm ps m ?r1"
    unfolding n chunk_round [OF d1(1-3)] using d1(4) by (simp add: with_content_def)
  also have "\<dots> = (Err e, with_content d2 (concat (map addCR cs)) ?r1)"
    by (rule Cons.IH) (use d1(5) n(2) in \<open>simp_all add: with_content_def\<close>)
  finally show ?case by (simp add: with_content_comp)
qed

lemma make_vars_none:
  "(\<And>s. nv s = None) \<Longrightarrow> \<exists>ps'. make_vars nv reqs ps = Ok ps'"
  by (induction reqs arbitrary: ps) (auto split: option.splits)

text \<open>Around the loop only the step log changes.\<close>

lemma getRestChunks_loop:
  assumes "\<And>s. drv_new_var drv 0 (db r) s = None"
    and "\<And>ps l. chunk_loop drv (stmGetRestChunk r) ps (chunk_fuel E) (r\<lparr>logSteps := l\<rparr>) =
      (y, with_content d b (r\<lparr>logSteps := l\<rparr>))" "y \<noteq> Panic" "y \<noteq> Running"
  shows "\<exists>l. getRestChunks E drv r = (y, with_content d b (r\<lparr>logSteps := l\<rparr>))"
proof -
  let ?stm = "stmGetRestChunk r"
  let ?reqs = "[(''Data'', ''Data'', ''string'', out_var StringVarType 32767),
            (''bNextChunkExists'', ''%!s(int32=0)'', ''int32'', \<lparr>b_spec = NewVarInt 0, b_set = []\<rparr>)] @
           error_vars"
  obtain l where l: "opened drv stepChunkGetNum ''getRestChunks'' r = r\<lparr>logSteps := l\<rparr>"
    "stepChunkGetNum \<in> dom l" by (simp add: opened_def openStep_def update_def)
  obtain l2 where l2: "setStepInfo stepChunkGetNum ?stm ?stm True (r\<lparr>logSteps := l\<rparr>) = (Ok (), r\<lparr>logSteps := l2\<rparr>)"
    "stepChunkGetNum \<in> dom l2" using l(2) by (auto simp: setStepInfo_def)
  obtain ps where ps: "make_vars (drv_new_var drv 0 (db r)) ?reqs Map.empty = Ok ps"
    using make_vars_none [of "drv_new_var drv 0 (db r)", OF assms(1)] by blast
  let ?rl = "with_content d b (r\<lparr>logSteps := l2\<rparr>)"
  have dl2: "stepChunkGetNum \<in> dom (logSteps ?rl)" using l2(2) by simp
  obtain l3 where l3: "setStepInfo stepChunkGetNum ?stm ?stm True ?rl = (Ok (), with_content d b (r\<lparr>logSteps := l3\<rparr>))"
    "stepChunkGetNum \<in> dom l3" using dl2 by (auto simp: setStepInfo_def)
  let ?last = "case y of Ok _ \<Rightarrow> with_content d b (r\<lparr>logSteps := l3\<rparr>) | _ \<Rightarrow> ?rl"
  have body: "(andThen (make_binds drv ?reqs Map.empty) (\<lambda>ps.
        andThen (query stmGetRestChunk) (\<lambda>stm.
        andThen (setStepInfo stepChunkGetNum stm stm True) (\<lambda>_.
        andThen (chunk_loop drv stm ps (chunk_fuel E)) (\<lambda>_.
        setStepInfo stepChunkGetNum stm stm True))))) (r\<lparr>logSteps := l\<rparr>) = (y, ?last)"
    using ps l2(1) l3(1) assms(2) [of ps l2] assms(3,4)
    by (cases y) (simp_all add: andThen_def make_binds_def query_def)
  have "stepChunkGetNum \<in> dom (logSteps ?last)"
    using dl2 l3(2) by (cases y) simp_all
  then obtain l4 where "closeStep drv stepChunkGetNum ?last = (Ok (), with_content d b (r\<lparr>logSteps := l4\<rparr>))"
    using assms(3,4) by (cases y) (auto simp: closeStep_def)
  then have "getRestChunks E drv r = (y, with_content d b (r\<lparr>logSteps := l4\<rparr>))"
    unfolding getRestChunks_def andThen_open l(1) using body by (simp add: deferred_def)
  then show ?thesis by blast
qed

text \<open>C12: the rest of a page is the chunks of the database in their order, each with its line ends
  completed, whatever their number, as long as the loop is allowed as many rounds.\<close>

theorem getRestChunks_content:
  assumes "\<And>s. drv_new_var drv 0 (db r) s = None"
    and "serves drv (stmGetRestChunk r) (db r) cs d' False" "cs \<noteq> []" "length cs \<le> chunk_fuel E"
  shows "\<exists>r'. getRestChunks E drv r = (Ok (), r') \<and> db r' = d' \<and>
     Content (out_res r') = Content (out_res r) @ concat (map addCR cs)"
proof -
  have "chunk_loop drv (stmGetRestChunk r) ps (chunk_fuel E) (r\<lparr>logSteps := l\<rparr>) =
      (Ok (), with_content d' (concat (map addCR cs)) (r\<lparr>logSteps := l\<rparr>))" for ps l
    by (rule chunk_loop_serves) (use assms(2-4) in simp_all)
  from getRestChunks_loop [OF assms(1) this] show ?thesis by (auto simp: with_content_def)
qed

lemma small_serves:
  "serves small_driver ''rest'' \<lparr>sd_connected = True, sd_chunks = [''x'', ''a'', ''b''], sd_broken = False\<rparr>
     [''a'', ''b''] \<lparr>sd_connected = True, sd_chunks = [''b''], sd_broken = False\<rparr> False"
  by (simp add: small_driver_def small_value_def next_exists_def)

theorem getRestChunks_content_witness:
  "\<exists>r'. getRestChunks small_env small_driver (small_tasker True [''x'', ''a'', ''b''] False) = (Ok (), r') \<and>
     Content (out_res r') = addCR ''a'' @ addCR ''b''"
proof -
  let ?r = "small_tasker True [''x'', ''a'', ''b''] False"
  have "\<exists>r'. getRestChunks small_env small_driver ?r = (Ok (), r') \<and>
     db r' = \<lparr>sd_connected = True, sd_chunks = [''b''], sd_broken = False\<rparr> \<and>
     Content (out_res r') = Content (out_res ?r) @ concat (map addCR [''a'', ''b''])"
    by (rule getRestChunks_content)
       (use small_serves in \<open>simp_all add: small_tasker_def newTasker_def small_env_def small_driver_def\<close>)
  then show ?thesis by (auto simp: small_tasker_def newTasker_def empty_result_def)
qed

text \<open>An error while the rest of a page is read is dropped: \<open>run\<close> goes on with the chunks it
  got so far as if the page were complete, and the request ends with status 200.\<close>

theorem lost_chunks_go_unnoticed:
  assumes "\<And>d s. drv_new_var drv 0 d s = None"
    and "drv_value drv 0 ''content__'' (db r) = Ok (O_Str c)"
    and "drv_value drv 0 ''bNextChunkExists'' (db r) = Ok (O_Int n)" "n \<noteq> 0"
    and "serves drv (stmGetRestChunk r) (db r) cs d' True" "length cs < chunk_fuel E"
    and "\<And>ps. drv_exec drv 0 (stmGetRestChunk r) ps d' = (Some e, d2)"
  shows "\<exists>r'. read_page E drv ct r = (Ok True, r') \<and>
     Content (out_res r') = fixMeta (Content (out_res r) @ addCR c @ concat (map addCR cs))"
proof -
  let ?r1 = "r\<lparr>out_res := (out_res r)\<lparr>Content := Content (out_res r) @ addCR c\<rparr>\<rparr>"
  have "chunk_loop drv (stmGetRestChunk ?r1) ps (chunk_fuel E) (?r1\<lparr>logSteps := l\<rparr>) =
      (Err e, with_content d2 (concat (map addCR cs)) (?r1\<lparr>logSteps := l\<rparr>))" for ps l
    by (rule chunk_loop_breaks) (use assms(5-7) in simp_all)
  from getRestChunks_loop [OF assms(1) this]
  obtain l where "getRestChunks E drv ?r1 = (Err e, with_content d2 (concat (map addCR cs)) (?r1\<lparr>logSteps := l\<rparr>))"
    by auto
  then have "ignore_error (getRestChunks E drv) ?r1 =
      (Ok (), with_content d2 (concat (map addCR cs)) (?r1\<lparr>logSteps := l\<rparr>))"
    by (simp add: ignore_error_def)
  with assms(2-4) show ?thesis
    by (simp add: read_page_def andThen_def value_of_def as_str_def as_int32_def lift_def set_res_def
        update_def ret_def with_content_def Let_def)
qed

theorem lost_chunks_go_unnoticed_witness:
  "\<exists>r'. read_page small_env small_driver [] (small_tasker True [''x'', ''y''] True) = (Ok True, r') \<and>
     Content (out_res r') = fixMeta (addCR ''x'')"
proof -
  let ?r = "small_tasker True [''x'', ''y''] True"
  have "\<exists>r'. read_page small_env small_driver [] ?r = (Ok True, r') \<and>
     Content (out_res r') = fixMeta (Content (out_res ?r) @ addCR ''x'' @ concat (map addCR []))"
    by (rule lost_chunks_go_unnoticed [where n = 1 and d' = "db ?r"])
       (simp_all add: small_tasker_def newTasker_def small_env_def small_driver_def small_value_def)
  then show ?thesis by (simp add: small_tasker_def newTasker_def empty_result_def)
qed

text \<open>A chunk the database returns as null (Oracle's empty string) ends the process: the type
  assertion on its value panics, although the first piece of the page is tested for null.\<close>

theorem empty_chunk_panics:
  assumes "\<And>ps. drv_exec drv 0 stm ps (db r) = (None, d)"
    and "drv_value drv 0 ''sqlerrcode'' d = Ok (O_Int 0)" "drv_value drv 0 ''Data'' d = Ok O_Nil"
  shows "fst (chunk_loop drv stm ps (Suc n) r) = Panic"
  using assms
  by (simp add: andThen_def call_driver_def of_error_def check_sqlerr_def value_of_def as_int32_def
      lift_def ret_def as_str_def)

definition null_driver :: "small_db driver" where
  "null_driver = small_driver\<lparr>drv_value := (\<lambda>n k d. if k = ''sqlerrcode'' then Ok (O_Int 0) else Ok O_Nil)\<rparr>"

theorem empty_chunk_panics_witness:
  "fst (chunk_loop null_driver ''rest'' Map.empty 1 (small_tasker True [] False)) = Panic"
  unfolding One_nat_def
  by (rule empty_chunk_panics [where d = "\<lparr>sd_connected = True, sd_chunks = [], sd_broken = False\<rparr>"])
     (simp_all add: null_driver_def small_driver_def small_tasker_def newTasker_def)

end
