(* ===== verification/Tasker_Term.thy ===== *)
theory Tasker_Term
  imports Tasker_Props
begin

text \<open>
  A request comes to an end.  Its only loop without a bound is that of \<open>getRestChunks\<close>, which runs on
  fuel; \<open>settles s m\<close> says of a method \<open>m\<close> that takes fuel: from every state whose statement for the
  rest of a page is \<open>s\<close>, some fuel lets it return, more fuel changes nothing, and the statement stays.
\<close>

section \<open>Methods that settle\<close>

definition settles :: "string \<Rightarrow> (nat \<Rightarrow> ('d, 'a) meth) \<Rightarrow> bool" where
  "settles s m =
     (\<forall>r. stmGetRestChunk r = s \<longrightarrow>
        (\<exists>n y r'. y \<noteq> Running \<and> stmGetRestChunk r' = s \<and> (\<forall>k \<ge> n. m k r = (y, r'))))"

interpretation rest_stm: quiet_view stmGetRestChunk
  by unfold_locales simp_all

lemma settlesI:
  "(\<And>r. stmGetRestChunk r = s \<Longrightarrow> fst (m r) \<noteq> Running) \<Longrightarrow> keeps stmGetRestChunk m \<Longrightarrow> settles s (\<lambda>_. m)"
  unfolding settles_def keeps_def by (metis prod.collapse)

lemma settles_andThen [intro]:
  assumes m: "settles s m" and k: "\<And>x. settles s (\<lambda>n. k n x)"
  shows "settles s (\<lambda>n. andThen (m n) (k n))"
  unfolding settles_def
proof (intro allI impI)
  fix r :: "'a oracleTasker"
  assume "stmGetRestChunk r = s"
  with m obtain n y r1 where n: "y \<noteq> Running" "stmGetRestChunk r1 = s" "\<forall>i \<ge> n. m i r = (y, r1)"
    unfolding settles_def by blast
  show "\<exists>n y r'. y \<noteq> Running \<and> stmGetRestChunk r' = s \<and> (\<forall>i \<ge> n. andThen (m i) (k i) r = (y, r'))"
  proof (cases y)
    case (Ok x)
    from k [of x] n(2) obtain n' z r2 where n': "z \<noteq> Running" "stmGetRestChunk r2 = s" "\<forall>i \<ge> n'. k i x r1 = (z, r2)"
      unfolding settles_def by blast
    with n Ok have "\<forall>i \<ge> max n n'. andThen (m i) (k i) r = (z, r2)" by (simp add: andThen_def)
    with n' show ?thesis by blast
  next
    case (Err e)
    with n have "\<forall>i \<ge> n. andThen (m i) (k i) r = (Err e, r1)" by (simp add: andThen_def)
    with n(2) show ?thesis by blast
  next
    case Panic
    with n have "\<forall>i \<ge> n. andThen (m i) (k i) r = (Panic, r1)" by (simp add: andThen_def)
    with n(2) show ?thesis by blast
  qed (use n in simp)
qed

lemma settles_deferred [intro]:
  assumes m: "settles s m" and fin: "settles s (\<lambda>_. fin)"
  shows "settles s (\<lambda>n. deferred (m n) fin)"
  unfolding settles_def
proof (intro allI impI)
  fix r :: "'a oracleTasker"
  assume "stmGetRestChunk r = s"
  with m obtain n y r1 where n: "y \<noteq> Running" "stmGetRestChunk r1 = s" "\<forall>i \<ge> n. m i r = (y, r1)"
    unfolding settles_def by blast
  from fin n(2) obtain z r2 where z: "z \<noteq> Running" "stmGetRestChunk r2 = s" "fin r1 = (z, r2)"
    unfolding settles_def by blast
  let ?y = "case z of Ok _ \<Rightarrow> y | Err _ \<Rightarrow> y | Panic \<Rightarrow> Panic | Running \<Rightarrow> Running"
  have "\<forall>i \<ge> n. deferred (m i) fin r = (?y, r2)" using n z by (simp add: deferred_def)
  moreover have "?y \<noteq> Running" using n z by (simp split: res.splits)
  ultimately show "\<exists>n y r'. y \<noteq> Running \<and> stmGetRestChunk r' = s \<and> (\<forall>i \<ge> n. deferred (m i) fin r = (y, r'))"
    using z(2) by blast
qed

lemma settles_on_error:
  assumes m: "settles s m" and h: "\<And>e. settles s (\<lambda>n. h n e)" and k: "settles s k"
  shows "settles s (\<lambda>n. on_error (m n) (h n) (k n))"
  unfolding settles_def
proof (intro allI impI)
  fix r :: "'a oracleTasker"
  assume "stmGetRestChunk r = s"
  with m obtain n y r1 where n: "y \<noteq> Running" "stmGetRestChunk r1 = s" "\<forall>i \<ge> n. m i r = (y, r1)"
    unfolding settles_def by blast
  show "\<exists>n y r'. y \<noteq> Running \<and> stmGetRestChunk r' = s \<and> (\<forall>i \<ge> n. on_error (m i) (h i) (k i) r = (y, r'))"
  proof (cases y)
    case (Ok x)
    from k n(2) obtain n' z r2 where n': "z \<noteq> Running" "stmGetRestChunk r2 = s" "\<forall>i \<ge> n'. k i r1 = (z, r2)"
      unfolding settles_def by blast
    with n Ok have "\<forall>i \<ge> max n n'. on_error (m i) (h i) (k i) r = (z, r2)" by (simp add: on_error_def)
    with n' show ?thesis by blast
  next
    case (Err e)
    from h [of e] n(2) obtain n' z r2 where n': "z \<noteq> Running" "stmGetRestChunk r2 = s" "\<forall>i \<ge> n'. h i e r1 = (z, r2)"
      unfolding settles_def by blast
    with n Err have "\<forall>i \<ge> max n n'. on_error (m i) (h i) (k i) r = (z, r2)" by (simp add: on_error_def)
    with n' show ?thesis by blast
  next
    case Panic
    with n have "\<forall>i \<ge> n. on_error (m i) (h i) (k i) r = (Panic, r1)" by (simp add: on_error_def)
    with n(2) show ?thesis by blast
  qed (use n in simp)
qed

lemma settles_ignore:
  assumes "settles s m"
  shows "settles s (\<lambda>n. ignore_error (m n))"
  unfolding settles_def
proof (intro allI impI)
  fix r :: "'a oracleTasker"
  assume "stmGetRestChunk r = s"
  with assms obtain n y r1 where n: "y \<noteq> Running" "stmGetRestChunk r1 = s" "\<forall>i \<ge> n. m i r = (y, r1)"
    unfolding settles_def by blast
  then have "\<forall>i \<ge> n. ignore_error (m i) r = ((case y of Err e \<Rightarrow> Ok () | _ \<Rightarrow> y), r1)"
    by (cases y) (simp_all add: ignore_error_def)
  moreover have "(case y of Err e \<Rightarrow> Ok () | _ \<Rightarrow> y) \<noteq> Running" using n by (cases y) simp_all
  ultimately show "\<exists>n y r'. y \<noteq> Running \<and> stmGetRestChunk r' = s \<and> (\<forall>i \<ge> n. ignore_error (m i) r = (y, r'))"
    using n(2) by blast
qed

lemma settles_if:
  "(b \<Longrightarrow> settles s m) \<Longrightarrow> (\<not> b \<Longrightarrow> settles s k) \<Longrightarrow> settles s (\<lambda>n. if b then m n else k n)"
  by (cases b) simp_all

section \<open>The parts of a request\<close>

lemma settles_ret: "settles s (\<lambda>_. ret x)"
  by (rule settlesI) (simp_all add: keeps_def ret_def)

lemma settles_fail: "settles s (\<lambda>_. fail e)"
  by (rule settlesI) (simp_all add: keeps_def fail_def)

lemma settles_lift: "y \<noteq> Running \<Longrightarrow> settles s (\<lambda>_. lift y)"
  by (rule settlesI) (simp_all add: keeps_def lift_def)

lemma settles_query: "settles s (\<lambda>_. query f)"
  by (rule settlesI) (simp_all add: keeps_def query_def)

lemma settles_read: "(\<And>r. f r \<noteq> Running) \<Longrightarrow> settles s (\<lambda>_ r. (f r, r))"
  by (rule settlesI) (simp_all add: keeps_def)

lemma settles_update: "(\<And>r. stmGetRestChunk (f r) = stmGetRestChunk r) \<Longrightarrow> settles s (\<lambda>_. update f)"
  by (rule settlesI) (simp_all add: keeps_def update_def)

lemma settles_open: "settles s (\<lambda>_. openStep drv n ty)"
  by (rule settlesI [OF _ rest_stm.openStep]) (simp add: openStep_def update_def)

lemma settles_close: "settles s (\<lambda>_. closeStep drv n)"
  by (rule settlesI [OF _ rest_stm.closeStep]) (simp add: closeStep_def split: option.split)

lemma settles_info: "settles s (\<lambda>_. setStepInfo n a b c)"
  by (rule settlesI [OF _ rest_stm.setStepInfo]) (simp add: setStepInfo_def split: option.split)

lemma settles_call: "settles s (\<lambda>_. call_driver f)"
  by (rule settlesI [OF _ rest_stm.call_driver]) (simp add: call_driver_def of_error_def split: prod.split option.split)

lemma settles_res: "settles s (\<lambda>_. set_res f)"
  by (rule settlesI [OF _ rest_stm.set_res]) (simp add: set_res_def update_def)

text \<open>Every call of the driver returns.\<close>

definition driver_returns :: "'d driver \<Rightarrow> bool" where
  "driver_returns drv =
     ((\<forall>n k d. drv_value drv n k d \<noteq> Running) \<and>
      (\<forall>n k d l. drv_value drv n k d = Ok (O_Lob (Some l)) \<longrightarrow> lob_data l \<noteq> Running) \<and>
      (\<forall>n d. drv_fetch drv n d \<noteq> Running) \<and>
      (\<forall>d p pkg ts. exec_short (drv_describe drv d) p pkg ts \<noteq> Running) \<and>
      (\<forall>d n p. exec_long (drv_describe drv d) n p \<noteq> Running))"

lemma settles_value: "driver_returns drv \<Longrightarrow> settles s (\<lambda>_. value_of drv k)"
  unfolding value_of_def [abs_def] by (rule settles_read) (simp add: driver_returns_def)

lemma as_never_Running [simp]: "as_str v \<noteq> Running" "as_int32 v \<noteq> Running" "first_string row \<noteq> Running"
  "first_value vs \<noteq> Running"
  by (auto simp: as_str_def as_int32_def first_string_def first_value_def split: out_val.splits list.splits)

lemma bind_res_Running: "bind_res m f = Running \<longleftrightarrow> m = Running \<or> (\<exists>x. m = Ok x \<and> f x = Running)"
  by (cases m) auto

lemma make_vars_returns: "make_vars nv reqs ps \<noteq> Running"
  by (induction nv reqs ps rule: make_vars.induct) (auto split: option.splits simp del: fun_upd_apply)

lemma settles_binds: "settles s (\<lambda>_. make_binds drv reqs ps)"
  unfolding make_binds_def [abs_def] by (rule settles_read) (rule make_vars_returns)

lemma bind_var_returns [simp]: "bind_var nv n ty k b st \<noteq> Running"
  by (auto simp: bind_var_def split: option.splits)

lemma store_scalar_returns [simp]: "store_scalar nv proc n b st \<noteq> Running"
  by (simp add: store_scalar_def bind_res_Running)

lemma prepareStringParam_returns: "prepareStringParam nv n vals ty proc st \<noteq> Running"
  by (auto simp: prepareStringParam_def bind_res_Running Let_def split: list.splits)

lemma prepare_tab_returns: "prepare_tab nv n vals ty proc spec spec' shown st \<noteq> Running"
  by (simp add: prepare_tab_def bind_res_Running Let_def)

lemma prepare_returns:
  "prepare_number nv n vals ty proc st \<noteq> Running" "prepare_integer nv n vals ty proc st \<noteq> Running"
  "prepare_date nv n vals ty proc st \<noteq> Running" "prepare_boolean nv n vals ty proc st \<noteq> Running"
  "prepare_unknown nv n vals proc st \<noteq> Running" "prepare_tabs nv n vals pty ty proc st \<noteq> Running"
  by (auto simp: prepare_number_def prepare_integer_def prepare_date_def prepare_boolean_def
      prepare_unknown_def prepare_tabs_def prepare_tab_returns bind_res_Running Let_def split: list.splits)

lemma prepareParam_returns: "prepareParam nv name vals pty ty proc st \<noteq> Running"
  by (simp add: prepareParam_def prepareStringParam_returns prepare_returns)

lemma settles_prepare_arg: "settles s (\<lambda>_. prepare_arg drv p n vals sp st)"
  unfolding prepare_arg_def [abs_def] Let_def case_prod_beta
  by (rule settles_read) (rule prepareParam_returns)

lemma settles_resource_params: "settles s (\<lambda>_. resource_params drv parts cgi st)"
  unfolding resource_params_def [abs_def] Let_def
  by (rule settles_read) (simp add: bind_res_Running prepareStringParam_returns)

lemmas settles_rules = settles_andThen settles_deferred settles_if settles_ret settles_fail settles_query
  settles_open settles_close settles_info settles_call settles_res settles_binds settles_prepare_arg
  settles_resource_params

lemma settles_check: "driver_returns drv \<Longrightarrow> settles s (\<lambda>_. check_sqlerr drv)"
  unfolding check_sqlerr_def by (intro settles_rules settles_value settles_lift as_never_Running)

section \<open>The loop\<close>

text \<open>The statement for the rest of a page says after at most so many executions that there is no more, or
  fails.\<close>

fun ends_within :: "'d driver \<Rightarrow> string \<Rightarrow> (string \<rightharpoonup> bind) \<Rightarrow> nat \<Rightarrow> 'd \<Rightarrow> bool" where
  "ends_within drv stm ps 0 d = False"
| "ends_within drv stm ps (Suc n) d =
     (case drv_exec drv 0 stm ps d of
        (Some e, d') \<Rightarrow> True
      | (None, d') \<Rightarrow> \<not> next_exists drv d' \<or> ends_within drv stm ps n d')"

definition pages_end :: "'d driver \<Rightarrow> string \<Rightarrow> bool" where
  "pages_end drv stm = (\<forall>ps d. \<exists>n. ends_within drv stm ps n d)"

lemma settles_once: "settles s (\<lambda>_. m) \<Longrightarrow> stmGetRestChunk r = s \<Longrightarrow> m r = (y, r') \<Longrightarrow>
    y \<noteq> Running \<and> stmGetRestChunk r' = s"
  unfolding settles_def by fastforce

text \<open>What a round does with the chunk the database has sent.\<close>

definition take_chunk :: "'d driver \<Rightarrow> ('d, unit) meth" where
  "take_chunk drv =
     andThen (check_sqlerr drv) (\<lambda>_.
     andThen (value_of drv ''Data'') (\<lambda>dv.
     andThen (lift (as_str dv)) (\<lambda>d.
     set_res (\<lambda>res. res\<lparr>Content := Content res @ addCR d\<rparr>))))"

lemma settles_take: "driver_returns drv \<Longrightarrow> settles s (\<lambda>_. take_chunk drv)"
  unfolding take_chunk_def
  by (intro settles_rules settles_check settles_value settles_lift as_never_Running)

lemma take_chunk_db: "keeps db (take_chunk drv)"
  unfolding take_chunk_def check_sqlerr_def
  by (intro keeps_rules keeps_db_res) (simp_all add: keeps_def value_of_def lift_def fail_def)

lemma andThen_assoc: "andThen (andThen m f) g = andThen m (\<lambda>x. andThen (f x) g)"
  by (rule ext) (auto simp: andThen_def split: prod.split res.split)

lemma chunk_loop_Suc:
  "chunk_loop drv stm ps (Suc n) =
     andThen (call_driver (drv_exec drv 0 stm ps)) (\<lambda>_.
     andThen (take_chunk drv) (\<lambda>_.
     andThen (query (\<lambda>r. next_exists drv (db r))) (\<lambda>more.
     if more then chunk_loop drv stm ps n else ret ())))"
  by (simp only: chunk_loop.simps take_chunk_def andThen_assoc)

text \<open>A round that fails is the last, whatever the fuel; otherwise the flag decides.\<close>

lemma chunk_loop_step:
  assumes "drv_exec drv 0 stm ps (db r) = (None, d)" "take_chunk drv (r\<lparr>db := d\<rparr>) = (Ok x, r2)"
  shows "chunk_loop drv stm ps (Suc n) r = (if next_exists drv d then chunk_loop drv stm ps n r2 else (Ok (), r2))"
proof -
  have "db r2 = d" using take_chunk_db [unfolded keeps_def, rule_format, of drv "r\<lparr>db := d\<rparr>"] assms(2) by simp
  with assms show ?thesis
    unfolding chunk_loop_Suc by (simp add: andThen_def call_driver_def of_error_def query_def ret_def)
qed

lemma chunk_loop_stop:
  "drv_exec drv 0 stm ps (db r) = (Some e, d) \<Longrightarrow> chunk_loop drv stm ps (Suc n) r = (Err e, r\<lparr>db := d\<rparr>)"
  "drv_exec drv 0 stm ps (db r) = (None, d) \<Longrightarrow> take_chunk drv (r\<lparr>db := d\<rparr>) = (Err e, r2) \<Longrightarrow>
     chunk_loop drv stm ps (Suc n) r = (Err e, r2)"
  "drv_exec drv 0 stm ps (db r) = (None, d) \<Longrightarrow> take_chunk drv (r\<lparr>db := d\<rparr>) = (Panic, r2) \<Longrightarrow>
     chunk_loop drv stm ps (Suc n) r = (Panic, r2)"
  unfolding chunk_loop_Suc by (simp_all add: andThen_def call_driver_def of_error_def)

lemma Suc_fuel: "(\<And>k. n \<le> k \<Longrightarrow> P (Suc k)) \<Longrightarrow> \<forall>k \<ge> Suc n. P k"
  by (metis Suc_le_D Suc_le_mono)

lemma chunk_loop_returns:
  assumes "driver_returns drv" "ends_within drv stm ps n (db r)" "stmGetRestChunk r = s"
  shows "\<exists>y r'. y \<noteq> Running \<and> stmGetRestChunk r' = s \<and> (\<forall>k \<ge> n. chunk_loop drv stm ps k r = (y, r'))"
  using assms(2,3)
proof (induction n arbitrary: r)
  case (Suc n)
  let ?done = "\<lambda>y r'. y \<noteq> Running \<and> stmGetRestChunk r' = s \<and> (\<forall>k \<ge> Suc n. chunk_loop drv stm ps k r = (y, r'))"
  obtain e d where e: "drv_exec drv 0 stm ps (db r) = (e, d)" by fastforce
  let ?r1 = "r\<lparr>db := d\<rparr>"
  have r1: "stmGetRestChunk ?r1 = s" using Suc.prems(2) by simp
  show "\<exists>y r'. ?done y r'"
  proof (cases e)
    case (Some err)
    with e have "drv_exec drv 0 stm ps (db r) = (Some err, d)" by simp
    note stop = chunk_loop_stop(1) [where n = n for n, OF this]
    have "\<forall>k \<ge> Suc n. chunk_loop drv stm ps k r = (Err err, ?r1)" by (rule Suc_fuel) (rule stop)
    with r1 have "?done (Err err) ?r1" by simp
    then show ?thesis by blast
  next
    case None
    with e have e: "drv_exec drv 0 stm ps (db r) = (None, d)" by simp
    obtain z r2 where z: "take_chunk drv ?r1 = (z, r2)" by fastforce
    have r2: "z \<noteq> Running" "stmGetRestChunk r2 = s"
      using settles_once [OF settles_take [OF assms(1)] r1 z] by blast+
    have d2: "db r2 = d" using take_chunk_db [unfolded keeps_def, rule_format, of drv ?r1] z by simp
    show ?thesis
    proof (cases z)
      case (Ok x)
      note step = chunk_loop_step [OF e z [unfolded Ok]]
      show ?thesis
      proof (cases "next_exists drv d")
        case True
        with Suc.prems(1) e d2 have "ends_within drv stm ps n (db r2)" by simp
        from Suc.IH [OF this r2(2)] obtain y r' where y: "y \<noteq> Running" "stmGetRestChunk r' = s"
          "\<forall>k \<ge> n. chunk_loop drv stm ps k r2 = (y, r')" by blast
        have "\<forall>k \<ge> Suc n. chunk_loop drv stm ps k r = (y, r')"
          by (rule Suc_fuel) (simp only: step True if_True y(3))
        with y have "?done y r'" by blast
        then show ?thesis by blast
      next
        case False
        have "\<forall>k \<ge> Suc n. chunk_loop drv stm ps k r = (Ok (), r2)"
          by (rule Suc_fuel) (simp only: step False if_False)
        with r2 have "?done (Ok ()) r2" by simp
        then show ?thesis by blast
      qed
    next
      case (Err err)
      have "\<forall>k \<ge> Suc n. chunk_loop drv stm ps k r = (Err err, r2)"
        by (rule Suc_fuel) (rule chunk_loop_stop(2) [OF e z [unfolded Err]])
      with r2 have "?done (Err err) r2" by simp
      then show ?thesis by blast
    next
      case Panic
      have "\<forall>k \<ge> Suc n. chunk_loop drv stm ps k r = (Panic, r2)"
        by (rule Suc_fuel) (rule chunk_loop_stop(3) [OF e z [unfolded Panic]])
      with r2 have "?done Panic r2" by simp
      then show ?thesis by blast
    qed (use r2 in simp)
  qed
qed simp

lemma settles_chunk_loop:
  assumes "driver_returns drv" "pages_end drv stm"
  shows "settles s (\<lambda>n. chunk_loop drv stm ps n)"
  unfolding settles_def
proof (intro allI impI)
  fix r :: "'a oracleTasker"
  assume r: "stmGetRestChunk r = s"
  obtain n where "ends_within drv stm ps n (db r)" using assms(2) by (auto simp: pages_end_def)
  from chunk_loop_returns [OF assms(1) this r]
  show "\<exists>n y r'. y \<noteq> Running \<and> stmGetRestChunk r' = s \<and> (\<forall>k \<ge> n. chunk_loop drv stm ps k r = (y, r'))"
    by blast
qed

section \<open>The rest of a request\<close>

lemma settles_stm: "settles s (\<lambda>n. k n s) \<Longrightarrow> settles s (\<lambda>n. andThen (query stmGetRestChunk) (k n))"
  by (simp add: settles_def andThen_def query_def)

lemma fuel_sel:
  "chunk_fuel (E\<lparr>chunk_fuel := n\<rparr>) = n" "readFile (E\<lparr>chunk_fuel := n\<rparr>) = readFile E"
  "detectContentType (E\<lparr>chunk_fuel := n\<rparr>) = detectContentType E"
  "parseMediaType (E\<lparr>chunk_fuel := n\<rparr>) = parseMediaType E"
  "formatMediaType (E\<lparr>chunk_fuel := n\<rparr>) = formatMediaType E" "rfc1123z (E\<lparr>chunk_fuel := n\<rparr>) = rfc1123z E"
  by simp_all

lemma settles_getRestChunks:
  assumes "driver_returns drv" "pages_end drv s"
  shows "settles s (\<lambda>n. getRestChunks (E\<lparr>chunk_fuel := n\<rparr>) drv)"
  unfolding getRestChunks_def fuel_sel
  by (intro settles_stm settles_andThen settles_deferred settles_open settles_close settles_binds settles_info
      settles_chunk_loop assms)

lemma settles_text: "settles s (\<lambda>_. case v of O_Nil \<Rightarrow> ret [] | _ \<Rightarrow> lift (as_str v))"
  by (cases v) (simp_all add: settles_ret settles_lift)

lemma settles_saveFileToDB:
  assumes "driver_returns drv"
  shows "settles s (\<lambda>_. saveFileToDB drv b d cgi up n i m ct c)"
proof -
  have name: "settles s (\<lambda>_. andThen (query (\<lambda>r. drv_value drv 0 k (db r))) f)"
    if "\<And>rv. rv \<noteq> Running \<Longrightarrow> settles s (\<lambda>_. f rv)" for k and f :: "out_val res \<Rightarrow> ('a, string) meth"
    using that assms by (simp add: settles_def andThen_def query_def driver_returns_def)
  have last: "settles s (\<lambda>_. case rv of
           Ok v \<Rightarrow> andThen (setStepInfo stepSaveFileToDBNum stm stm True)
                    (\<lambda>_. case v of O_Nil \<Rightarrow> ret [] | _ \<Rightarrow> lift (as_str v))
         | Err e \<Rightarrow> ret [] | Panic \<Rightarrow> lift Panic | Running \<Rightarrow> lift Running)" if "rv \<noteq> Running" for rv stm
    using that
    by (cases rv)
       (simp_all only: res.case, auto intro!: settles_andThen settles_info settles_text settles_ret settles_lift)
  show ?thesis
    unfolding saveFileToDB_def Let_def
    by (intro name last settles_rules settles_check assms)
qed

lemma file_bytes_fuel [simp]: "file_bytes (E\<lparr>chunk_fuel := n\<rparr>) = file_bytes E"
  by (simp add: fun_eq_iff file_bytes_def split: option.split)

lemma saveFile_fuel [simp]: "saveFile (E\<lparr>chunk_fuel := n\<rparr>) drv b d cgi up fhs = saveFile E drv b d cgi up fhs"
  by (induction fhs) (simp_all cong: option.case_cong)

lemma run_files_fuel [simp]:
  "run_files (E\<lparr>chunk_fuel := n\<rparr>) drv p sp b d cgi up fs x = run_files E drv p sp b d cgi up fs x"
  by (induction fs arbitrary: x) auto

lemma run_args_fuel [simp]: "run_args_part (E\<lparr>chunk_fuel := n\<rparr>) drv q parts cgi x = run_args_part E drv q parts cgi x"
  by (simp add: run_args_part_def cong: option.case_cong)

lemma other_fuel [simp]:
  "fixContentType (E\<lparr>chunk_fuel := n\<rparr>) = fixContentType E" "read_file (E\<lparr>chunk_fuel := n\<rparr>) = read_file E"
  "finish_error (E\<lparr>chunk_fuel := n\<rparr>) = finish_error E"
  by (simp_all only: fun_eq_iff fixContentType_def read_file_def finish_error_def fuel_sel simp_thms)

lemma settles_saveFile:
  assumes "driver_returns drv" "\<And>f. readFile E f \<noteq> Running"
  shows "settles s (\<lambda>_. saveFile E drv b d cgi up fhs)"
proof (induction fhs)
  case Nil
  show ?case unfolding saveFile.simps by (rule settles_ret)
next
  case (Cons fh fhs)
  have bytes: "settles s (\<lambda>_. lift (file_bytes E fh))"
    by (rule settles_lift) (use assms(2) in \<open>simp add: file_bytes_def split: option.split\<close>)
  have one: "settles s (\<lambda>_. case Header fh of
          None \<Rightarrow> ret (Filename fh)
        | Some h \<Rightarrow> andThen (lift (file_bytes E fh)) (\<lambda>c. saveFileToDB drv b d cgi up
              (ExtractFileName (header_get h ''Content-Disposition'')) (LastArg fh)
              (header_get h ''Content-Type'') (header_get h ''Content-Type'') c))"
    by (cases "Header fh") (auto intro!: settles_ret settles_andThen bytes settles_saveFileToDB assms)
  show ?case unfolding saveFile.simps by (intro settles_andThen one Cons settles_ret)
qed

lemma settles_first: "settles s (\<lambda>_. lift (first_value vs))"
  by (rule settles_lift) simp

lemma settles_run_files:
  assumes "driver_returns drv" "\<And>f. readFile E f \<noteq> Running"
  shows "settles s (\<lambda>_. run_files E drv p sp b d cgi up fs x)"
proof (induction fs arbitrary: x)
  case Nil
  show ?case unfolding run_files.simps by (rule settles_ret)
next
  case (Cons f fs)
  show ?case
    by (cases f) (simp only: run_files.simps, intro settles_andThen settles_saveFile settles_prepare_arg settles_first
        Cons assms)
qed

lemma settles_run_params: "settles s (\<lambda>_. run_params drv p sp ps x)"
proof (induction ps arbitrary: x)
  case Nil
  show ?case unfolding run_params.simps by (rule settles_ret)
next
  case (Cons f fs)
  show ?case
    by (cases f) (simp only: run_params.simps Let_def, intro settles_if settles_andThen settles_prepare_arg
        settles_first Cons)
qed

lemma settles_run_args:
  assumes "driver_returns drv" "\<And>f. readFile E f \<noteq> Running"
  shows "settles s (\<lambda>_. run_args_part E drv q parts cgi x)"
proof -
  have files: "settles s (\<lambda>_. case reqForm q of
             None \<Rightarrow> ret x
           | Some f \<Rightarrow> run_files E drv (procName q) (paramStoreProc q) (beforeScript q) (documentTable q)
                        cgi (urlParams q) (form_File f) x)"
    by (cases "reqForm q") (auto intro!: settles_ret settles_run_files assms)
  have pkg: "settles s (\<lambda>_ r. (let (_, pkg, e) = ProcedureInfo (plist_cache r) (connStr r) (procName q)
                      in (bind_res (of_error e) (\<lambda>_. Ok pkg), r)))"
    unfolding Let_def case_prod_beta
    by (rule settles_read) (simp add: of_error_def split: option.split)
  show ?thesis
    unfolding run_args_part_def
    by (intro settles_rules files pkg settles_run_params)
qed

lemma settles_headers:
  assumes "driver_returns drv"
  shows "settles s (\<lambda>_. read_headers drv)"
proof -
  have hdr: "settles s (\<lambda>_. case hv of O_Nil \<Rightarrow> ret ()
        | _ \<Rightarrow> andThen (lift (as_str hv)) (\<lambda>s. set_res (\<lambda>res. res\<lparr>Headers := Some (parseHeaders s)\<rparr>)))" for hv
    by (cases hv) (auto intro!: settles_ret settles_andThen settles_lift settles_res)
  show ?thesis
    unfolding read_headers_def Let_def case_prod_beta
    by (intro settles_andThen settles_value settles_text hdr settles_query settles_res settles_ret assms)
qed

lemma settles_read_page:
  assumes "driver_returns drv" "pages_end drv s"
  shows "settles s (\<lambda>n. read_page (E\<lparr>chunk_fuel := n\<rparr>) drv ct)"
  unfolding read_page_def other_fuel fuel_sel
  by (intro settles_andThen settles_value settles_if settles_ret settles_lift as_never_Running settles_res
      settles_ignore settles_getRestChunks assms)

lemma settles_read_file:
  assumes "driver_returns drv"
  shows "settles s (\<lambda>_. read_file E drv)"
  unfolding settles_def
proof (intro allI impI)
  fix r :: "'a oracleTasker"
  assume r: "stmGetRestChunk r = s"
  have "fst (read_file E drv r) \<noteq> Running"
    using assms
    by (auto simp: driver_returns_def read_file_def andThen_def value_of_def lift_def ret_def fail_def set_res_def
        update_def split: res.split out_val.split option.split)
  moreover have "stmGetRestChunk (snd (read_file E drv r)) = s"
    using r by (simp add: rest_stm.read_file [unfolded keeps_def, rule_format])
  ultimately show "\<exists>n y r'. y \<noteq> Running \<and> stmGetRestChunk r' = s \<and> (\<forall>k \<ge> n. read_file E drv r = (y, r'))"
    by (metis prod.collapse)
qed

lemma settles_answer:
  assumes "driver_returns drv" "pages_end drv s"
  shows "settles s (\<lambda>n. read_answer (E\<lparr>chunk_fuel := n\<rparr>) drv stm shown)"
  unfolding read_answer_def other_fuel
  by (intro settles_andThen settles_check settles_headers settles_value settles_lift as_never_Running settles_if
      settles_read_page settles_read_file settles_ret settles_res settles_info assms)

lemma Describe_returns:
  assumes "driver_returns drv"
  shows "Describe (drv_describe drv d) dbn p pl \<noteq> Running"
  using assms unfolding driver_returns_def
  by (auto simp: Describe_def Let_def bind_res_Running split: option.splits if_splits)

lemma settles_describe:
  assumes "driver_returns drv"
  shows "settles s (\<lambda>_. describe_step drv p)"
proof -
  let ?m = "\<lambda>r. (let d = Describe (drv_describe drv (db r)) (connStr r) p (plist_cache r);
                 stm = ''describe procedure '' @ in_quotes p;
                 r' = (case d of Ok pl \<Rightarrow> r\<lparr>plist_cache := pl\<rparr> | _ \<Rightarrow> r)
             in case d of
                  Panic \<Rightarrow> (Panic, r')
                | Running \<Rightarrow> (Running, r')
                | _ \<Rightarrow> andThen (setStepInfo stepDescribeNum stm stm (case d of Ok _ \<Rightarrow> True | _ \<Rightarrow> False))
                         (\<lambda>_. lift (bind_res d (\<lambda>_. Ok ()))) r')"
  have "settles s (\<lambda>_. ?m)"
  proof (rule settlesI)
    show "fst (?m r) \<noteq> Running" for r
      using Describe_returns [OF assms, of "db r" "connStr r" p "plist_cache r"]
      by (auto simp: Let_def andThen_def setStepInfo_def lift_def split: res.split option.split)
    show "keeps stmGetRestChunk ?m"
      by (auto simp: keeps_def Let_def andThen_def setStepInfo_def lift_def split: res.split option.split)
  qed
  then show ?thesis unfolding describe_step_def by (intro settles_andThen settles_open settles_deferred settles_close)
qed

lemma settles_run:
  assumes "driver_returns drv" "pages_end drv s" "\<And>f. readFile E f \<noteq> Running"
  shows "settles s (\<lambda>n. run (E\<lparr>chunk_fuel := n\<rparr>) drv q)"
proof -
  have block: "settles s (\<lambda>n. run_block (E\<lparr>chunk_fuel := n\<rparr>) drv q parts cgi)" for parts cgi
    unfolding run_block_def Let_def run_args_fuel
    by (intro settles_andThen settles_binds settles_run_args settles_query settles_info settles_call settles_answer
        assms)
  show ?thesis
    unfolding run_def Let_def
    by (intro settles_andThen settles_if settles_ret settles_describe settles_open settles_deferred block settles_close
        assms)
qed

section \<open>\<open>Run\<close>\<close>

lemma settles_disconnect: "settles s (\<lambda>_. disconnect drv)"
proof (rule settlesI)
  show "keeps stmGetRestChunk (disconnect drv)"
    unfolding keeps_def
    by (simp add: disconnect_def andThen_def openStep_def update_def setStepInfo_def closeStep_def)
qed simp

lemma settles_cases:
  "settles s m \<Longrightarrow> settles s k \<Longrightarrow> settles s (\<lambda>n r. if b r then m n r else k n r)"
  unfolding settles_def by (metis (full_types))

lemma settles_eval:
  assumes "driver_returns drv"
  shows "settles s (\<lambda>_. evalSessionID drv)"
proof -
  have "settles s (\<lambda>_ r. (drv_fetch drv 0 (db r), r))"
    by (rule settles_read) (use assms in \<open>simp add: driver_returns_def\<close>)
  then show ?thesis
    unfolding evalSessionID_def
    by (intro settles_rules settles_lift as_never_Running settles_update) simp_all
qed

lemma settles_connect:
  assumes "driver_returns drv"
  shows "settles s (\<lambda>_. connect drv u p c)"
proof -
  have open_one: "settles s (\<lambda>_ r. if \<not> drv_connected drv 0 (db r) then (Panic, r) else (Ok (), r))"
    by (intro settles_cases settles_read) simp_all
  show ?thesis
    unfolding connect_def [abs_def]
    by (intro settles_cases open_one settles_rules settles_disconnect settles_update settles_eval assms) simp_all
qed

lemma settles_finish: "settles s (\<lambda>_. finish_error E drv u c f cgi bg e)"
  unfolding finish_error_def Let_def case_prod_beta dumpError_def
  by (intro settles_andThen settles_res settles_update settles_disconnect; simp)

lemma settles_Run:
  assumes "driver_returns drv" "pages_end drv s" "\<And>f. readFile E f \<noteq> Running"
  shows "settles s (\<lambda>n. Run (E\<lparr>chunk_fuel := n\<rparr>) drv sid tid u p c q f)"
  unfolding Run_def other_fuel
  by (intro settles_andThen settles_update settles_if settles_lift settles_deferred settles_query settles_on_error
      settles_connect settles_finish settles_run assms) (simp_all add: start_log_def initLog_def)

lemma finish_error_Ok: "\<exists>r'. finish_error E drv u c f cgi bg e r = (Ok (), r')"
  by (simp add: finish_error_def Let_def case_prod_beta andThen_def set_res_def update_def dumpError_def
      split: prod.split res.split)

lemma on_error_finish:
  "on_error m (finish_error E drv u c f cgi bg) k r = (Err e, r') \<Longrightarrow> \<exists>r1. k r1 = (Err e, r')"
proof -
  assume eq: "on_error m (finish_error E drv u c f cgi bg) k r = (Err e, r')"
  obtain z r1 where z: "m r = (z, r1)" by fastforce
  show "\<exists>r1. k r1 = (Err e, r')"
  proof (cases z)
    case (Err x)
    with finish_error_Ok [of E drv u c f cgi bg x r1] z eq show ?thesis by (auto simp: on_error_def)
  qed (use z eq in \<open>auto simp: on_error_def\<close>)
qed

lemma Run_no_error: "Run E drv sid tid u p c q f r \<noteq> (Err e, r')"
proof
  assume "Run E drv sid tid u p c q f r = (Err e, r')"
  then obtain r1 r2 where "on_error (connect drv u p c)
            (finish_error E drv u c f (cgiEnv q) (drv_now drv (db r1)))
            (on_error (run E drv q)
              (finish_error E drv u c f (cgiEnv q) (drv_now drv (db r1)))
              (update (\<lambda>r. r\<lparr>out_res := (out_res r)\<lparr>StatusCode := StatusOK,
                 Duration := (drv_now drv (db r) - drv_now drv (db r1)) div Second\<rparr>\<rparr>))) r1 = (Err e, r2)"
    by (auto simp: Run_def andThen_def update_def query_def deferred_def lift_def Let_def
        split: if_splits prod.splits)
  from on_error_finish [OF this] obtain r3 where "on_error (run E drv q)
              (finish_error E drv u c f (cgiEnv q) (drv_now drv (db r1)))
              (update (\<lambda>r. r\<lparr>out_res := (out_res r)\<lparr>StatusCode := StatusOK,
                 Duration := (drv_now drv (db r) - drv_now drv (db r1)) div Second\<rparr>\<rparr>)) r3 = (Err e, r2)" ..
  from on_error_finish [OF this] show False by (simp add: update_def)
qed

text \<open>C3: a request returns.  The conditions are on what is outside the code.  The values the blocks and the
  driver give have the types of their variables in the states in which they are read: error texts after an
  error, headers and return codes after a success, where the first piece of a page may be null; the row with the
  session's number begins with a text.  A log-on without an error leaves a connected connection, and executing
  statements keeps it so, as the driver's \<open>IsConnected\<close> only looks at its own handle.  No later piece of a
  page is null (such a piece ends the process, \<open>empty_chunk_panics\<close>).  Every call of the driver and every
  reading of an uploaded file returns without a panic, and the database says of every page at some point that
  there is no more of it.  The request has a CGI environment, every parameter a value, every file field a file;
  a connection the tasker has is connected.  Then, for all sufficiently large fuels of the chunk loop,
  \<open>Run\<close> returns, neither with a panic nor with an error: the request has succeeded with status 200 and the
  session stays open under its user, or it has failed with another status, was counted and dumped, and
  nothing of the connection is left.  The tasker is not busy any more and has counted the request.\<close>

theorem Run_outcome:
  assumes "typed_driver drv" "no_null_chunk drv" "driver_returns drv" "pages_end drv (stmGetRestChunk r)"
    and "\<And>f. readFile E f \<noteq> Panic \<and> readFile E f \<noteq> Running" "request_ok q" "cgiEnv q \<noteq> []"
    and "conn r \<longrightarrow> drv_connected drv 0 (db r)"
  shows "\<exists>n r'. (\<forall>k \<ge> n. Run (E\<lparr>chunk_fuel := k\<rparr>) drv sid tid u p c q dumpFile r = (Ok (), r')) \<and>
     (succeeded drv u p c r r' \<or> failed dumpFile r r') \<and> \<not> stateIsWorking r' \<and>
     logRequestProceeded r' = logRequestProceeded r + 1 \<and>
     (conn r' \<longrightarrow> drv_connected drv 0 (db r'))"
proof -
  obtain n y r' where n: "y \<noteq> Running" "\<forall>k \<ge> n. Run (E\<lparr>chunk_fuel := k\<rparr>) drv sid tid u p c q dumpFile r = (y, r')"
    using settles_Run [OF assms(3,4), of E sid tid u p c q dumpFile] assms(5) unfolding settles_def by blast
  then have run: "Run (E\<lparr>chunk_fuel := n\<rparr>) drv sid tid u p c q dumpFile r = (y, r')" by blast
  have files: "readFile (E\<lparr>chunk_fuel := n\<rparr>) f \<noteq> Panic" for f using assms(5) by simp
  note ends = Run_returns [OF assms(1,2) files assms(6-8) run]
  moreover from ends n(1) run have "y = Ok ()"
    using Run_no_error by (cases y) fastforce+
  ultimately show ?thesis using n(2) by blast
qed

lemma small_returns: "driver_returns small_driver"
  by (auto simp: driver_returns_def small_driver_def small_value_def dictionary_db_def stm_descr_short_def
      stm_descr_long_def)

lemma small_exec:
  "drv_exec small_driver n stm ps d =
     (if sd_broken d then (Some (OracleError 3113 ''end-of-file'' [] 0), d)
      else (None, d\<lparr>sd_chunks := tl (sd_chunks d)\<rparr>))"
  by (simp add: small_driver_def)

lemma small_pages: "pages_end small_driver stm"
  unfolding pages_end_def
proof (intro allI)
  fix ps d
  have "ends_within small_driver stm ps (Suc (length (sd_chunks d))) d" for d
  proof (induction "sd_chunks d" arbitrary: d)
    case Nil
    then show ?case by (simp add: small_driver_def next_exists_def small_value_def)
  next
    case (Cons c cs)
    have len: "Suc (length (sd_chunks d)) = Suc (Suc (length cs))" "tl (sd_chunks d) = cs"
      using Cons.hyps(2) [symmetric] by simp_all
    have "ends_within small_driver stm ps (Suc (length cs)) (d\<lparr>sd_chunks := cs\<rparr>)"
      using Cons.hyps(1) [of "d\<lparr>sd_chunks := cs\<rparr>"] by simp
    then show ?case
      unfolding len(1) ends_within.simps(2) [of _ _ _ "Suc (length cs)"] small_exec len(2)
      by (simp del: ends_within.simps)
  qed
  then show "\<exists>n. ends_within small_driver stm ps n d" by blast
qed

theorem Run_outcome_witness:
  "\<exists>n r'. Run (small_env\<lparr>chunk_fuel := n\<rparr>) small_driver ''s'' ''t'' ''u'' ''p'' ''c'' (small_request ''page'') ''f''
      (small_tasker False [''x'', ''a'', ''b''] False) = (Ok (), r') \<and> logRequestProceeded r' = 1"
proof -
  let ?r = "small_tasker False [''x'', ''a'', ''b''] False"
  have "\<exists>n r'. (\<forall>k \<ge> n. Run (small_env\<lparr>chunk_fuel := k\<rparr>) small_driver ''s'' ''t'' ''u'' ''p'' ''c''
          (small_request ''page'') ''f'' ?r = (Ok (), r')) \<and>
     (succeeded small_driver ''u'' ''p'' ''c'' ?r r' \<or> failed ''f'' ?r r') \<and> \<not> stateIsWorking r' \<and>
     logRequestProceeded r' = logRequestProceeded ?r + 1 \<and>
     (conn r' \<longrightarrow> drv_connected small_driver 0 (db r'))"
    by (rule Run_outcome [OF small_typed small_returns small_pages])
       (simp_all add: small_env_def request_ok_def small_request_def small_tasker_def newTasker_def)
  then show ?thesis by (auto simp: small_tasker_def newTasker_def)
qed

end
