(* ===== verification/Sql_Templates.thy ===== *)
theory Sql_Templates
  imports Sql_Props
begin

text \<open>
  The placeholders of a text made by \<open>fmt.Sprintf\<close> from a format and pieces: \<open>scan_fmt\<close>
  reads the format once and gives its placeholders and the places of the pieces, in order.  A
  piece may stand in text, not in a literal, and not right before an identifier.
\<close>

section \<open>Scanning a format\<close>

definition verb_end :: "string \<Rightarrow> bool" where
  "verb_end s = (s = [] \<or> (\<not> ident_char (hd s) \<and> hd s \<noteq> CHR ''%''))"

fun scan_fmt :: "smode \<Rightarrow> string \<Rightarrow> string option list option" where
  "scan_fmt m [] = Some (map Some (pending_bind m))"
| "scan_fmt m (c # cs) =
     (if c \<noteq> CHR ''%'' then
        (let (m1, ns) = scan_char m c in map_option ((@) (map Some ns)) (scan_fmt m1 cs))
      else case cs of
             [] \<Rightarrow> None
           | v # ds \<Rightarrow>
               if v = CHR ''s'' \<and> m = S_Text \<and> verb_end ds
               then map_option ((#) None) (scan_fmt S_Text ds) else None)"

text \<open>The placeholders of the formatted text: those of the format, and those of each piece at its
  place.\<close>

fun fill :: "string option list \<Rightarrow> string list \<Rightarrow> string list" where
  "fill [] as = []"
| "fill (Some n # its) as = n # fill its as"
| "fill (None # its) as = (case as of [] \<Rightarrow> fill its [] | a # as' \<Rightarrow> binds a @ fill its as')"

abbreviation holes :: "string option list \<Rightarrow> nat" where
  "holes its \<equiv> length (filter (\<lambda>i. i = None) its)"

lemma fill_Somes [simp]: "fill (map Some ns @ its) as = ns @ fill its as"
  by (induction ns) auto

lemma holes_Somes [simp]: "holes (map Some ns @ its) = holes its"
  by (induction ns) auto

text \<open>All placeholders from a mode on, those still open included.\<close>

definition binds_from :: "smode \<Rightarrow> string \<Rightarrow> string list" where
  "binds_from m s = snd (scan m s) @ pending_bind (fst (scan m s))"

lemma binds_from_Nil [simp]: "binds_from m [] = pending_bind m"
  by (simp add: binds_from_def)

lemma binds_from_Cons:
  "binds_from m (c # cs) = snd (scan_char m c) @ binds_from (fst (scan_char m c)) cs"
  by (simp add: binds_from_def case_prod_beta Let_def)

lemma binds_from_append:
  "binds_from m (a @ b) = snd (scan m a) @ binds_from (fst (scan m a)) b"
  by (simp add: binds_from_def scan_append)

text \<open>Text that does not go on with an identifier closes an open placeholder.\<close>

lemma binds_from_end:
  assumes "m \<noteq> S_Quote" "s = [] \<or> \<not> ident_char (hd s)"
  shows "binds_from m s = pending_bind m @ binds_from S_Text s"
proof (cases s)
  case (Cons c cs)
  with assms show ?thesis by (cases m) (simp_all add: binds_from_Cons)
qed simp

lemma sprintf_verb_end:
  "verb_end ds \<Longrightarrow> sprintf ds as = [] \<or> \<not> ident_char (hd (sprintf ds as))"
  by (cases ds) (auto simp: verb_end_def ident_char_def byte_of_def split: if_splits)

lemma binds_sprintf:
  assumes "scan_fmt m fmt = Some its" "holes its = length as"
    and "\<forall>a \<in> set as. fst (scan S_Text a) \<noteq> S_Quote"
  shows "binds_from m (sprintf fmt as) = fill its as"
  using assms
proof (induction m fmt arbitrary: its as rule: scan_fmt.induct)
  case (1 m)
  have "filter (\<lambda>i. i = None) (map Some ns) = []" for ns :: "string list" by (induction ns) auto
  with 1 fill_Somes [of "pending_bind m" "[]"] show ?case by auto
next
  case (2 m c cs)
  show ?case
  proof (cases "c = CHR ''%''")
    case False
    obtain m1 ns where sc: "scan_char m c = (m1, ns)" by fastforce
    from 2(3) False sc obtain its1 where its: "scan_fmt m1 cs = Some its1" "its = map Some ns @ its1"
      by auto
    from 2(1) [OF False sc [symmetric] refl its(1)] 2(4,5) its(2) have "binds_from m1 (sprintf cs as) = fill its1 as"
      by simp
    with False its(2) sc show ?thesis by (simp add: binds_from_Cons)
  next
    case True
    with 2(3) obtain ds where ds: "cs = CHR ''s'' # ds" "m = S_Text" "verb_end ds"
      by (auto split: list.splits if_splits)
    with 2(3) True obtain its1 where its: "scan_fmt S_Text ds = Some its1" "its = None # its1" by auto
    from 2(4) its(2) obtain a as' where as: "as = a # as'" by (cases as) auto
    have IH: "binds_from S_Text (sprintf ds as') = fill its1 as'"
      using 2(2) [of "CHR ''s''" ds its1 as'] True ds its 2(4,5) as by simp
    have "binds_from S_Text (a @ sprintf ds as') = binds a @ binds_from S_Text (sprintf ds as')"
      using binds_from_end [of "fst (scan S_Text a)" "sprintf ds as'"] sprintf_verb_end [OF ds(3)] 2(5) as
      by (simp add: binds_from_append binds_def)
    with True ds as its IH show ?thesis by simp
  qed
qed

text \<open>The placeholders of a formatted text as a set.\<close>

fun fixed_binds :: "string option list \<Rightarrow> string list" where
  "fixed_binds [] = []"
| "fixed_binds (Some n # its) = n # fixed_binds its"
| "fixed_binds (None # its) = fixed_binds its"

lemma set_fill: "holes its = length as \<Longrightarrow> set (fill its as) = set (fixed_binds its) \<union> (\<Union>a \<in> set as. set (binds a))"
proof (induction its as rule: fill.induct)
  case (3 its as)
  then show ?case by (cases as) auto
qed auto

lemma set_binds_sprintf:
  assumes "scan_fmt S_Text fmt = Some its" "holes its = length as"
    and "\<forall>a \<in> set as. fst (scan S_Text a) \<noteq> S_Quote"
  shows "set (binds (sprintf fmt as)) = set (fixed_binds its) \<union> (\<Union>a \<in> set as. set (binds a))"
  using binds_sprintf [OF assms] set_fill [OF assms(2)] by (simp add: binds_from_def binds_def)

text \<open>A format without pieces is its own text.\<close>

lemma no_holes_no_verb:
  "scan_fmt m s = Some its \<Longrightarrow> holes its = 0 \<Longrightarrow> CHR ''%'' \<notin> set s"
proof (induction m s arbitrary: its rule: scan_fmt.induct)
  case (2 m c cs)
  show ?case
  proof (cases "c = CHR ''%''")
    case False
    obtain m1 ns where sc: "scan_char m c = (m1, ns)" by fastforce
    from 2(3) False sc obtain its1 where its: "scan_fmt m1 cs = Some its1" "its = map Some ns @ its1"
      by auto
    from 2(1) [OF False sc [symmetric] refl its(1)] 2(4) its(2) False show ?thesis by simp
  next
    case True
    with 2(3,4) show ?thesis by (auto split: list.splits if_splits)
  qed
qed simp

lemma binds_of_fmt:
  assumes "scan_fmt S_Text s = Some its" "holes its = 0"
  shows "set (binds s) = set (fixed_binds its)"
  using set_binds_sprintf [OF assms(1), of "[]"] assms(2) sprintf_plain [OF no_holes_no_verb [OF assms]]
  by simp

section \<open>Line by line\<close>

text \<open>A long format is read one line at a time: \<open>scan_pre\<close> reads a part of it and tells the
  mode at its end.\<close>

fun scan_pre :: "smode \<Rightarrow> string \<Rightarrow> (string option list \<times> smode) option" where
  "scan_pre m [] = Some ([], m)"
| "scan_pre m (c # cs) =
     (if c \<noteq> CHR ''%'' then
        (let (m1, ns) = scan_char m c in map_option (apfst ((@) (map Some ns))) (scan_pre m1 cs))
      else case cs of
             [] \<Rightarrow> None
           | v # ds \<Rightarrow>
               if v = CHR ''s'' \<and> m = S_Text \<and> ds \<noteq> [] \<and> verb_end ds
               then map_option (apfst ((#) None)) (scan_pre S_Text ds) else None)"

lemma scan_fmt_append:
  "scan_pre m a = Some (its, m') \<Longrightarrow> scan_fmt m (a @ b) = map_option ((@) its) (scan_fmt m' b)"
proof (induction m a arbitrary: its rule: scan_pre.induct)
  case (1 m)
  then show ?case by (simp add: option.map_id [unfolded id_def] append_Nil [abs_def])
next
  case (2 m c cs)
  show ?case
  proof (cases "c = CHR ''%''")
    case False
    obtain m1 ns where sc: "scan_char m c = (m1, ns)" by fastforce
    from 2(3) False sc obtain its1 where its: "scan_pre m1 cs = Some (its1, m')" "its = map Some ns @ its1"
      by auto
    from 2(1) [OF False sc [symmetric] refl its(1)] False sc its(2) show ?thesis
      by (simp add: option.map_comp comp_def)
  next
    case True
    with 2(3) obtain ds where ds: "cs = CHR ''s'' # ds" "m = S_Text" "ds \<noteq> []" "verb_end ds"
      by (auto split: list.splits if_splits)
    with 2(3) True obtain its1 where its: "scan_pre S_Text ds = Some (its1, m')" "its = None # its1" by auto
    have "verb_end (ds @ b)" using ds(3,4) by (simp add: verb_end_def)
    with 2(2) [of "CHR ''s''" ds its1] True ds its show ?thesis
      by (simp add: option.map_comp comp_def)
  qed
qed

fun scan_fmt_lines :: "smode \<Rightarrow> string list \<Rightarrow> string option list option" where
  "scan_fmt_lines m [] = scan_fmt m []"
| "scan_fmt_lines m (l # ls) =
     (if ls = [] then scan_fmt m l
      else case scan_pre m (l @ [LF]) of
             None \<Rightarrow> None
           | Some (its, m') \<Rightarrow> map_option ((@) its) (scan_fmt_lines m' ls))"

lemma scan_fmt_lines:
  "scan_fmt_lines m ls = Some its \<Longrightarrow> scan_fmt m (str_join ls [LF]) = Some its"
proof (induction m ls arbitrary: its rule: scan_fmt_lines.induct)
  case (2 m l ls)
  show ?case
  proof (cases "ls = []")
    case False
    with 2(2) obtain its1 m' its2 where pre: "scan_pre m (l @ [LF]) = Some (its1, m')"
      "scan_fmt_lines m' ls = Some its2" "its = its1 @ its2"
      by (auto split: option.splits)
    have "str_join (l # ls) [LF] = (l @ [LF]) @ str_join ls [LF]"
      using False by (cases ls) simp_all
    with scan_fmt_append [OF pre(1), of "str_join ls [LF]"] 2(1) [OF False pre(1) refl pre(2)] pre(3)
    show ?thesis by simp
  qed (use 2 in simp)
qed simp

end
