(* ===== verification/Sql_Texts.thy ===== *)
theory Sql_Texts
  imports Tasker Sql_Templates
begin

text \<open>
  The PL/SQL texts of the three kinds of taskers, \<open>otasker/owaclassic.go\<close>, \<open>owaapex.go\<close> and
  \<open>owaekb.go\<close>, word for word, and the taskers made from them.  A text is a list of lines;
  \<open>%s\<close> marks the places where \<open>fmt.Sprintf\<close> puts the parts of a block.
\<close>

section \<open>The texts\<close>

definition sql_lines :: "string list \<Rightarrow> string" where
  "sql_lines ls = str_join ls [LF]"

text \<open>The words of the comments and one document kind, in Russian: their bytes in UTF-8.\<close>

definition txt_init :: string where
  "txt_init = [
    CHR 0xD0, CHR 0x98, CHR 0xD0, CHR 0xBD, CHR 0xD0, CHR 0xB8, CHR 0xD1, CHR 0x86, CHR 0xD0,
    CHR 0xB8, CHR 0xD0, CHR 0xB0, CHR 0xD0, CHR 0xBB, CHR 0xD0, CHR 0xB8, CHR 0xD0, CHR 0xB7,
    CHR 0xD0, CHR 0xB0, CHR 0xD1, CHR 0x86, CHR 0xD0, CHR 0xB8, CHR 0xD1, CHR 0x8F, CHR 0x20,
    CHR 0xD0, CHR 0xBF, CHR 0xD0, CHR 0xB0, CHR 0xD1, CHR 0x80, CHR 0xD0, CHR 0xB0, CHR 0xD0,
    CHR 0xBC, CHR 0xD0, CHR 0xB5, CHR 0xD1, CHR 0x82, CHR 0xD1, CHR 0x80, CHR 0xD0, CHR 0xBE,
    CHR 0xD0, CHR 0xB2]"

definition txt_compat :: string where
  "txt_compat = [
    CHR 0xD0, CHR 0x94, CHR 0xD0, CHR 0xBB, CHR 0xD1, CHR 0x8F, CHR 0x20, CHR 0xD1, CHR 0x81,
    CHR 0xD0, CHR 0xBE, CHR 0xD0, CHR 0xB2, CHR 0xD0, CHR 0xBC, CHR 0xD0, CHR 0xB5, CHR 0xD1,
    CHR 0x81, CHR 0xD1, CHR 0x82, CHR 0xD0, CHR 0xB8, CHR 0xD0, CHR 0xBC, CHR 0xD0, CHR 0xBE,
    CHR 0xD1, CHR 0x81, CHR 0xD1, CHR 0x82, CHR 0xD0, CHR 0xB8]"

definition txt_ekb :: string where
  "txt_ekb = [
    CHR 0xD0, CHR 0x95, CHR 0xD0, CHR 0x9A, CHR 0xD0, CHR 0x91]"

section \<open>\<open>owaclassic.go\<close>\<close>

definition classicEvalSessionID :: string where
  "classicEvalSessionID = ''select kill_session.get_current_session_id from dual''"

definition classicMain :: string where
  "classicMain = sql_lines [
     [],
     ''Declare'',
     ''  rc__ number(2,0);'',
     ''  l_num_params number;'',
     ''  l_param_name owa.vc_arr;'',
     ''  l_param_val owa.vc_arr;'',
     ''  l_num_ext_params number;'',
     ''  l_ext_param_name owa.vc_arr;'',
     ''  l_ext_param_val owa.vc_arr;'',
     ''  l_package_name varchar(240);'',
     ''%s'',
     ''Begin'',
     ''  /* >> '' @ txt_init @ '' */'',
     ''%s'',
     ''  /* << '' @ txt_init @ '' */'',
     [],
     ''  owa.init_cgi_env(l_num_params, l_param_name, l_param_val);'',
     ''  sys.owa.init_cgi_env(l_num_params, l_param_name, l_param_val);'',
     ''  %s'',
     ''%s'',
     ''  %s(%s);'',
     ''  %s'',
     ''  if (wpg_docload.is_file_download) then'',
     ''    rc__ := 1;'',
     ''    :content__ := '' @ [CHR 0x27, CHR 0x27] @ '';'',
     ''    :bNextChunkExists := 0;'',
     ''    declare'',
     ''      l_doc_info varchar2(32000);'',
     ''      l_lob blob := :lob__;'',
     ''      l_bfile bfile;'',
     ''    begin'',
     ''      wpg_docload.get_download_file(l_doc_info);'',
     ''      if l_doc_info='' @ [CHR 0x27] @ txt_ekb @ [CHR 0x27] @ '' then'',
     ''        null;'',
     ''      elsif l_doc_info='B' then'',
     ''        hrslt.GET_INFO(:ContentType ,:ContentLength,:CustomHeaders);'',
     ''        wpg_docload.get_download_blob(l_lob);'',
     ''        :lob__ := l_lob;'',
     ''      elsif l_doc_info='F' then'',
     ''        hrslt.GET_INFO(:ContentType ,:ContentLength,:CustomHeaders);'',
     ''        wpg_docload.get_download_bfile(l_bfile);'',
     ''        DBMS_LOB.LOADFROMFILE(l_lob, l_bfile, DBMS_LOB.getLength(l_bfile));'',
     ''        :lob__ := l_lob;'',
     ''      else'',
     ''        declare'',
     ''          l_len number;'',
     ''          l_rest varchar2(32000) := l_doc_info;'',
     ''          l_fn varchar2(32000);'',
     ''          l_ct varchar2(4000);'',
     ''          p_doctable varchar2(32000);'',
     ''          sql_stmt varchar2(32000);'',
     ''          cursor_handle INTEGER;'',
     ''          retval INTEGER;'',
     ''        begin'',
     ''          l_len :=to_number('0'||substr(l_doc_info,1, instr(l_doc_info,'X', 1)-1));'',
     ''          l_fn := substr(l_doc_info,instr(l_doc_info,'X', 1)+1, l_len);'',
     ''          p_doctable := owa_util.get_cgi_env('DOCUMENT_TABLE');'',
     ''          IF (p_doctable IS NULL) THEN'',
     ''             p_doctable := 'wwv_document';'',
     ''          END IF;'',
     [],
     ''          sql_stmt := 'select nvl(MIME_TYPE,CONTENT_TYPE), blob_content  from '||p_doctable||'',
     ''            ' where NAME=:docname';'',
     ''          cursor_handle := dbms_sql.open_cursor;'',
     ''          dbms_sql.parse(cursor_handle, sql_stmt, dbms_sql.v7);'',
     [],
     ''          dbms_sql.define_column(cursor_handle, 1, l_ct, 128);'',
     ''          dbms_sql.define_column(cursor_handle, 2, l_lob);'',
     ''          dbms_sql.bind_variable(cursor_handle, ':docname', l_fn);'',
     [],
     ''          retval := dbms_sql.execute_and_fetch(cursor_handle,TRUE);'',
     [],
     ''          dbms_sql.column_value(cursor_handle, 1, l_ct);'',
     ''          dbms_sql.column_value(cursor_handle, 2, l_lob);'',
     ''          dbms_sql.close_cursor(cursor_handle);'',
     ''          :ContentType := l_ct;'',
     ''          :ContentLength := dbms_lob.getlength(l_lob);'',
     ''          :CustomHeaders := '' @ [CHR 0x27, CHR 0x27] @ '';'',
     ''          :lob__ := l_lob;'',
     [],
     ''        end;'',
     ''      end if;'',
     ''    end;'',
     ''    commit;'',
     ''    dbms_session.modify_package_state(dbms_session.reinitialize);'',
     ''  else'',
     ''    rc__ := 0;'',
     ''    commit;'',
     ''    hrslt.GET_INFO(:ContentType ,:ContentLength,:CustomHeaders);'',
     ''    :content__ := hrslt.GET32000(:bNextChunkExists);'',
     ''    if :bNextChunkExists = 0 then'',
     ''      dbms_session.modify_package_state(dbms_session.reinitialize);'',
     ''    end if;'',
     ''  end if;'',
     ''  commit;'',
     ''  :rc__ := rc__;'',
     ''  :sqlerrcode := 0;'',
     ''  :sqlerrm := '' @ [CHR 0x27, CHR 0x27] @ '';'',
     ''  :sqlerrtrace := '' @ [CHR 0x27, CHR 0x27] @ '';'',
     ''exception'',
     ''  when others then'',
     ''    rollback;'',
     ''    :sqlerrcode := SQLCODE;'',
     ''    :sqlerrm := sqlerrm;'',
     ''    :sqlerrtrace := DBMS_UTILITY.FORMAT_ERROR_BACKTRACE();'',
     ''end;'']"

definition classicGetRestChunk :: string where
  "classicGetRestChunk = sql_lines [
     ''begin'',
     ''  :Data:=hrslt.GET32000(:bNextChunkExists);'',
     ''  if :bNextChunkExists = 0 then'',
     ''    dbms_session.modify_package_state(dbms_session.reinitialize);'',
     ''  end if;'',
     ''  commit;'',
     ''  :sqlerrcode := 0;'',
     ''  :sqlerrm := '' @ [CHR 0x27, CHR 0x27] @ '';'',
     ''  :sqlerrtrace := '' @ [CHR 0x27, CHR 0x27] @ '';'',
     ''exception'',
     ''  when others then'',
     ''    rollback;'',
     ''    :sqlerrcode := SQLCODE;'',
     ''    :sqlerrm := sqlerrm;'',
     ''    :sqlerrtrace := DBMS_UTILITY.FORMAT_ERROR_BACKTRACE();'',
     ''end;'']"

definition classicKillSession :: string where
  "classicKillSession = sql_lines [
     [],
     ''begin'',
     ''  kill_session.session_id:=:sess_id;'',
     ''  :ret:=kill_session.kill_session_by_session_id(:out_err_msg);'',
     ''exception'',
     ''  when others then'',
     ''    if sqlcode = -00031 then'',
     [CHR 0x09] @ ''  :ret := 1;'',
     [CHR 0x09] @ ''else'',
     ''      :ret := 0;'',
     ''      :out_err_msg := sqlerrm;'',
     [CHR 0x09] @ ''end if;'',
     ''end;'',
     []]"

definition classicFileUpload :: string where
  "classicFileUpload = sql_lines [
     [],
     ''declare'',
     ''  l_item_id varchar2(40) := :item_id;/*'' @ txt_compat @ ''*/'',
     ''  l_application_id varchar2(40) := :application_id;/*'' @ txt_compat @ ''*/'',
     ''  l_page_id varchar2(40) := :page_id;/*'' @ txt_compat @ ''*/'',
     ''  l_session_id varchar2(40) := :session_id;/*'' @ txt_compat @ ''*/'',
     ''  l_request varchar2(40) := :request;/*'' @ txt_compat @ ''*/'',
     ''begin'',
     ''  owa.init_cgi_env(:num_params, :param_name, :param_val);'',
     ''  %s'',
     ''  insert into %s(name, mime_type, doc_size, last_updated, content_type, blob_content, pt_dc_id)'',
     ''  values(:name, :mime_type, :doc_size, sysdate, :content_type, :lob, pt_dc_by_user());'',
     ''  :ret_name := :name;'',
     ''  :sqlerrcode := 0;'',
     ''  :sqlerrm := '' @ [CHR 0x27, CHR 0x27] @ '';'',
     ''  :sqlerrtrace := '' @ [CHR 0x27, CHR 0x27] @ '';'',
     ''exception'',
     ''  when others then'',
     ''    rollback;'',
     ''    :sqlerrcode := -20000;'',
     ''    :sqlerrm := 'Unable to upload file \"'||:name||'\" '||sqlerrm;'',
     ''    :sqlerrtrace := DBMS_UTILITY.FORMAT_ERROR_BACKTRACE();'',
     ''end;'']"

section \<open>\<open>owaapex.go\<close>\<close>

definition apexEvalSessionID :: string where
  "apexEvalSessionID = ''select kill_session.get_current_session_id from dual''"

definition apexMain :: string where
  "apexMain = sql_lines [
     [],
     ''Declare'',
     ''  rc__ number(2,0);'',
     ''  l_num_params number;'',
     ''  l_param_name owa.vc_arr;'',
     ''  l_param_val owa.vc_arr;'',
     ''  l_num_ext_params number;'',
     ''  l_ext_param_name owa.vc_arr;'',
     ''  l_ext_param_val owa.vc_arr;'',
     ''  l_package_name varchar(240);'',
     ''%s'',
     ''Begin'',
     ''  /* >> '' @ txt_init @ '' */'',
     ''%s'',
     ''  /* << '' @ txt_init @ '' */'',
     ''  %s'',
     ''  owa.init_cgi_env(l_num_params, l_param_name, l_param_val);'',
     ''%s'',
     ''  %s(%s);'',
     ''  %s'',
     ''  if (wpg_docload.is_file_download) then'',
     ''    rc__ := 1;'',
     ''    :content__ := '' @ [CHR 0x27, CHR 0x27] @ '';'',
     ''    :bNextChunkExists := 0;'',
     ''    declare'',
     ''      l_doc_info varchar2(32000);'',
     ''      l_lob blob := :lob__;'',
     ''      l_bfile bfile;'',
     ''    begin'',
     ''      wpg_docload.get_download_file(l_doc_info);'',
     ''      if l_doc_info='B' then'',
     ''        apex_public_user.hrslt.GET_INFO(:ContentType ,:ContentLength,:CustomHeaders);'',
     ''        wpg_docload.get_download_blob(l_lob);'',
     ''        :lob__ := l_lob;'',
     ''      elsif l_doc_info='F' then'',
     ''        apex_public_user.hrslt.GET_INFO(:ContentType ,:ContentLength,:CustomHeaders);'',
     ''        wpg_docload.get_download_bfile(l_bfile);'',
     ''        DBMS_LOB.LOADFROMFILE(l_lob, l_bfile, DBMS_LOB.getLength(l_bfile));'',
     ''        :lob__ := l_lob;'',
     ''      else'',
     ''        declare'',
     ''          l_len number;'',
     ''          l_rest varchar2(32000) := l_doc_info;'',
     ''          l_fn varchar2(32000);'',
     ''          l_ct varchar2(4000);'',
     ''          p_doctable varchar2(32000);'',
     ''          sql_stmt varchar2(32000);'',
     ''          cursor_handle INTEGER;'',
     ''          retval INTEGER;'',
     ''        begin'',
     ''          l_len :=to_number('0'||substr(l_doc_info,1, instr(l_doc_info,'X', 1)-1));'',
     ''          l_fn := substr(l_doc_info,instr(l_doc_info,'X', 1)+1, l_len);'',
     ''          p_doctable := owa_util.get_cgi_env('DOCUMENT_TABLE');'',
     ''          IF (p_doctable IS NULL) THEN'',
     ''             p_doctable := 'wwv_document';'',
     ''          END IF;'',
     [],
     ''          sql_stmt := 'select nvl(MIME_TYPE,CONTENT_TYPE), blob_content  from '||p_doctable||'',
     ''            ' where NAME=:docname';'',
     ''          cursor_handle := dbms_sql.open_cursor;'',
     ''          dbms_sql.parse(cursor_handle, sql_stmt, dbms_sql.v7);'',
     [],
     ''          dbms_sql.define_column(cursor_handle, 1, l_ct, 128);'',
     ''          dbms_sql.define_column(cursor_handle, 2, l_lob);'',
     ''          dbms_sql.bind_variable(cursor_handle, ':docname', l_fn);'',
     [],
     ''          retval := dbms_sql.execute_and_fetch(cursor_handle,TRUE);'',
     [],
     ''          dbms_sql.column_value(cursor_handle, 1, l_ct);'',
     ''          dbms_sql.column_value(cursor_handle, 2, l_lob);'',
     ''          dbms_sql.close_cursor(cursor_handle);'',
     ''          :ContentType := l_ct;'',
     ''          :ContentLength := dbms_lob.getlength(l_lob);'',
     ''          :CustomHeaders := '' @ [CHR 0x27, CHR 0x27] @ '';'',
     ''          :lob__ := l_lob;'',
     [],
     ''        end;'',
     ''      end if;'',
     ''    end;'',
     ''    commit;'',
     ''    dbms_session.modify_package_state(dbms_session.reinitialize);'',
     ''  else'',
     ''    rc__ := 0;'',
     ''    commit;'',
     ''    apex_public_user.hrslt.GET_INFO(:ContentType ,:ContentLength,:CustomHeaders);'',
     ''    :content__ := apex_public_user.hrslt.GET32000(:bNextChunkExists);'',
     ''    if :bNextChunkExists = 0 then'',
     ''      dbms_session.modify_package_state(dbms_session.reinitialize);'',
     ''    end if;'',
     ''  end if;'',
     ''  commit;'',
     ''  :rc__ := rc__;'',
     ''  :sqlerrcode := 0;'',
     ''  :sqlerrm := '' @ [CHR 0x27, CHR 0x27] @ '';'',
     ''  :sqlerrtrace := '' @ [CHR 0x27, CHR 0x27] @ '';'',
     ''exception'',
     ''  when others then'',
     ''    rollback;'',
     ''    :sqlerrcode := SQLCODE;'',
     ''    :sqlerrm := sqlerrm;'',
     ''    :sqlerrtrace := DBMS_UTILITY.FORMAT_ERROR_BACKTRACE();'',
     ''end;'']"

definition apexGetRestChunk :: string where
  "apexGetRestChunk = sql_lines [
     ''begin'',
     ''  :Data:=apex_public_user.hrslt.GET32000(:bNextChunkExists);'',
     ''  if :bNextChunkExists = 0 then'',
     ''    dbms_session.modify_package_state(dbms_session.reinitialize);'',
     ''  end if;'',
     ''  commit;'',
     ''  :sqlerrcode := 0;'',
     ''  :sqlerrm := '' @ [CHR 0x27, CHR 0x27] @ '';'',
     ''  :sqlerrtrace := '' @ [CHR 0x27, CHR 0x27] @ '';'',
     ''exception'',
     ''  when others then'',
     ''    rollback;'',
     ''    :sqlerrcode := SQLCODE;'',
     ''    :sqlerrm := sqlerrm;'',
     ''    :sqlerrtrace := DBMS_UTILITY.FORMAT_ERROR_BACKTRACE();'',
     ''end;'']"

definition apexKillSession :: string where
  "apexKillSession = sql_lines [
     [],
     ''begin'',
     ''  kill_session.session_id:=:sess_id;'',
     ''  :ret:=kill_session.kill_session_by_session_id(:out_err_msg);'',
     ''exception'',
     ''  when others then'',
     ''    if sqlcode = -00031 then'',
     [CHR 0x09] @ ''  :ret := 1;'',
     [CHR 0x09] @ ''else'',
     ''      :ret := 0;'',
     ''      :out_err_msg := sqlerrm;'',
     [CHR 0x09] @ ''end if;'',
     ''end;'',
     []]"

definition apexFileUpload :: string where
  "apexFileUpload = sql_lines [
     [],
     ''declare'',
     ''  l_doc_size number := :doc_size; /*'' @ txt_compat @ ''*/'',
     ''  l_pt_dc_id varchar2(40) := null; /*'' @ txt_compat @ ''*/'',
     ''  l_content_type varchar2(240) := :content_type; /*'' @ txt_compat @ ''*/'',
     ''begin'',
     ''  owa.init_cgi_env(:num_params, :param_name, :param_val);'',
     ''/*%s %s*/'',
     ''  :ret_name := apex_util.set_blob'',
     ''                ('',
     ''                  p_file_name=>:name'',
     ''                  ,p_mime_type=>:mime_type'',
     ''                  ,p_blob_content=>:lob'',
     ''                  ,p_item_id=>:item_id'',
     ''                  ,p_application_id=>:application_id'',
     ''                  ,p_page_id=>:page_id'',
     ''                  ,p_session_id=>:session_id'',
     ''                  ,p_request=>:request'',
     ''                );'',
     ''  :sqlerrcode := 0;'',
     ''  :sqlerrm := '' @ [CHR 0x27, CHR 0x27] @ '';'',
     ''  :sqlerrtrace := '' @ [CHR 0x27, CHR 0x27] @ '';'',
     ''exception'',
     ''  when others then'',
     ''    rollback;'',
     ''    :sqlerrcode := -20000;'',
     ''    :sqlerrm := 'Unable to upload file \"'||:name||'\" '||sqlerrm;'',
     ''    :sqlerrtrace := DBMS_UTILITY.FORMAT_ERROR_BACKTRACE();'',
     ''end;'']"

section \<open>\<open>owaekb.go\<close>\<close>

definition ekbEvalSessionID :: string where
  "ekbEvalSessionID = ''select wskill_session.e_gcurrent_session_id from dual''"

definition ekbMain :: string where
  "ekbMain = sql_lines [
     [],
     ''Declare'',
     ''  rc__ number(2,0);'',
     ''  l_num_params number;'',
     ''  l_param_name wscontext.et_vc_arr;'',
     ''  l_param_val wscontext.et_vc_arr;'',
     ''  l_num_ext_params number;'',
     ''  l_ext_param_name wscontext.et_vc_arr;'',
     ''  l_ext_param_val wscontext.et_vc_arr;'',
     ''  l_package_name varchar(240);'',
     ''%s'',
     ''Begin'',
     ''  /* >> '' @ txt_init @ '' */'',
     ''%s'',
     ''  /* << '' @ txt_init @ '' */'',
     ''  %s'',
     ''  wscontext.e_init_cgi_env(l_num_params, l_param_name, l_param_val);'',
     ''  wscontext.e_store_external_parameters(l_package_name, l_num_ext_params, l_ext_param_name, l_ext_param_val);'',
     ''%s'',
     ''  %s(%s);'',
     ''  %s'',
     ''  if (wsp.e_gIsFileDownload) then'',
     ''    rc__ := 1;'',
     ''    :content__ := '' @ [CHR 0x27, CHR 0x27] @ '';'',
     [],
     ''    declare'',
     ''      l_lob blob := :lob__;'',
     ''    begin'',
     ''      :ContentType := '' @ [CHR 0x27, CHR 0x27] @ '';'',
     ''      :ContentLength := wsp.e_gContentLength;'',
     ''      :CustomHeaders := wsp.e_gHTMLHdrs;'',
     ''      wsp.e_Download_blob(l_lob);'',
     ''      :lob__ := l_lob;'',
     ''      :bNextChunkExists := 0;'',
     ''    end;'',
     ''    commit;'',
     ''    dbms_session.modify_package_state(dbms_session.reinitialize);'',
     ''  else'',
     ''    rc__ := 0;'',
     ''    commit;'',
     ''    :ContentType := '' @ [CHR 0x27, CHR 0x27] @ '';'',
     ''    :ContentLength := wsp.e_gContentLength;'',
     ''    :CustomHeaders := wsp.e_gHTMLHdrs;'',
     ''    :content__ := wsp.e_gContentChunk(32000, :bNextChunkExists);'',
     ''    if :bNextChunkExists = 0 then'',
     ''      dbms_session.modify_package_state(dbms_session.reinitialize);'',
     ''    end if;'',
     ''  end if;'',
     ''  commit;'',
     ''  :rc__ := rc__;'',
     ''  :sqlerrcode := 0;'',
     ''  :sqlerrm := '' @ [CHR 0x27, CHR 0x27] @ '';'',
     ''  :sqlerrtrace := '' @ [CHR 0x27, CHR 0x27] @ '';'',
     ''exception'',
     ''  when others then'',
     ''    rollback;'',
     ''    :sqlerrcode := SQLCODE;'',
     ''    :sqlerrm := sqlerrm;'',
     ''    :sqlerrtrace := DBMS_UTILITY.FORMAT_ERROR_BACKTRACE();'',
     ''end;'']"

definition ekbGetRestChunk :: string where
  "ekbGetRestChunk = sql_lines [
     ''begin'',
     ''  :Data:=wsp.e_gContentChunk(32000, :bNextChunkExists);'',
     ''  if :bNextChunkExists = 0 then'',
     ''    dbms_session.modify_package_state(dbms_session.reinitialize);'',
     ''  end if;'',
     ''  commit;'',
     ''  :sqlerrcode := 0;'',
     ''  :sqlerrm := '' @ [CHR 0x27, CHR 0x27] @ '';'',
     ''  :sqlerrtrace := '' @ [CHR 0x27, CHR 0x27] @ '';'',
     ''exception'',
     ''  when others then'',
     ''    rollback;'',
     ''    :sqlerrcode := SQLCODE;'',
     ''    :sqlerrm := sqlerrm;'',
     ''    :sqlerrtrace := DBMS_UTILITY.FORMAT_ERROR_BACKTRACE();'',
     ''end;'']"

definition ekbKillSession :: string where
  "ekbKillSession = sql_lines [
     [],
     ''begin'',
     ''  wskill_session.ev_Session_ID:=:sess_id;'',
     ''  :ret:=wskill_session.e_kill_session_by_session_id(:out_err_msg);'',
     ''exception'',
     ''  when others then'',
     ''    if sqlcode = -00031 then'',
     [CHR 0x09] @ ''  :ret := 1;'',
     [CHR 0x09] @ ''else'',
     ''      :ret := 0;'',
     ''      :out_err_msg := sqlerrm;'',
     [CHR 0x09] @ ''end if;'',
     ''end;'',
     []]"

definition ekbFileUpload :: string where
  "ekbFileUpload = sql_lines [
     [],
     ''declare'',
     ''  l_item_id varchar2(40) := :item_id;/*'' @ txt_compat @ ''*/'',
     ''  l_application_id varchar2(40) := :application_id;/*'' @ txt_compat @ ''*/'',
     ''  l_page_id varchar2(40) := :page_id;/*'' @ txt_compat @ ''*/'',
     ''  l_session_id varchar2(40) := :session_id;/*'' @ txt_compat @ ''*/'',
     ''  l_request varchar2(40) := :request;/*'' @ txt_compat @ ''*/'',
     ''  l_mime_type varchar2(240) := :mime_type;/*'' @ txt_compat @ ''*/'',
     ''begin'',
     ''  owa.init_cgi_env(:num_params, :param_name, :param_val);'',
     ''  %s'',
     ''  insert into %s(name, doc_size, last_updated, content_type, blob_content, PTDCD_ID)'',
     ''  values(:name, :doc_size, sysdate, :content_type, :lob, pt_dc_by_user());'',
     ''  :ret_name := :name;'',
     ''  :sqlerrcode := 0;'',
     ''  :sqlerrm := '' @ [CHR 0x27, CHR 0x27] @ '';'',
     ''  :sqlerrtrace := '' @ [CHR 0x27, CHR 0x27] @ '';'',
     ''exception'',
     ''  when others then'',
     ''    rollback;'',
     ''    :sqlerrcode := -20000;'',
     ''    :sqlerrm := 'Unable to upload file \"'||:name||'\" '||sqlerrm;'',
     ''    :sqlerrtrace := DBMS_UTILITY.FORMAT_ERROR_BACKTRACE();'',
     ''end;'']"

section \<open>The taskers\<close>

text \<open>\<open>taskerFactory\<close> of \<open>worker.go\<close>: the constructor for each kind of tasker.\<close>

definition ClassicTasker :: int where "ClassicTasker = 0"
definition ApexTasker :: int where "ApexTasker = 1"
definition EkbTasker :: int where "EkbTasker = 2"

definition NewOwaClassicProcTasker :: "time \<Rightarrow> 'd \<Rightarrow> plist \<Rightarrow> 'd oracleTasker" where
  "NewOwaClassicProcTasker now = newTasker now classicEvalSessionID classicMain classicGetRestChunk
     classicKillSession classicFileUpload"

definition NewOwaApexProcTasker :: "time \<Rightarrow> 'd \<Rightarrow> plist \<Rightarrow> 'd oracleTasker" where
  "NewOwaApexProcTasker now = newTasker now apexEvalSessionID apexMain apexGetRestChunk
     apexKillSession apexFileUpload"

definition NewOwaEkbProcTasker :: "time \<Rightarrow> 'd \<Rightarrow> plist \<Rightarrow> 'd oracleTasker" where
  "NewOwaEkbProcTasker now = newTasker now ekbEvalSessionID ekbMain ekbGetRestChunk
     ekbKillSession ekbFileUpload"

definition taskerFactory :: "int \<Rightarrow> (time \<Rightarrow> 'd \<Rightarrow> plist \<Rightarrow> 'd oracleTasker) option" where
  "taskerFactory k =
     (if k = ClassicTasker then Some NewOwaClassicProcTasker
      else if k = ApexTasker then Some NewOwaApexProcTasker
      else if k = EkbTasker then Some NewOwaEkbProcTasker else None)"

section \<open>Placeholders of the texts\<close>

text \<open>The number of pieces a text takes and its own placeholders.\<close>

definition shape :: "string \<Rightarrow> (nat \<times> string list) option" where
  "shape s = map_option (\<lambda>its. (holes its, remdups (fixed_binds its))) (scan_fmt S_Text s)"

lemma items_classicEvalSessionID: "scan_fmt S_Text classicEvalSessionID = Some []"
  by code_simp

lemma shape_classicEvalSessionID: "shape classicEvalSessionID = Some (0, [])"
  by (simp add: shape_def items_classicEvalSessionID)

lemma items_classicMain: "scan_fmt S_Text classicMain = Some [None, None, None, None, None, None,
   None, Some ''content__'', Some ''bNextChunkExists'', Some ''lob__'', Some ''ContentType'', Some
   ''ContentLength'', Some ''CustomHeaders'', Some ''lob__'', Some ''ContentType'', Some
   ''ContentLength'', Some ''CustomHeaders'', Some ''lob__'', Some ''ContentType'', Some
   ''ContentLength'', Some ''CustomHeaders'', Some ''lob__'', Some ''ContentType'', Some
   ''ContentLength'', Some ''CustomHeaders'', Some ''content__'', Some ''bNextChunkExists'', Some
   ''bNextChunkExists'', Some ''rc__'', Some ''sqlerrcode'', Some ''sqlerrm'', Some ''sqlerrtrace'',
   Some ''sqlerrcode'', Some ''sqlerrm'', Some ''sqlerrtrace'']"
  unfolding classicMain_def sql_lines_def by (rule scan_fmt_lines) code_simp

lemma items_classicGetRestChunk: "scan_fmt S_Text classicGetRestChunk = Some [Some ''Data'', Some
   ''bNextChunkExists'', Some ''bNextChunkExists'', Some ''sqlerrcode'', Some ''sqlerrm'', Some
   ''sqlerrtrace'', Some ''sqlerrcode'', Some ''sqlerrm'', Some ''sqlerrtrace'']"
  unfolding classicGetRestChunk_def sql_lines_def by (rule scan_fmt_lines) code_simp

lemma items_classicKillSession: "scan_fmt S_Text classicKillSession = Some [Some ''sess_id'', Some
   ''ret'', Some ''out_err_msg'', Some ''ret'', Some ''ret'', Some ''out_err_msg'']"
  unfolding classicKillSession_def sql_lines_def by (rule scan_fmt_lines) code_simp

lemma items_classicFileUpload: "scan_fmt S_Text classicFileUpload = Some [Some ''item_id'', Some
   ''application_id'', Some ''page_id'', Some ''session_id'', Some ''request'', Some ''num_params'',
   Some ''param_name'', Some ''param_val'', None, None, Some ''name'', Some ''mime_type'', Some
   ''doc_size'', Some ''content_type'', Some ''lob'', Some ''ret_name'', Some ''name'', Some
   ''sqlerrcode'', Some ''sqlerrm'', Some ''sqlerrtrace'', Some ''sqlerrcode'', Some ''sqlerrm'', Some
   ''name'', Some ''sqlerrtrace'']"
  unfolding classicFileUpload_def sql_lines_def by (rule scan_fmt_lines) code_simp

lemma items_apexEvalSessionID: "scan_fmt S_Text apexEvalSessionID = Some []"
  by code_simp

lemma shape_apexEvalSessionID: "shape apexEvalSessionID = Some (0, [])"
  by (simp add: shape_def items_apexEvalSessionID)

lemma items_apexMain: "scan_fmt S_Text apexMain = Some [None, None, None, None, None, None, None,
   Some ''content__'', Some ''bNextChunkExists'', Some ''lob__'', Some ''ContentType'', Some
   ''ContentLength'', Some ''CustomHeaders'', Some ''lob__'', Some ''ContentType'', Some
   ''ContentLength'', Some ''CustomHeaders'', Some ''lob__'', Some ''ContentType'', Some
   ''ContentLength'', Some ''CustomHeaders'', Some ''lob__'', Some ''ContentType'', Some
   ''ContentLength'', Some ''CustomHeaders'', Some ''content__'', Some ''bNextChunkExists'', Some
   ''bNextChunkExists'', Some ''rc__'', Some ''sqlerrcode'', Some ''sqlerrm'', Some ''sqlerrtrace'',
   Some ''sqlerrcode'', Some ''sqlerrm'', Some ''sqlerrtrace'']"
  unfolding apexMain_def sql_lines_def by (rule scan_fmt_lines) code_simp

lemma items_apexGetRestChunk: "scan_fmt S_Text apexGetRestChunk = Some [Some ''Data'', Some
   ''bNextChunkExists'', Some ''bNextChunkExists'', Some ''sqlerrcode'', Some ''sqlerrm'', Some
   ''sqlerrtrace'', Some ''sqlerrcode'', Some ''sqlerrm'', Some ''sqlerrtrace'']"
  unfolding apexGetRestChunk_def sql_lines_def by (rule scan_fmt_lines) code_simp

lemma items_apexKillSession: "scan_fmt S_Text apexKillSession = Some [Some ''sess_id'', Some
   ''ret'', Some ''out_err_msg'', Some ''ret'', Some ''ret'', Some ''out_err_msg'']"
  unfolding apexKillSession_def sql_lines_def by (rule scan_fmt_lines) code_simp

lemma items_apexFileUpload: "scan_fmt S_Text apexFileUpload = Some [Some ''doc_size'', Some
   ''content_type'', Some ''num_params'', Some ''param_name'', Some ''param_val'', None, None, Some
   ''ret_name'', Some ''name'', Some ''mime_type'', Some ''lob'', Some ''item_id'', Some
   ''application_id'', Some ''page_id'', Some ''session_id'', Some ''request'', Some ''sqlerrcode'',
   Some ''sqlerrm'', Some ''sqlerrtrace'', Some ''sqlerrcode'', Some ''sqlerrm'', Some ''name'', Some
   ''sqlerrtrace'']"
  unfolding apexFileUpload_def sql_lines_def by (rule scan_fmt_lines) code_simp

lemma items_ekbEvalSessionID: "scan_fmt S_Text ekbEvalSessionID = Some []"
  by code_simp

lemma shape_ekbEvalSessionID: "shape ekbEvalSessionID = Some (0, [])"
  by (simp add: shape_def items_ekbEvalSessionID)

lemma items_ekbMain: "scan_fmt S_Text ekbMain = Some [None, None, None, None, None, None, None, Some
   ''content__'', Some ''lob__'', Some ''ContentType'', Some ''ContentLength'', Some ''CustomHeaders'',
   Some ''lob__'', Some ''bNextChunkExists'', Some ''ContentType'', Some ''ContentLength'', Some
   ''CustomHeaders'', Some ''content__'', Some ''bNextChunkExists'', Some ''bNextChunkExists'', Some
   ''rc__'', Some ''sqlerrcode'', Some ''sqlerrm'', Some ''sqlerrtrace'', Some ''sqlerrcode'', Some
   ''sqlerrm'', Some ''sqlerrtrace'']"
  unfolding ekbMain_def sql_lines_def by (rule scan_fmt_lines) code_simp

lemma items_ekbGetRestChunk: "scan_fmt S_Text ekbGetRestChunk = Some [Some ''Data'', Some
   ''bNextChunkExists'', Some ''bNextChunkExists'', Some ''sqlerrcode'', Some ''sqlerrm'', Some
   ''sqlerrtrace'', Some ''sqlerrcode'', Some ''sqlerrm'', Some ''sqlerrtrace'']"
  unfolding ekbGetRestChunk_def sql_lines_def by (rule scan_fmt_lines) code_simp

lemma items_ekbKillSession: "scan_fmt S_Text ekbKillSession = Some [Some ''sess_id'', Some ''ret'',
   Some ''out_err_msg'', Some ''ret'', Some ''ret'', Some ''out_err_msg'']"
  unfolding ekbKillSession_def sql_lines_def by (rule scan_fmt_lines) code_simp

lemma items_ekbFileUpload: "scan_fmt S_Text ekbFileUpload = Some [Some ''item_id'', Some
   ''application_id'', Some ''page_id'', Some ''session_id'', Some ''request'', Some ''mime_type'',
   Some ''num_params'', Some ''param_name'', Some ''param_val'', None, None, Some ''name'', Some
   ''doc_size'', Some ''content_type'', Some ''lob'', Some ''ret_name'', Some ''name'', Some
   ''sqlerrcode'', Some ''sqlerrm'', Some ''sqlerrtrace'', Some ''sqlerrcode'', Some ''sqlerrm'', Some
   ''name'', Some ''sqlerrtrace'']"
  unfolding ekbFileUpload_def sql_lines_def by (rule scan_fmt_lines) code_simp

text \<open>What the tasker relies on: the pieces it puts into a text are as many as the text takes, and
  the placeholders of the text are the variables it makes.\<close>

definition sql_errors :: "string set" where
  "sql_errors = {''sqlerrcode'', ''sqlerrm'', ''sqlerrtrace''}"

definition main_shape :: "string \<Rightarrow> bool" where
  "main_shape s = (\<exists>ns. shape s = Some (7, ns) \<and> set ns =
     {''ContentType'', ''ContentLength'', ''CustomHeaders'', ''rc__'', ''content__'',
      ''bNextChunkExists'', ''lob__''} \<union> sql_errors)"

definition rest_shape :: "string \<Rightarrow> bool" where
  "rest_shape s = (\<exists>ns. shape s = Some (0, ns) \<and> set ns = {''Data'', ''bNextChunkExists''} \<union> sql_errors)"

definition kill_shape :: "string \<Rightarrow> bool" where
  "kill_shape s = (\<exists>ns. shape s = Some (0, ns) \<and> set ns = {''sess_id'', ''ret'', ''out_err_msg''})"

definition upload_shape :: "string \<Rightarrow> bool" where
  "upload_shape s = (\<exists>ns. shape s = Some (2, ns) \<and> set ns =
     {''num_params'', ''param_name'', ''param_val'', ''name'', ''mime_type'', ''doc_size'',
      ''content_type'', ''lob'', ''item_id'', ''application_id'', ''page_id'', ''session_id'',
      ''request'', ''ret_name''} \<union> sql_errors)"

lemmas shape_defs = main_shape_def rest_shape_def kill_shape_def upload_shape_def sql_errors_def

lemma shape_classicMain: "main_shape classicMain"
  by (simp add: shape_defs shape_def items_classicMain set_eq_subset)

lemma shape_classicGetRestChunk: "rest_shape classicGetRestChunk"
  by (simp add: shape_defs shape_def items_classicGetRestChunk set_eq_subset)

lemma shape_classicKillSession: "kill_shape classicKillSession"
  by (simp add: shape_defs shape_def items_classicKillSession set_eq_subset)

lemma shape_classicFileUpload: "upload_shape classicFileUpload"
  by (simp add: shape_defs shape_def items_classicFileUpload set_eq_subset)

lemma shape_apexMain: "main_shape apexMain"
  by (simp add: shape_defs shape_def items_apexMain set_eq_subset)

lemma shape_apexGetRestChunk: "rest_shape apexGetRestChunk"
  by (simp add: shape_defs shape_def items_apexGetRestChunk set_eq_subset)

lemma shape_apexKillSession: "kill_shape apexKillSession"
  by (simp add: shape_defs shape_def items_apexKillSession set_eq_subset)

lemma shape_apexFileUpload: "upload_shape apexFileUpload"
  by (simp add: shape_defs shape_def items_apexFileUpload set_eq_subset)

lemma shape_ekbMain: "main_shape ekbMain"
  by (simp add: shape_defs shape_def items_ekbMain set_eq_subset)

lemma shape_ekbGetRestChunk: "rest_shape ekbGetRestChunk"
  by (simp add: shape_defs shape_def items_ekbGetRestChunk set_eq_subset)

lemma shape_ekbKillSession: "kill_shape ekbKillSession"
  by (simp add: shape_defs shape_def items_ekbKillSession set_eq_subset)

lemma shape_ekbFileUpload: "upload_shape ekbFileUpload"
  by (simp add: shape_defs shape_def items_ekbFileUpload set_eq_subset)

definition good_texts :: "'d oracleTasker \<Rightarrow> bool" where
  "good_texts r = (shape (stmEvalSessionID r) = Some (0, []) \<and> main_shape (stmMain r) \<and>
     rest_shape (stmGetRestChunk r) \<and> kill_shape (stmKillSession r) \<and> upload_shape (stmFileUpload r))"

lemma classic_good: "good_texts (NewOwaClassicProcTasker now d pl)"
  by (simp add: good_texts_def NewOwaClassicProcTasker_def newTasker_def
      shape_classicEvalSessionID shape_classicMain shape_classicGetRestChunk
      shape_classicKillSession shape_classicFileUpload)

lemma apex_good: "good_texts (NewOwaApexProcTasker now d pl)"
  by (simp add: good_texts_def NewOwaApexProcTasker_def newTasker_def
      shape_apexEvalSessionID shape_apexMain shape_apexGetRestChunk
      shape_apexKillSession shape_apexFileUpload)

lemma ekb_good: "good_texts (NewOwaEkbProcTasker now d pl)"
  by (simp add: good_texts_def NewOwaEkbProcTasker_def newTasker_def
      shape_ekbEvalSessionID shape_ekbMain shape_ekbGetRestChunk
      shape_ekbKillSession shape_ekbFileUpload)

lemma taskerFactory_good: "taskerFactory k = Some mk \<Longrightarrow> good_texts (mk now d pl)"
  by (auto simp: taskerFactory_def classic_good apex_good ekb_good split: if_splits)

end
