(* ===== verification/Sql_Blocks.thy ===== *)
theory Sql_Blocks
  imports Tasker_Frame Sql_Texts
begin

text \<open>
  Every statement the tasker executes has exactly the placeholders it has variables for, whatever
  kind of tasker it is and whatever the parameters of the request are called.  This is stated
  by a second database: \<open>strict drv\<close> is the database \<open>drv\<close> that refuses a statement whose
  placeholders are not the bound variables, as Oracle does.  The tasker cannot tell the two apart.
\<close>

section \<open>A database that checks\<close>

definition strict :: "'d driver \<Rightarrow> 'd driver" where
  "strict drv = drv\<lparr>drv_exec := \<lambda>n stm ps d.
     if set (binds stm) = dom ps then drv_exec drv n stm ps d
     else (Some (OracleError 1008 ''not all variables bound'' [] 0), d)\<rparr>"

lemma strict_simps [simp]:
  "drv_now (strict drv) = drv_now drv" "drv_connect (strict drv) = drv_connect drv"
  "drv_connected (strict drv) = drv_connected drv" "drv_close (strict drv) = drv_close drv"
  "drv_free (strict drv) = drv_free drv" "drv_new_var (strict drv) = drv_new_var drv"
  "drv_fetch (strict drv) = drv_fetch drv" "drv_value (strict drv) = drv_value drv"
  "drv_describe (strict drv) = drv_describe drv"
  by (simp_all add: strict_def)

lemma strict_exec: "set (binds stm) = dom ps \<Longrightarrow> drv_exec (strict drv) n stm ps = drv_exec drv n stm ps"
  by (simp add: strict_def)

text \<open>Methods that execute nothing do not see the difference.\<close>

lemma strict_openStep [simp]: "openStep (strict drv) = openStep drv"
  by (simp add: openStep_def fun_eq_iff)

lemma strict_closeStep [simp]: "closeStep (strict drv) = closeStep drv"
  by (simp add: closeStep_def fun_eq_iff cong: option.case_cong)

lemma strict_value_of [simp]: "value_of (strict drv) = value_of drv"
  by (simp add: value_of_def fun_eq_iff)

lemma strict_next_exists [simp]: "next_exists (strict drv) = next_exists drv"
  by (simp add: next_exists_def fun_eq_iff)

lemma strict_make_binds [simp]: "make_binds (strict drv) = make_binds drv"
  by (simp add: make_binds_def fun_eq_iff)

lemma strict_prepare_arg [simp]: "prepare_arg (strict drv) = prepare_arg drv"
  by (simp add: prepare_arg_def fun_eq_iff)

lemma strict_resource_params [simp]: "resource_params (strict drv) = resource_params drv"
  by (simp add: resource_params_def fun_eq_iff)

lemma strict_disconnect [simp]: "disconnect (strict drv) = disconnect drv"
  by (simp add: disconnect_def fun_eq_iff)

lemma strict_check_sqlerr [simp]: "check_sqlerr (strict drv) = check_sqlerr drv"
  by (simp add: check_sqlerr_def cong: if_cong)

lemma strict_read_headers [simp]: "read_headers (strict drv) = read_headers drv"
  by (simp add: read_headers_def)

lemma strict_read_file [simp]: "read_file E (strict drv) = read_file E drv"
  by (simp add: read_file_def)

lemma strict_describe_step [simp]: "describe_step (strict drv) = describe_step drv"
  by (simp add: describe_step_def fun_eq_iff)

lemma strict_dumpError [simp]: "dumpError (strict drv) = dumpError drv"
  by (simp add: dumpError_def fun_eq_iff)

lemma strict_finish_error [simp]: "finish_error E (strict drv) = finish_error E drv"
  by (simp add: finish_error_def fun_eq_iff)

lemma strict_run_params [simp]: "run_params (strict drv) p sp ps x = run_params drv p sp ps x"
  by (induction ps arbitrary: x) (auto simp: Let_def)

section \<open>Agreeing methods\<close>

text \<open>Two methods agree when they do the same in every state whose texts have the right shape; the
  values they return satisfy \<open>V\<close> and the texts stay.\<close>

definition agree :: "('d, 'a) meth \<Rightarrow> ('d, 'a) meth \<Rightarrow> ('a \<Rightarrow> bool) \<Rightarrow> bool" where
  "agree m m' V =
     (\<forall>r. good_texts r \<longrightarrow> m r = m' r \<and> good_texts (snd (m' r)) \<and> (\<forall>x. fst (m' r) = Ok x \<longrightarrow> V x))"

definition texts :: "'d oracleTasker \<Rightarrow> string \<times> string \<times> string \<times> string \<times> string" where
  "texts r = (stmEvalSessionID r, stmMain r, stmGetRestChunk r, stmKillSession r, stmFileUpload r)"

interpretation kept: quiet_view texts
  by unfold_locales (simp_all add: texts_def)

lemma good_texts_cong: "texts r' = texts r \<Longrightarrow> good_texts r' = good_texts r"
  by (simp add: texts_def good_texts_def)

lemma agree_keeps:
  fixes m :: "('d, 'a) meth"
  assumes "keeps texts m" "\<And>r x r'. good_texts r \<Longrightarrow> m r = (Ok x, r') \<Longrightarrow> V x"
  shows "agree m m V"
  unfolding agree_def
proof (intro allI impI conjI refl)
  fix r :: "'d oracleTasker"
  assume r: "good_texts r"
  from assms(1) have eq: "texts (snd (m r)) = texts r" by (simp add: keeps_def)
  from r show "good_texts (snd (m r))" by (simp only: good_texts_cong [OF eq])
  fix x assume "fst (m r) = Ok x"
  with assms(2) [OF r, of x "snd (m r)"] show "V x" by (cases "m r") simp
qed

lemma agree_same: "keeps texts m \<Longrightarrow> agree m m (\<lambda>_. True)"
  by (rule agree_keeps) auto

lemma agree_andThen:
  fixes m :: "('d, 'a) meth"
  assumes "agree m m' V" "\<And>x. V x \<Longrightarrow> agree (k x) (k' x) W"
  shows "agree (andThen m k) (andThen m' k') W"
  unfolding agree_def
proof (intro allI impI)
  fix r :: "'d oracleTasker"
  assume r: "good_texts r"
  obtain y r1 where m: "m' r = (y, r1)" by fastforce
  from assms(1) r m have 1: "m r = (y, r1)" "good_texts r1" "\<And>x. y = Ok x \<Longrightarrow> V x"
    unfolding agree_def by fastforce+
  show "andThen m k r = andThen m' k' r \<and> good_texts (snd (andThen m' k' r)) \<and>
      (\<forall>x. fst (andThen m' k' r) = Ok x \<longrightarrow> W x)"
    using assms(2) 1 m by (cases y) (auto simp: andThen_def agree_def)
qed

lemma agree_deferred:
  fixes m :: "('d, 'a) meth"
  assumes "agree m m' V" "keeps texts f"
  shows "agree (deferred m f) (deferred m' f) V"
  unfolding agree_def
proof (intro allI impI)
  fix r :: "'d oracleTasker"
  assume r: "good_texts r"
  obtain y r1 where m: "m' r = (y, r1)" by fastforce
  from assms(1) r m have 1: "m r = (y, r1)" "good_texts r1" "\<And>x. y = Ok x \<Longrightarrow> V x"
    unfolding agree_def by fastforce+
  obtain z r2 where f: "f r1 = (z, r2)" by fastforce
  from assms(2) f have eq: "texts r2 = texts r1" by (metis keeps_def snd_conv)
  from 1(2) have "good_texts r2" by (simp only: good_texts_cong [OF eq])
  with 1 m f show "deferred m f r = deferred m' f r \<and> good_texts (snd (deferred m' f r)) \<and>
      (\<forall>x. fst (deferred m' f r) = Ok x \<longrightarrow> V x)"
    by (cases z) (simp_all add: deferred_def)
qed

lemma agree_if:
  "(b \<Longrightarrow> agree m m' V) \<Longrightarrow> (\<not> b \<Longrightarrow> agree k k' V) \<Longrightarrow>
   agree (if b then m else k) (if b then m' else k') V"
  by simp

lemma agree_state_if:
  "agree m m' V \<Longrightarrow> agree k k' V \<Longrightarrow>
   agree (\<lambda>r. if b r then m r else k r) (\<lambda>r. if b r then m' r else k' r) V"
  by (simp add: agree_def)

lemma agree_ret: "V x \<Longrightarrow> agree (ret x) (ret x) V"
  by (rule agree_keeps) (auto simp: ret_def keeps_def)

lemma agree_lift: "(\<And>x. y = Ok x \<Longrightarrow> V x) \<Longrightarrow> agree (lift y) (lift y) V"
  by (rule agree_keeps) (auto simp: lift_def keeps_def)

lemma agree_query: "(\<And>r. good_texts r \<Longrightarrow> V (f r)) \<Longrightarrow> agree (query f) (query f) V"
  by (rule agree_keeps) (auto simp: query_def keeps_def)

lemma agree_ignore:
  assumes "agree m m' V"
  shows "agree (ignore_error m) (ignore_error m') (\<lambda>_. True)"
  using assms by (auto simp: agree_def ignore_error_def split: res.splits prod.splits)

lemma agree_weaken: "agree m m' V \<Longrightarrow> (\<And>x. V x \<Longrightarrow> W x) \<Longrightarrow> agree m m' W"
  by (auto simp: agree_def)

lemma agree_exec:
  assumes "set (binds stm) = dom ps"
  shows "agree (call_driver (drv_exec (strict drv) n stm ps)) (call_driver (drv_exec drv n stm ps)) (\<lambda>_. True)"
  unfolding strict_exec [OF assms] by (rule agree_same) (rule kept.call_driver)

text \<open>The variables made for a list of requests.\<close>

lemma make_vars_dom: "make_vars nv reqs ps = Ok ps' \<Longrightarrow> dom ps' = set (map fst reqs) \<union> dom ps"
  by (induction nv reqs ps rule: make_vars.induct) (auto split: option.splits)

lemma agree_make_binds:
  "agree (make_binds drv reqs ps) (make_binds drv reqs ps) (\<lambda>ps'. dom ps' = set (map fst reqs) \<union> dom ps)"
  by (rule agree_keeps [OF kept.make_binds]) (simp add: make_binds_def make_vars_dom)

end
