(* ===== verification/Sql_Exec.thy ===== *)
theory Sql_Exec
  imports Sql_Blocks
begin

text \<open>
  The statements of the tasker, one after the other: session number, uploads, the block of a
  request, the rest of a page, the killing of a session.  Each is executed with variables for
  exactly its placeholders.
\<close>

section \<open>Pieces without placeholders\<close>

definition closed_sql :: "string \<Rightarrow> bool" where
  "closed_sql s = (scan S_Text s = (S_Text, []))"

lemma closed_sql_simps [simp]:
  "closed_sql []" "plain s \<Longrightarrow> closed_sql s"
  by (simp_all add: closed_sql_def)

lemma closed_sql_append [simp]: "closed_sql a \<Longrightarrow> closed_sql b \<Longrightarrow> closed_sql (a @ b)"
  by (simp add: closed_sql_def scan_append)

lemma closed_sql_concat: "(\<And>i. i \<in> set ks \<Longrightarrow> closed_sql (f i)) \<Longrightarrow> closed_sql (concat (map f ks))"
  by (induction ks) auto

lemma closed_sqlD: "closed_sql s \<Longrightarrow> binds s = []" "closed_sql s \<Longrightarrow> fst (scan S_Text s) \<noteq> S_Quote"
  by (simp_all add: closed_sql_def binds_def)

lemma scan_escaped: "scan S_Quote (sql_escape v @ CHR 0x27 # s) = scan S_Text s"
  by (induction v) (simp_all add: sql_escape_Cons scan_text_def case_prod_beta Let_def)

lemma closed_quoted:
  "closed_sql (sql_quoted (sql_escape v))" "CHR 0x27 \<notin> set s \<Longrightarrow> closed_sql (sql_quoted s)"
  using scan_escaped [of v "[]"]
  by (simp_all add: closed_sql_def sql_quoted_def scan_text_def scan_append scan_quoted)

lemma plain_itoa: "plain (itoa (int n + 1))"
  using digits_plain [of "n + 1"] by (simp add: add.commute)

lemma closed_texts:
  "closed_sql '') := ''" "closed_sql ''  l_num_ext_params := ''" "closed_sql '';''" "closed_sql [LF]"
  "closed_sql ''  l_ext_param_name(''" "closed_sql ''  l_ext_param_val(''"
  by code_simp+

lemma closed_ext_lines:
  assumes "\<forall>n \<in> set names. is_ident n"
  shows "closed_sql (ext_lines names vals)"
proof -
  have name: "closed_sql (sql_quoted (to_upper (names ! i)))" if "i \<in> set [0 ..< length names]" for i
    using assms that ident_upper closed_quoted(2) by (simp add: is_ident_def)
  show ?thesis
    unfolding ext_lines_def
    by (intro closed_sql_append closed_sql_concat closed_texts closed_sql_simps(2) digits_plain
        plain_itoa closed_quoted(1) name; assumption)
qed

lemma scan_initParams: "scan S_Text initParams = (S_Text, [''num_params'', ''param_name'',
   ''param_val'', ''num_ext_params'', ''ext_param_name'', ''ext_param_val'', ''package_name''])"
  by code_simp

text \<open>What preparing a parameter never writes to.\<close>

lemma bind_var_fixed:
  "bind_var nv name ty key b st = Ok st' \<Longrightarrow> execDeclare st' = execDeclare st \<and> execSet st' = execSet st"
  by (auto simp: bind_var_Ok)

lemma store_scalar_fixed:
  "store_scalar nv proc name b st = Ok st' \<Longrightarrow> execDeclare st' = execDeclare st \<and> execSet st' = execSet st"
  by (auto simp: store_scalar_def bind_res_Ok bind_var_Ok store_with_def split: if_splits)

lemma prepare_tab_fixed:
  "prepare_tab nv name vals ty proc spec spec' shown st = Ok st' \<Longrightarrow>
   execDeclare st' = execDeclare st \<and> execSet st' = execSet st"
  by (auto simp: prepare_tab_def bind_res_Ok bind_var_Ok store_with_def call_with_def show_set_def
      show_decl_def Let_def split: if_splits)

lemma prepareParam_fixed:
  assumes "prepareParam nv name vals pty ty proc st = Ok st'"
  shows "execDeclare st' = execDeclare st \<and> execSet st' = execSet st"
proof (cases vals)
  case Nil
  with assms show ?thesis
    by (auto simp: prepareParam_def prepareStringParam_def prepare_number_def prepare_integer_def
        prepare_date_def prepare_boolean_def prepare_unknown_def prepare_tabs_def Let_def
        dest: prepare_tab_fixed split: if_splits)
next
  case (Cons v vs)
  with assms show ?thesis
    by (auto simp: prepareParam_def prepareStringParam_def prepare_number_def prepare_integer_def
        prepare_date_def prepare_boolean_def prepare_unknown_def prepare_tabs_def Let_def
        bind_res_Ok bind_var_Ok call_with_def show_set_def show_decl_def store_with_def
        dest!: prepare_tab_fixed store_scalar_fixed split: if_splits)
qed

section \<open>Shapes\<close>

lemma shape_binds:
  assumes "shape fmt = Some (n, ns)" "length as = n" "\<forall>a \<in> set as. fst (scan S_Text a) \<noteq> S_Quote"
  shows "set (binds (sprintf fmt as)) = set ns \<union> (\<Union>a \<in> set as. set (binds a))"
proof -
  obtain its where its: "scan_fmt S_Text fmt = Some its" "holes its = n" "ns = remdups (fixed_binds its)"
    using assms(1) by (auto simp: shape_def)
  from set_binds_sprintf [OF its(1) _ assms(3)] its assms(2) show ?thesis by simp
qed

lemma shape_binds_plain: "shape s = Some (0, ns) \<Longrightarrow> set (binds s) = set ns"
  by (auto simp: shape_def binds_of_fmt)

section \<open>The statements of a session\<close>

lemma agree_step:
  assumes "agree m m' V"
  shows "agree (andThen (openStep drv n ty) (\<lambda>_. deferred m (closeStep drv n)))
     (andThen (openStep drv n ty) (\<lambda>_. deferred m' (closeStep drv n))) V"
  by (rule agree_andThen [OF agree_same [OF kept.openStep]])
     (rule agree_deferred [OF assms kept.closeStep])

lemma agree_evalSessionID: "agree (evalSessionID (strict drv)) (evalSessionID drv) (\<lambda>_. True)"
  unfolding evalSessionID_def strict_simps strict_openStep strict_closeStep
  apply (rule agree_step)
  apply (rule agree_andThen [OF agree_same [OF keeps_update]], simp add: texts_def)
  apply (rule agree_andThen [OF agree_query [where V = "\<lambda>s. set (binds s) = {}"]])
   apply (force simp: good_texts_def dest: shape_binds_plain)
  apply (rule agree_andThen [OF agree_same [OF kept.setStepInfo]])
  apply (rule agree_andThen [OF agree_exec], simp)
  apply (rule agree_same)
  apply (intro kept.view_rules keeps_const keeps_update; simp add: texts_def)
  done

lemma agree_chunk_loop:
  assumes "set (binds stm) = dom ps"
  shows "agree (chunk_loop (strict drv) stm ps n) (chunk_loop drv stm ps n) (\<lambda>_. True)"
proof (induction n)
  case 0
  show ?case unfolding chunk_loop.simps by (rule agree_same) (rule keeps_ret)
next
  case (Suc n)
  show ?case
    unfolding chunk_loop.simps strict_check_sqlerr strict_value_of strict_next_exists
    by (rule agree_andThen [OF agree_exec [OF assms]],
        rule agree_andThen [OF agree_same [OF kept.check_sqlerr]],
        rule agree_andThen [OF agree_same [OF kept.value_of]],
        rule agree_andThen [OF agree_same [OF keeps_ret(3)]],
        rule agree_andThen [OF agree_same [OF kept.set_res]],
        rule agree_andThen [OF agree_same [OF keeps_ret(4)]],
        rule agree_if [OF Suc agree_same [OF keeps_ret(1)]])
qed

lemma rest_binds:
  "rest_shape s \<Longrightarrow> set (binds s) = {''Data'', ''bNextChunkExists''} \<union> sql_errors"
  by (auto simp: rest_shape_def dest!: shape_binds_plain)

lemma agree_getRestChunks: "agree (getRestChunks E (strict drv)) (getRestChunks E drv) (\<lambda>_. True)"
  unfolding getRestChunks_def strict_openStep strict_closeStep strict_make_binds
  apply (rule agree_step)
  apply (rule agree_andThen [OF agree_make_binds])
  apply (rule agree_andThen [OF agree_query [where V = rest_shape]], simp add: good_texts_def)
  apply (rule agree_andThen [OF agree_same [OF kept.setStepInfo]])
  apply (rule agree_andThen [OF agree_chunk_loop])
   apply (simp add: rest_binds error_vars_def sql_errors_def insert_commute)
  apply (rule agree_same [OF kept.setStepInfo])
  done

text \<open>Uploads: the two pieces of the text come from the configuration.\<close>

lemma upload_names:
  "set (map fst (upload_vars cgi up n i m ct c)) =
     {''num_params'', ''param_name'', ''param_val'', ''name'', ''mime_type'', ''doc_size'',
      ''content_type'', ''lob'', ''item_id'', ''application_id'', ''page_id'', ''session_id'',
      ''request'', ''ret_name''} \<union> sql_errors"
  by (simp add: upload_vars_def cgi_binds_def string_var_def error_vars_def sql_errors_def Let_def
      insert_commute)

lemma upload_binds:
  assumes "upload_shape fmt" "closed_sql b" "closed_sql t"
  shows "set (binds (sprintf fmt [b, t])) = set (map fst (upload_vars cgi up n i m ct c))"
proof -
  obtain ns where "shape fmt = Some (2, ns)" "set ns = set (map fst (upload_vars cgi up n i m ct c))"
    using assms(1) unfolding upload_shape_def upload_names by blast
  with shape_binds [of fmt 2 ns "[b, t]"] assms(2,3) show ?thesis by (simp add: closed_sqlD)
qed

lemma agree_saveFileToDB:
  assumes "closed_sql b" "closed_sql t"
  shows "agree (saveFileToDB (strict drv) b t cgi up n i m ct c) (saveFileToDB drv b t cgi up n i m ct c)
     (\<lambda>_. True)"
  unfolding saveFileToDB_def strict_openStep strict_closeStep strict_make_binds strict_check_sqlerr
    strict_simps Let_def
  apply (rule agree_step)
  apply (rule agree_andThen [OF agree_make_binds])
  apply (rule agree_andThen [OF agree_query [where V = upload_shape]], simp add: good_texts_def)
  apply (rule agree_andThen [OF agree_same [OF kept.setStepInfo]])
  apply (rule agree_andThen [OF agree_exec])
   apply (simp only: upload_binds [OF _ assms] dom_empty Un_empty_right)
  apply (rule agree_same)
  apply (intro kept.view_rules kept.check_sqlerr)
  apply (auto split: res.splits out_val.splits intro!: kept.view_rules)
  done

lemma agree_saveFile:
  assumes "closed_sql b" "closed_sql t"
  shows "agree (saveFile E (strict drv) b t cgi up fhs) (saveFile E drv b t cgi up fhs)
     (\<lambda>ns. length ns = length fhs)"
proof (induction fhs)
  case Nil
  show ?case by (simp add: agree_ret)
next
  case (Cons fh fhs)
  have one: "agree
      (case Header fh of None \<Rightarrow> ret (Filename fh)
       | Some h \<Rightarrow> andThen (lift (file_bytes E fh)) (\<lambda>y. saveFileToDB (strict drv) b t cgi up (f h) l (g h) (g h) y))
      (case Header fh of None \<Rightarrow> ret (Filename fh)
       | Some h \<Rightarrow> andThen (lift (file_bytes E fh)) (\<lambda>y. saveFileToDB drv b t cgi up (f h) l (g h) (g h) y))
      (\<lambda>_. True)" for f g l
    by (cases "Header fh")
       (auto intro: agree_ret agree_andThen [OF agree_same [OF keeps_ret(3)]] agree_saveFileToDB assms)
  show ?case
    unfolding saveFile.simps
    by (rule agree_andThen [OF one], rule agree_andThen [OF Cons], rule agree_ret) simp
qed

text \<open>Killing a session.\<close>

lemma kill_binds: "kill_shape s \<Longrightarrow> set (binds s) = {''sess_id'', ''ret'', ''out_err_msg''}"
  by (auto simp: kill_shape_def dest!: shape_binds_plain)

lemma agree_killSession:
  assumes "kill_shape stm"
  shows "agree (killSession (strict drv) stm u p c sid) (killSession drv stm u p c sid) (\<lambda>_. True)"
  unfolding killSession_def strict_simps
  apply (rule agree_andThen [OF agree_same [OF kept.call_driver]])
  apply (rule agree_deferred)
   apply (rule agree_andThen [OF agree_keeps [where V = "\<lambda>ps. dom ps = {''sess_id'', ''out_err_msg'', ''ret''}"]])
     apply (rule keeps_const)
    apply (drule prod.inject [THEN iffD1, THEN conjunct1])
    apply (drule make_vars_dom)
    apply simp
   apply (rule agree_andThen [OF agree_exec])
    apply (simp add: kill_binds [OF assms] insert_commute)
   apply (rule agree_same)
   apply (intro kept.view_rules keeps_const)
  apply (simp add: keeps_update texts_def)
  done

end
