(* ===== verification/Sql_Request.thy ===== *)
theory Sql_Request
  imports Sql_Exec
begin

text \<open>
  The block of a request has a placeholder for every variable that is bound, whatever
  parameters the request has: the parts written by \<open>prepareParam\<close> and the fixed text together.
  It follows that the whole of \<open>Run\<close> and \<open>Break\<close> behaves the same on a database that checks.
\<close>

section \<open>Requests\<close>

text \<open>Parameters are named by identifiers and have values; the scripts of the virtual directory
  have balanced quotes and no placeholders of their own; the procedure that saves parameters has
  neither quotes nor colons.  Where parameters are saved, the value of a boolean must have none
  either, as it is written into the block: the model asks it of every value.\<close>

definition clean_value :: "string \<Rightarrow> string list \<Rightarrow> bool" where
  "clean_value proc vs = (vs \<noteq> [] \<and> (proc = [] \<or> plain (to_lower (trimRightCRLF (hd vs)))))"

definition clean_params :: "string \<Rightarrow> multimap \<Rightarrow> bool" where
  "clean_params proc ps = (\<forall>p \<in> set ps. trim_set (fst p) '' '' \<noteq> [] \<longrightarrow>
     is_ident (trim_set (fst p) '' '') \<and> clean_value proc (snd p))"

definition clean_files :: "string \<Rightarrow> (string \<times> FileHeader list) list \<Rightarrow> bool" where
  "clean_files proc fs = (fs = [] \<or> proc = [] \<and> (\<forall>f \<in> set fs. is_ident (fst f) \<and> snd f \<noteq> []))"

definition clean_request :: "run_req \<Rightarrow> bool" where
  "clean_request q =
     (plain (paramStoreProc q) \<and> closed_sql (beforeScript q) \<and> closed_sql (afterScript q) \<and>
      closed_sql (documentTable q) \<and> closed_sql (procName q) \<and>
      clean_params (paramStoreProc q) (urlParams q) \<and>
      (case reqForm q of None \<Rightarrow> True | Some f \<Rightarrow> clean_files (paramStoreProc q) (form_File f)))"

section \<open>Collecting the parameters\<close>

text \<open>What the loops over files and parameters keep.\<close>

definition good_ext :: "string set \<Rightarrow> ext \<Rightarrow> bool" where
  "good_ext D x =
     (bound D (x_prep x) \<and> execDeclare (x_prep x) = [] \<and> execSet (x_prep x) = initParams \<and>
      (\<forall>n \<in> set (x_names x). is_ident n))"

lemma agree_prepare_arg:
  assumes "plain proc" "is_ident name" "clean_value proc vals" "bound D st"
  shows "agree (prepare_arg drv p name vals proc st) (prepare_arg drv p name vals proc st)
     (\<lambda>st'. bound D st' \<and> execDeclare st' = execDeclare st \<and> execSet st' = execSet st)"
proof (rule agree_keeps [OF kept.prepare_arg])
  fix r :: "'a oracleTasker" and st' r'
  assume "prepare_arg drv p name vals proc st r = (Ok st', r')"
  then obtain ty tn where
    "prepareParam (drv_new_var drv 0 (db r)) name vals ty tn proc st = Ok st'"
    by (auto simp: prepare_arg_def case_prod_beta Let_def)
  with prepareParam_placeholders [OF assms(1,2) _ assms(4) _ this] prepareParam_fixed [OF this] assms(3)
  show "bound D st' \<and> execDeclare st' = execDeclare st \<and> execSet st' = execSet st"
    by (auto simp: clean_value_def)
qed

lemma agree_run_params:
  assumes "plain proc" "clean_params proc ps" "good_ext D x"
  shows "agree (run_params drv p proc ps x) (run_params drv p proc ps x) (good_ext D)"
  using assms(2,3)
proof (induction ps arbitrary: x)
  case Nil
  then show ?case by (simp add: agree_ret)
next
  case (Cons f ps)
  obtain n vals where f: "f = (n, vals)" by fastforce
  let ?name = "trim_set n '' ''"
  have rest: "clean_params proc ps" using Cons.prems(1) by (simp add: clean_params_def)
  show ?case
  proof (cases "?name = []")
    case True
    with Cons.IH [OF rest Cons.prems(2)] f show ?thesis by (simp add: Let_def)
  next
    case False
    with Cons.prems(1) f have name: "is_ident ?name" "clean_value proc vals"
      by (simp_all add: clean_params_def)
    have ext: "good_ext D (x\<lparr>x_prep := st, x_names := x_names x @ [?name], x_vals := vs, x_name_len := l,
        x_val_len := k\<rparr>)"
      if "bound D st \<and> execDeclare st = execDeclare (x_prep x) \<and> execSet st = execSet (x_prep x)"
      for st vs l k
      using that Cons.prems(2) name(1) by (simp add: good_ext_def)
    from Cons.prems(2) have "bound D (x_prep x)" by (simp add: good_ext_def)
    note arg = agree_prepare_arg [OF assms(1) name this]
    show ?thesis
      unfolding f run_params.simps Let_def if_not_P [OF False]
      by (rule agree_andThen [OF arg], rule agree_andThen [OF agree_same [OF keeps_ret(3)]],
          rule Cons.IH [OF rest ext])
  qed
qed

lemma agree_run_files:
  assumes "clean_files proc fs" "closed_sql b" "closed_sql t" "good_ext D x"
  shows "agree (run_files E (strict drv) p proc b t cgi up fs x) (run_files E drv p proc b t cgi up fs x)
     (good_ext D)"
  using assms(1,4)
proof (induction fs arbitrary: x)
  case Nil
  then show ?case by (simp add: agree_ret)
next
  case (Cons f fs)
  obtain n fhs where f: "f = (n, fhs)" by fastforce
  with Cons.prems(1) have name: "proc = []" "is_ident n" "fhs \<noteq> []" "clean_files proc fs"
    by (auto simp: clean_files_def)
  have ext: "good_ext D (x\<lparr>x_prep := st, x_names := x_names x @ [n], x_vals := vs, x_val_len := k\<rparr>)"
    if "bound D st \<and> execDeclare st = execDeclare (x_prep x) \<and> execSet st = execSet (x_prep x)"
    for st vs k
    using that Cons.prems(2) name(2) by (simp add: good_ext_def)
  have arg: "agree (prepare_arg drv p n ns proc (x_prep x)) (prepare_arg drv p n ns proc (x_prep x))
     (\<lambda>st'. bound D st' \<and> execDeclare st' = execDeclare (x_prep x) \<and> execSet st' = execSet (x_prep x))"
    if "length ns = length fhs" for ns
    by (rule agree_prepare_arg)
       (use that name Cons.prems(2) in \<open>auto simp: clean_value_def good_ext_def\<close>)
  show ?case
    unfolding f run_files.simps strict_prepare_arg
    by (rule agree_andThen [OF agree_saveFile [OF assms(2,3)]], rule agree_andThen [OF arg], assumption,
        rule agree_andThen [OF agree_same [OF keeps_ret(3)]], rule Cons.IH [OF name(4) ext])
qed

lemma bound_params: "bound D st \<Longrightarrow> dom ps = A \<union> dom (params st) \<Longrightarrow> bound (A \<union> D) (st\<lparr>params := ps\<rparr>)"
  by (auto simp: bound_def)

lemma agree_package:
  assumes "good_ext D x"
  shows "agree
     (andThen (make_binds drv [package_var pkg] (params (x_prep x))) (\<lambda>ps. ret (x\<lparr>x_prep := (x_prep x)\<lparr>params := ps\<rparr>\<rparr>)))
     (andThen (make_binds drv [package_var pkg] (params (x_prep x))) (\<lambda>ps. ret (x\<lparr>x_prep := (x_prep x)\<lparr>params := ps\<rparr>\<rparr>)))
     (good_ext ({''package_name''} \<union> D))"
  using assms bound_params [of D "x_prep x" _ "{''package_name''}"]
  by (intro agree_andThen [OF agree_make_binds] agree_ret)
     (simp add: good_ext_def package_var_def)

text \<open>The three parameters of a resource.\<close>

lemma agree_resource:
  assumes "good_ext D x"
  shows "agree (resource_params drv parts cgi (x_prep x)) (resource_params drv parts cgi (x_prep x))
     (\<lambda>st. good_ext D (x\<lparr>x_prep := st\<rparr>))"
proof (rule agree_keeps [OF kept.resource_params])
  fix r :: "'a oracleTasker" and st r'
  let ?nv = "drv_new_var drv 0 (db r)"
  assume "resource_params drv parts cgi (x_prep x) r = (Ok st, r')"
  then obtain v w s1 s2 where s:
    "prepareStringParam ?nv ''amodule'' [v] ''varchar2'' [] (x_prep x) = Ok s1"
    "prepareStringParam ?nv ''amethod'' [cgi_get cgi ''REQUEST_METHOD''] ''varchar2'' [] s1 = Ok s2"
    "prepareStringParam ?nv ''aurl'' [w] ''varchar2'' [] s2 = Ok st"
    by (auto simp: resource_params_def Let_def bind_res_Ok)
  have step: "bound D s' \<and> execDeclare s' = execDeclare s \<and> execSet s' = execSet s"
    if "prepareStringParam ?nv n [u] ''varchar2'' [] s = Ok s'" "bound D s" "is_ident n" for n u s s'
  proof -
    have eq: "prepareParam ?nv n [u] oString ''varchar2'' [] s = Ok s'"
      using that(1) by (simp add: prepareParam_def)
    show ?thesis
      using prepareParam_placeholders [OF _ that(3) _ that(2) _ eq] prepareParam_fixed [OF eq] by simp
  qed
  have idents: "is_ident ''amodule''" "is_ident ''amethod''" "is_ident ''aurl''"
    by code_simp+
  from assms step [OF s(1) _ idents(1)] step [OF s(2) _ idents(2)] step [OF s(3) _ idents(3)]
  show "good_ext D (x\<lparr>x_prep := st\<rparr>)" by (simp add: good_ext_def)
qed

lemma agree_run_args_part:
  assumes "clean_request q" "good_ext D x"
  shows "agree (run_args_part E (strict drv) q parts cgi x) (run_args_part E drv q parts cgi x)
     (good_ext ({''package_name''} \<union> D))"
proof -
  from assms(1) have q: "plain (paramStoreProc q)" "closed_sql (beforeScript q)"
    "closed_sql (documentTable q)" "clean_params (paramStoreProc q) (urlParams q)"
    by (simp_all add: clean_request_def)
  have files: "agree
      (case reqForm q of None \<Rightarrow> ret x
       | Some f \<Rightarrow> run_files E (strict drv) (procName q) (paramStoreProc q) (beforeScript q) (documentTable q)
                    cgi (urlParams q) (form_File f) x)
      (case reqForm q of None \<Rightarrow> ret x
       | Some f \<Rightarrow> run_files E drv (procName q) (paramStoreProc q) (beforeScript q) (documentTable q)
                    cgi (urlParams q) (form_File f) x) (good_ext D)"
    using assms by (cases "reqForm q") (auto simp: clean_request_def intro: agree_ret agree_run_files)
  have info: "keeps texts (\<lambda>r. (let (_, pkg, e) = ProcedureInfo (plist_cache r) (connStr r) (procName q)
                      in (bind_res (of_error e) (\<lambda>_. Ok pkg), r)))"
    by (simp add: keeps_def case_prod_beta)
  have resource: "agree
       (andThen (make_binds drv [package_var []] (params st)) (\<lambda>ps. ret (x\<lparr>x_prep := st\<lparr>params := ps\<rparr>\<rparr>)))
       (andThen (make_binds drv [package_var []] (params st)) (\<lambda>ps. ret (x\<lparr>x_prep := st\<lparr>params := ps\<rparr>\<rparr>)))
       (good_ext ({''package_name''} \<union> D))"
    if "good_ext D (x\<lparr>x_prep := st\<rparr>)" for st
    using agree_package [OF that, of drv "[]"] by simp
  show ?thesis
    unfolding run_args_part_def strict_resource_params strict_make_binds strict_run_params
    by (rule agree_if, rule agree_andThen [OF agree_resource [OF assms(2)]], rule resource, assumption,
        rule agree_andThen [OF files], rule agree_andThen [OF agree_run_params [OF q(1,4)]], assumption,
        rule agree_andThen [OF agree_same [OF info]], rule agree_package)
qed

section \<open>The block\<close>

lemma base_names:
  "set (map fst (base_vars cgi keys)) =
     {''num_params'', ''param_name'', ''param_val'', ''ContentType'', ''ContentLength'',
      ''CustomHeaders'', ''rc__'', ''content__'', ''bNextChunkExists'', ''lob__''} \<union> sql_errors"
  by (simp add: base_vars_def cgi_binds_def error_vars_def sql_errors_def Let_def insert_commute)

lemma ext_names:
  "set (map fst (ext_vars x)) = {''ext_param_name'', ''ext_param_val'', ''num_ext_params''}"
  by (simp add: ext_vars_def)

lemma set_part:
  assumes "good_ext D x"
  shows "set (binds (execSet (x_prep x) @ ext_lines (x_names x) vals)) =
     {''num_params'', ''param_name'', ''param_val'', ''num_ext_params'', ''ext_param_name'',
      ''ext_param_val'', ''package_name''}"
    "fst (scan S_Text (execSet (x_prep x) @ ext_lines (x_names x) vals)) = S_Text"
proof -
  from assms have "closed_sql (ext_lines (x_names x) vals)" "execSet (x_prep x) = initParams"
    by (simp_all add: good_ext_def closed_ext_lines)
  then have "scan S_Text (execSet (x_prep x) @ ext_lines (x_names x) vals) =
     (S_Text, [''num_params'', ''param_name'', ''param_val'', ''num_ext_params'', ''ext_param_name'',
      ''ext_param_val'', ''package_name''])"
    by (simp only: scan_append scan_initParams closed_sql_def fst_conv snd_conv append_Nil2)
  then show
    "set (binds (execSet (x_prep x) @ ext_lines (x_names x) vals)) =
      {''num_params'', ''param_name'', ''param_val'', ''num_ext_params'', ''ext_param_name'',
       ''ext_param_val'', ''package_name''}"
    "fst (scan S_Text (execSet (x_prep x) @ ext_lines (x_names x) vals)) = S_Text"
    by (simp_all add: binds_def)
qed

lemma block_binds:
  assumes "main_shape fmt" "closed_sql b" "closed_sql a" "closed_sql proc"
    and "good_ext ({''package_name''} \<union> set (map fst (base_vars cgi keys))) x"
    and "dom ps = set (map fst (ext_vars x)) \<union> dom (params (x_prep x))"
  shows "set (binds (sprintf fmt [execDeclare (x_prep x), execSet (x_prep x) @ ext_lines (x_names x) vals,
      b, execStore (x_prep x), proc, execProc (x_prep x), a])) = dom ps"
proof -
  let ?st = "x_prep x"
  let ?main = "{''ContentType'', ''ContentLength'', ''CustomHeaders'', ''rc__'', ''content__'',
      ''bNextChunkExists'', ''lob__''} \<union> sql_errors"
  obtain ns where ns: "shape fmt = Some (7, ns)" "set ns = ?main"
    using assms(1) by (auto simp: main_shape_def)
  have st: "bound ({''package_name''} \<union> set (map fst (base_vars cgi keys))) ?st" "execDeclare ?st = []"
    using assms(5) by (simp_all add: good_ext_def)
  have modes: "fst (scan S_Text (execProc ?st)) \<noteq> S_Quote" "fst (scan S_Text (execStore ?st)) \<noteq> S_Quote"
    using st(1) by (simp_all add: bound_def)
  have "set (binds (sprintf fmt [execDeclare ?st, execSet ?st @ ext_lines (x_names x) vals,
      b, execStore ?st, proc, execProc ?st, a])) =
    ?main \<union> (set (binds (execSet ?st @ ext_lines (x_names x) vals)) \<union> set (binds (execStore ?st)) \<union>
      set (binds (execProc ?st)))"
    using shape_binds [OF ns(1), of "[execDeclare ?st, execSet ?st @ ext_lines (x_names x) vals,
      b, execStore ?st, proc, execProc ?st, a]"] modes set_part(2) [OF assms(5), of vals]
      closed_sqlD assms(2-4)
    unfolding ns(2) st(2) by (auto simp: binds_def)
  moreover have "dom ps = {''ext_param_name'', ''ext_param_val'', ''num_ext_params''} \<union>
      ({''package_name''} \<union> set (map fst (base_vars cgi keys)) \<union> set (binds (execProc ?st)) \<union>
       set (binds (execStore ?st)))"
    using assms(6) st(1) unfolding ext_names bound_def by simp
  ultimately show ?thesis
    unfolding set_part(1) [OF assms(5)] base_names by (simp add: insert_commute Un_commute Un_left_commute)
qed

lemma agree_read_page: "agree (read_page E (strict drv) ct) (read_page E drv ct) (\<lambda>_. True)"
  unfolding read_page_def strict_value_of
  apply (rule agree_andThen [OF agree_same [OF kept.value_of]])
  apply (rule agree_if [OF agree_ret], simp)
  apply (rule agree_andThen [OF agree_same [OF keeps_ret(3)]])
  apply (rule agree_andThen [OF agree_same [OF kept.set_res]])
  apply (rule agree_andThen [OF agree_same [OF kept.value_of]])
  apply (rule agree_andThen [OF agree_same [OF keeps_ret(3)]])
  apply (rule agree_andThen [OF agree_if [OF agree_ignore [OF agree_getRestChunks] agree_same [OF keeps_ret(1)]]])
  apply (rule agree_same)
  apply (intro kept.view_rules)
  done

lemma agree_read_answer: "agree (read_answer E (strict drv) stm shown) (read_answer E drv stm shown) (\<lambda>_. True)"
  unfolding read_answer_def strict_check_sqlerr strict_read_headers strict_value_of strict_read_file
  apply (rule agree_andThen [OF agree_same [OF kept.check_sqlerr]])
  apply (rule agree_andThen [OF agree_same [OF kept.read_headers]])
  apply (rule agree_andThen [OF agree_same [OF kept.value_of]])
  apply (rule agree_andThen [OF agree_same [OF keeps_ret(3)]])
  apply (rule agree_andThen [OF agree_if [OF agree_read_page agree_same]])
   apply (intro kept.view_rules kept.read_file)
  apply (rule agree_same)
  apply (intro kept.view_rules)
  done

lemma agree_run_block:
  assumes "clean_request q"
  shows "agree (run_block E (strict drv) q parts cgi) (run_block E drv q parts cgi) (\<lambda>_. True)"
proof -
  from assms have q: "closed_sql (beforeScript q)" "closed_sql (afterScript q)" "closed_sql (procName q)"
    by (simp_all add: clean_request_def)
  have resource: "closed_sql ''get_resource''" by code_simp
  have start: "good_ext (dom ps) (empty_ext ps initParams shown)" for ps shown
    by (simp add: good_ext_def empty_ext_def bound_def binds_def)
  show ?thesis
    unfolding run_block_def strict_make_binds Let_def
    apply (rule agree_andThen [OF agree_make_binds])
    apply (rule agree_andThen [OF agree_run_args_part [OF assms start]])
    apply (rule agree_andThen [OF agree_make_binds])
    apply (rule agree_andThen [OF agree_query [where V = main_shape]], simp add: good_texts_def)
    apply (rule agree_andThen [OF agree_same [OF kept.setStepInfo]])
    apply (rule agree_andThen [OF agree_exec agree_read_answer])
    apply (rule block_binds)
         apply assumption
        apply (rule q)+
      apply (simp add: q resource)
     apply simp
    apply simp
    done
qed

section \<open>Whole requests\<close>

lemma agree_run:
  assumes "clean_request q"
  shows "agree (run E (strict drv) q) (run E drv q) (\<lambda>_. True)"
  unfolding run_def Let_def strict_describe_step strict_openStep strict_closeStep
  by (rule agree_andThen [OF agree_same], intro kept.view_rules kept.describe_step,
      rule agree_step, rule agree_run_block [OF assms])

lemma kept_disconnect:
  fixes drv :: "'d driver"
  shows "keeps texts (disconnect drv)"
  unfolding keeps_def
proof
  fix r :: "'d oracleTasker"
  have "keeps texts
        (andThen
          (if drv_connected drv 0 (db r) then
             andThen (openStep drv stepDisconnectNum ''disconnect'') (\<lambda>_.
             andThen (setStepInfo stepDisconnectNum ''disconnect'' ''disconnect'' False) (\<lambda>_.
             andThen (update (\<lambda>r. r\<lparr>db := snd (drv_close drv 0 (db r))\<rparr>)) (\<lambda>_.
             andThen (setStepInfo stepDisconnectNum ''disconnect'' ''disconnect'' True) (\<lambda>_.
             closeStep drv stepDisconnectNum))))
           else update (\<lambda>r. r\<lparr>db := drv_free drv 0 (db r)\<rparr>))
          (\<lambda>_. update (\<lambda>r. r\<lparr>conn := False, connUserName := [], connUserPass := [], connStr := [],
             sessID := []\<rparr>)))"
    by (intro kept.view_rules keeps_update) (simp_all add: texts_def)
  then show "texts (snd (disconnect drv r)) = texts r" by (simp add: keeps_def disconnect_def)
qed

lemma kept_finish_error: "keeps texts (finish_error E drv u c f cgi bg e)"
  unfolding finish_error_def dumpError_def Let_def case_prod_beta
  by (intro kept.view_rules keeps_update kept_disconnect) (simp_all add: texts_def)

lemma agree_connect: "agree (connect (strict drv) u p c) (connect drv u p c) (\<lambda>_. True)"
proof -
  let ?m = "\<lambda>drv. andThen (disconnect drv) (\<lambda>_.
        andThen (openStep drv stepConnectNum ''connect'') (\<lambda>_.
        deferred
          (andThen (setStepInfo stepConnectNum ''connect'' ''connect'' False) (\<lambda>_.
           andThen (update (\<lambda>r. r\<lparr>conn := True\<rparr>)) (\<lambda>_.
           andThen (call_driver (drv_connect drv 0 u p c)) (\<lambda>_.
           andThen (update (\<lambda>r. r\<lparr>connUserName := u, connUserPass := p, connStr := c\<rparr>)) (\<lambda>_.
           andThen (evalSessionID drv) (\<lambda>_.
           setStepInfo stepConnectNum ''connect'' ''connect'' True))))))
          (closeStep drv stepConnectNum)))"
  have "agree (?m (strict drv)) (?m drv) (\<lambda>_. True)"
    unfolding strict_disconnect strict_openStep strict_closeStep strict_simps
    apply (rule agree_andThen [OF agree_same [OF kept_disconnect]])
    apply (rule agree_step)
    apply (rule agree_andThen [OF agree_same [OF kept.setStepInfo]])
    apply (rule agree_andThen [OF agree_same [OF keeps_update]], simp add: texts_def)
    apply (rule agree_andThen [OF agree_same [OF kept.call_driver]])
    apply (rule agree_andThen [OF agree_same [OF keeps_update]], simp add: texts_def)
    apply (rule agree_andThen [OF agree_evalSessionID])
    apply (rule agree_same [OF kept.setStepInfo])
    done
  moreover have "agree (\<lambda>r. if \<not> drv_connected drv 0 (db r) then (Panic, r) else (Ok (), r))
      (\<lambda>r. if \<not> drv_connected drv 0 (db r) then (Panic, r) else (Ok (), r)) (\<lambda>_. True)"
    by (simp add: agree_def)
  ultimately show ?thesis
    unfolding connect_def strict_simps by (rule agree_state_if)
qed

lemma agree_on_error:
  fixes m :: "('d, unit) meth"
  assumes "agree m m' U" "\<And>e. keeps texts (h e)" "agree k k' V"
  shows "agree (on_error m h k) (on_error m' h k') (\<lambda>_. True)"
  unfolding agree_def
proof (intro allI impI conjI TrueI)
  fix r :: "'d oracleTasker"
  assume r: "good_texts r"
  obtain y r1 where m: "m' r = (y, r1)" by fastforce
  from assms(1) r m have 1: "m r = (y, r1)" "good_texts r1" unfolding agree_def by fastforce+
  have h: "good_texts (snd (h e r1))" for e
    using good_texts_cong [of "snd (h e r1)" r1] assms(2) [of e] 1(2) by (simp add: keeps_def)
  from assms(3) 1 m h show "on_error m h k r = on_error m' h k' r"
    "good_texts (snd (on_error m' h k' r))"
    by (cases y; simp add: on_error_def agree_def)+
qed

lemma agree_Run:
  assumes "clean_request q"
  shows "agree (Run E (strict drv) sid tid u p c q f) (Run E drv sid tid u p c q f) (\<lambda>_. True)"
  unfolding Run_def strict_simps strict_finish_error
  apply (rule agree_andThen [OF agree_same [OF keeps_update]])
   apply (simp add: start_log_def initLog_def texts_def)
  apply (rule agree_if [OF agree_same [OF keeps_ret(3)]])
  apply (rule agree_deferred)
   apply (rule agree_andThen [OF agree_same [OF keeps_ret(4)]])
   apply (rule agree_on_error [OF agree_connect kept_finish_error])
   apply (rule agree_on_error [OF agree_run [OF assms] kept_finish_error agree_same])
   apply (rule keeps_update, simp add: texts_def)
  apply (rule keeps_update, simp add: texts_def)
  done

lemma agreeD: "agree m m' V \<Longrightarrow> good_texts r \<Longrightarrow> m r = m' r"
  by (simp add: agree_def)

text \<open>C6: every statement a clean request executes has exactly the placeholders it has variables for:
  with any of the three taskers, the request behaves the same on the database and on one that refuses
  statements whose placeholders are not the bound variables.  Clean means: the parameters and file fields have
  identifiers as names and have values; the scripts of the virtual directory, the document table and the procedure
  have balanced quotes and no placeholders of their own; the procedure that saves parameters, if there is one, has
  no quotes and colons, then the first value of no parameter has quotes or colons either, and there are no
  uploaded files.\<close>

theorem Run_placeholders:
  assumes "taskerFactory k = Some mk" "texts r = texts (mk now d pl)" "clean_request q"
  shows "Run E (strict drv) sid tid u p c q f r = Run E drv sid tid u p c q f r"
proof -
  have "good_texts r" using taskerFactory_good [OF assms(1)] good_texts_cong [OF assms(2)] by simp
  then show ?thesis by (rule agreeD [OF agree_Run [OF assms(3)]])
qed

text \<open>The same holds of interrupting: the statement \<open>Break\<close> executes on a connection of its
  own has exactly the placeholders it has variables for.\<close>

theorem Break_placeholders:
  assumes "taskerFactory k = Some mk" "texts r = texts (mk now d pl)"
  shows "Break (strict drv) r = Break drv r"
proof -
  have r: "good_texts r" using taskerFactory_good [OF assms(1)] good_texts_cong [OF assms(2)] by simp
  have "killSession (strict drv) (stmKillSession r) u p c i r = killSession drv (stmKillSession r) u p c i r"
    for u p c i
  proof (rule agreeD [OF agree_killSession])
    show "kill_shape (stmKillSession r)" using r by (simp add: good_texts_def)
  qed (rule r)
  then show ?thesis by (simp add: Break_def)
qed

text \<open>A request with a parameter that the procedure does not declare, which is saved in the
  context, on a tasker of each kind.\<close>

definition page_request :: run_req where
  "page_request = \<lparr>paramStoreProc = ''ctx.put'', beforeScript = ''init;'', afterScript = [],
     documentTable = ''docs'', cgiEnv = [(''REQUEST_METHOD'', ''GET'')], procName = ''page'',
     urlParams = [(''p_id'', [''5''])], reqForm = None\<rparr>"

lemma page_request_clean: "clean_request page_request"
  by code_simp

lemma factory_entries:
  "taskerFactory ApexTasker = Some NewOwaApexProcTasker"
  "taskerFactory EkbTasker = Some NewOwaEkbProcTasker"
  by (simp_all add: taskerFactory_def ClassicTasker_def ApexTasker_def EkbTasker_def)

theorem Run_placeholders_witness:
  "\<forall>E drv d. Run E (strict drv) ''s'' ''t'' ''u'' ''p'' ''c'' page_request ''f''
      (NewOwaEkbProcTasker 0 (d :: nat) Map.empty) =
    Run E drv ''s'' ''t'' ''u'' ''p'' ''c'' page_request ''f'' (NewOwaEkbProcTasker 0 d Map.empty)"
  by (intro allI) (rule Run_placeholders [OF factory_entries(2) refl page_request_clean])

theorem Break_placeholders_witness:
  "\<forall>drv d. Break (strict drv) (NewOwaApexProcTasker 0 (d :: nat) Map.empty) =
     Break drv (NewOwaApexProcTasker 0 d Map.empty)"
  by (intro allI) (rule Break_placeholders [OF factory_entries(1) refl])

end
