(* ===== verification/Http.thy ===== *)
theory Http
  imports Text_Filters
begin

text \<open>
  What the program uses of Go's package \<open>net/http\<close> and its neighbours: the request, the
  response writer, the basic authentication header with its base64 payload, \<open>path.Clean\<close> and
  \<open>http.Redirect\<close>.  The response writer keeps the server's rule that the first
  \<open>WriteHeader\<close> (or the first \<open>Write\<close>, with status 200) fixes status and headers;
  headers set later are not sent.
\<close>

section \<open>Base64\<close>

definition b64_char :: "nat \<Rightarrow> char" where
  "b64_char n = ''ABCDEFGHIJKLMNOPQRSTUVWXYZabcdefghijklmnopqrstuvwxyz0123456789+/'' ! n"

definition b64_val :: "char \<Rightarrow> nat option" where
  "b64_val c =
     (let n = byte_of c
      in if 65 \<le> n \<and> n \<le> 90 then Some (n - 65)
         else if 97 \<le> n \<and> n \<le> 122 then Some (n - 71)
         else if 48 \<le> n \<and> n \<le> 57 then Some (n + 4)
         else if n = 43 then Some 62
         else if n = 47 then Some 63
         else None)"

fun b64_encode :: "bytes \<Rightarrow> string" where
  "b64_encode [] = []"
| "b64_encode [a] =
     [b64_char (byte_of a div 4), b64_char (byte_of a mod 4 * 16), CHR ''='', CHR ''='']"
| "b64_encode [a, b] =
     [b64_char (byte_of a div 4), b64_char (byte_of a mod 4 * 16 + byte_of b div 16),
      b64_char (byte_of b mod 16 * 4), CHR ''='']"
| "b64_encode (a # b # c # cs) =
     [b64_char (byte_of a div 4), b64_char (byte_of a mod 4 * 16 + byte_of b div 16),
      b64_char (byte_of b mod 16 * 4 + byte_of c div 64), b64_char (byte_of c mod 64)] @
     b64_encode cs"

text \<open>The decoder of \<open>encoding/base64\<close> works on groups of four; padding is only allowed in the
  last group, and unused bits of it are not looked at.\<close>

definition quad_bytes :: "nat \<Rightarrow> nat \<Rightarrow> nat \<Rightarrow> nat \<Rightarrow> bytes" where
  "quad_bytes w x y z =
     [chr_of (w * 4 + x div 16), chr_of (x mod 16 * 16 + y div 4), chr_of (y mod 4 * 64 + z)]"

fun b64_groups :: "string \<Rightarrow> bytes option" where
  "b64_groups [] = Some []"
| "b64_groups (a # b # c # d # cs) =
     (case (b64_val a, b64_val b) of
        (Some w, Some x) \<Rightarrow>
          if d = CHR ''='' then
            (if cs \<noteq> [] then None
             else if c = CHR ''='' then Some (take 1 (quad_bytes w x 0 0))
             else (case b64_val c of None \<Rightarrow> None | Some y \<Rightarrow> Some (take 2 (quad_bytes w x y 0))))
          else
            (case (b64_val c, b64_val d, b64_groups cs) of
               (Some y, Some z, Some r) \<Rightarrow> Some (quad_bytes w x y z @ r)
             | _ \<Rightarrow> None)
      | _ \<Rightarrow> None)"
| "b64_groups _ = None"

definition b64_decode :: "string \<Rightarrow> bytes option" where
  "b64_decode s = b64_groups (filter (\<lambda>c. c \<noteq> CR \<and> c \<noteq> LF) s)"

lemma b64_alphabet:
  "map b64_val ''ABCDEFGHIJKLMNOPQRSTUVWXYZabcdefghijklmnopqrstuvwxyz0123456789+/'' = map Some [0..<64]"
  by (simp add: b64_val_def byte_of_def upt_rec)

lemma b64_val_char [simp]:
  assumes "n < 64" shows "b64_val (b64_char n) = Some n"
proof -
  let ?cs = "''ABCDEFGHIJKLMNOPQRSTUVWXYZabcdefghijklmnopqrstuvwxyz0123456789+/''"
  have len: "length ?cs = 64" by simp
  from assms len have "map b64_val ?cs ! n = b64_val (?cs ! n)" by (simp only: nth_map)
  moreover from assms have "map Some [0..<64] ! n = Some n" by simp
  ultimately show ?thesis unfolding b64_char_def using b64_alphabet by metis
qed

lemma b64_char_facts:
  assumes "n < 64"
  shows "b64_char n \<noteq> CHR ''=''" "b64_char n \<noteq> CR" "b64_char n \<noteq> LF"
proof -
  have none: "b64_val (CHR ''='') = None" "b64_val CR = None" "b64_val LF = None"
    by (simp_all add: b64_val_def byte_of_def CR_def LF_def)
  have "b64_char n \<noteq> c" if "b64_val c = None" for c
    using b64_val_char [OF assms] that by auto
  from this [OF none(1)] this [OF none(2)] this [OF none(3)]
  show "b64_char n \<noteq> CHR ''=''" "b64_char n \<noteq> CR" "b64_char n \<noteq> LF" .
qed

lemma bits_less:
  fixes a b :: char
  shows "byte_of a div 4 < 64" "byte_of a mod 4 * 16 < 64" "byte_of a mod 16 * 4 < 64"
    "byte_of a mod 4 * 16 + byte_of b div 16 < 64" "byte_of a mod 16 * 4 + byte_of b div 64 < 64"
    "byte_of a mod 64 < 64"
proof -
  have d: "byte_of a div 4 < 64" "byte_of b div 16 < 16" "byte_of b div 64 < 4"
    by (simp_all add: less_mult_imp_div_less)
  have m: "byte_of a mod 4 < 4" "byte_of a mod 16 < 16" by simp_all
  show "byte_of a div 4 < 64" by (rule d)
  show "byte_of a mod 4 * 16 < 64" "byte_of a mod 16 * 4 < 64" using m by linarith+
  show "byte_of a mod 4 * 16 + byte_of b div 16 < 64" using m d by linarith
  show "byte_of a mod 16 * 4 + byte_of b div 64 < 64" using m d by linarith
  show "byte_of a mod 64 < 64" by simp
qed

lemma equals_no_break: "CHR ''='' \<noteq> CR" "CHR ''='' \<noteq> LF"
  by (simp_all add: CR_def LF_def)

lemma b64_encode_no_break: "c \<in> set (b64_encode s) \<Longrightarrow> c \<noteq> CR \<and> c \<noteq> LF"
  by (induction s rule: b64_encode.induct) (auto simp: b64_char_facts bits_less equals_no_break)

lemma quad_bytes_join:
  "quad_bytes (byte_of a div 4) (byte_of a mod 4 * 16 + byte_of b div 16)
     (byte_of b mod 16 * 4 + byte_of c div 64) (byte_of c mod 64) = [a, b, c]"
  "take 2 (quad_bytes (byte_of a div 4) (byte_of a mod 4 * 16 + byte_of b div 16)
     (byte_of b mod 16 * 4) 0) = [a, b]"
  "take 1 (quad_bytes (byte_of a div 4) (byte_of a mod 4 * 16) 0 0) = [a]"
proof -
  have small: "byte_of x div 16 < 16" "byte_of x div 64 < 4" for x
    by (simp_all add: less_mult_imp_div_less)
  have join: "byte_of a div 4 * 4 + (byte_of a mod 4 * 16 + y) div 16 = byte_of a" if "y < 16" for a y
    using that by (simp add: div_mult_self3)
  have mid: "(byte_of a mod 4 * 16 + y) mod 16 * 16 + (byte_of b mod 16 * 4 + z) div 4 = byte_of b"
    if y: "y = byte_of b div 16" and z: "z < 4" for a b y z
    using z small(1) [of b] unfolding y by (simp add: div_mult_self3)
  have last: "(byte_of b mod 16 * 4 + byte_of c div 64) mod 4 * 64 + byte_of c mod 64 = byte_of c" for b c
    using small(2) [of c] by simp
  show "quad_bytes (byte_of a div 4) (byte_of a mod 4 * 16 + byte_of b div 16)
     (byte_of b mod 16 * 4 + byte_of c div 64) (byte_of c mod 64) = [a, b, c]"
    using join [OF small(1)] mid [OF refl small(2)] last by (simp add: quad_bytes_def)
  show "take 2 (quad_bytes (byte_of a div 4) (byte_of a mod 4 * 16 + byte_of b div 16)
     (byte_of b mod 16 * 4) 0) = [a, b]"
    using join [OF small(1)] mid [OF refl, of 0 a b] by (simp add: quad_bytes_def)
  show "take 1 (quad_bytes (byte_of a div 4) (byte_of a mod 4 * 16) 0 0) = [a]"
    using join [of 0 a] by (simp add: quad_bytes_def)
qed

lemma b64_groups_encode: "b64_groups (b64_encode s) = Some s"
proof (induction s rule: b64_encode.induct)
  case (2 a)
  show ?case using quad_bytes_join(3) [of a] by (simp add: b64_char_facts bits_less)
next
  case (3 a b)
  show ?case using quad_bytes_join(2) [of a b] by (simp add: b64_char_facts bits_less)
next
  case (4 a b c cs)
  then show ?case using quad_bytes_join(1) [of a b c] by (simp add: b64_char_facts bits_less)
qed simp

lemma b64_decode_encode: "b64_decode (b64_encode s) = Some s"
proof -
  have "filter (\<lambda>c. c \<noteq> CR \<and> c \<noteq> LF) (b64_encode s) = b64_encode s"
    using b64_encode_no_break by (auto simp: filter_id_conv)
  then show ?thesis by (simp add: b64_decode_def b64_groups_encode)
qed

interpretation base64: codec b64_encode b64_decode
  by unfold_locales (rule b64_decode_encode)

section \<open>Requests\<close>

record request =
  Method :: string
  URL_Path :: string
  RawQuery :: string
  Host :: string
  RemoteAddr :: string
  Proto :: string
  TLS :: bool
  ReqHeader :: multimap
  ReqForm :: multimap
  PostForm :: multimap
  MultipartForm :: "Form option"

text \<open>\<open>FormValue\<close> of a request whose form has been parsed.\<close>

definition FormValue :: "request \<Rightarrow> string \<Rightarrow> string" where
  "FormValue r k = vals_get (ReqForm r) k"

definition req_header :: "request \<Rightarrow> string \<Rightarrow> string" where
  "req_header r k = header_get (ReqHeader r) k"

text \<open>\<open>Request.BasicAuth\<close>: the payload is cut at its first colon.\<close>

definition BasicAuth :: "request \<Rightarrow> (string \<times> string) option" where
  "BasicAuth r =
     (let auth = req_header r ''Authorization''
      in if \<not> has_prefix auth ''Basic '' then None
         else case b64_decode (drop 6 auth) of
                None \<Rightarrow> None
              | Some cs \<Rightarrow>
                  (case first_index (CHR '':'') cs of
                     None \<Rightarrow> None
                   | Some i \<Rightarrow> Some (take i cs, drop (i + 1) cs)))"

definition basic_header :: "string \<Rightarrow> string \<Rightarrow> string" where
  "basic_header user pass = ''Basic '' @ b64_encode (user @ '':'' @ pass)"

lemma first_index_append:
  "c \<notin> set a \<Longrightarrow> first_index c (a @ c # b) = Some (length a)"
  unfolding first_index_def by (subst takeWhile_append2) auto

lemma BasicAuth_basic_header:
  assumes "req_header r ''Authorization'' = basic_header user pass" "CHR '':'' \<notin> set user"
  shows "BasicAuth r = Some (user, pass)"
  using assms first_index_append [OF assms(2), of pass]
  by (simp add: BasicAuth_def basic_header_def has_prefix_def base64.dec_enc)

section \<open>Response writers\<close>

record writer =
  w_header :: multimap
  w_sent :: "(int \<times> multimap) option"
  w_body :: bytes

definition new_writer :: writer where
  "new_writer = \<lparr>w_header = [], w_sent = None, w_body = []\<rparr>"

definition header_set :: "multimap \<Rightarrow> string \<Rightarrow> string \<Rightarrow> multimap" where
  "header_set h k v = vals_set h (CanonicalHeaderKey k) [v]"

definition w_set :: "string \<Rightarrow> string \<Rightarrow> writer \<Rightarrow> writer" where
  "w_set k v w = w\<lparr>w_header := header_set (w_header w) k v\<rparr>"

definition w_add :: "string \<Rightarrow> string \<Rightarrow> writer \<Rightarrow> writer" where
  "w_add k v w = w\<lparr>w_header := header_add (w_header w) k v\<rparr>"

definition WriteHeader :: "int \<Rightarrow> writer \<Rightarrow> writer" where
  "WriteHeader status w =
     (case w_sent w of
        Some _ \<Rightarrow> w
      | None \<Rightarrow> w\<lparr>w_sent := Some (status, w_header w)\<rparr>)"

definition Write :: "bytes \<Rightarrow> writer \<Rightarrow> writer" where
  "Write b w = (let w' = WriteHeader StatusOK w in w'\<lparr>w_body := w_body w' @ b\<rparr>)"

text \<open>The status the client sees once the handler has returned: a response that was never
  started is sent with status 200.\<close>

definition status_of :: "writer \<Rightarrow> int" where
  "status_of w = (case w_sent w of None \<Rightarrow> StatusOK | Some (s, _) \<Rightarrow> s)"

definition headers_of :: "writer \<Rightarrow> multimap" where
  "headers_of w = (case w_sent w of None \<Rightarrow> w_header w | Some (_, h) \<Rightarrow> h)"

lemma WriteHeader_first: "w_sent w = None \<Longrightarrow> WriteHeader s w = w\<lparr>w_sent := Some (s, w_header w)\<rparr>"
  by (simp add: WriteHeader_def)

lemma WriteHeader_again [simp]: "w_sent w = Some x \<Longrightarrow> WriteHeader s w = w"
  by (simp add: WriteHeader_def)

lemma sent_simps [simp]:
  "w_sent (w_set k v w) = w_sent w" "w_sent (w_add k v w) = w_sent w"
  "w_body (w_set k v w) = w_body w" "w_body (w_add k v w) = w_body w"
  "w_sent (Write b w) = w_sent (WriteHeader StatusOK w)"
  "w_body (WriteHeader s w) = w_body w" "w_body (Write b w) = w_body w @ b"
  "w_sent (WriteHeader s w) = (case w_sent w of None \<Rightarrow> Some (s, w_header w) | Some x \<Rightarrow> Some x)"
  "w_header (WriteHeader s w) = w_header w" "w_header (Write b w) = w_header w"
  by (simp_all add: w_set_def w_add_def Write_def Let_def WriteHeader_def split: option.splits)

lemma new_writer_simps [simp]:
  "w_sent new_writer = None" "w_header new_writer = []" "w_body new_writer = []"
  by (simp_all add: new_writer_def)

lemma status_of_Some: "w_sent w = Some (s, h) \<Longrightarrow> status_of w = s"
  by (simp add: status_of_def)

lemma status_kept:
  "status_of (w_set k v w) = status_of w" "status_of (w_add k v w) = status_of w"
  "status_of (Write b w) = status_of w"
  "status_of (WriteHeader s w) = (case w_sent w of None \<Rightarrow> s | Some _ \<Rightarrow> status_of w)"
  by (auto simp: status_of_def split: option.splits)

section \<open>\<open>path.Clean\<close>\<close>

definition clean_step :: "bool \<Rightarrow> string list \<Rightarrow> string \<Rightarrow> string list" where
  "clean_step rooted st seg =
     (if seg = [] \<or> seg = ''.'' then st
      else if seg = ''..'' then
        (case st of
           [] \<Rightarrow> if rooted then [] else [''..'']
         | t # ts \<Rightarrow> if t = ''..'' then ''..'' # st else ts)
      else seg # st)"

definition path_clean :: "string \<Rightarrow> string" where
  "path_clean p =
     (let rooted = has_prefix p ''/'';
          segs = rev (foldl (clean_step rooted) [] (str_split p ''/''));
          s = (if rooted then ''/'' else []) @ str_join segs ''/''
      in if s = [] then ''.'' else s)"

text \<open>The stack of a cleaned path, top first: no empty or dot segments, and \<open>..\<close> only at the
  bottom of a relative path.\<close>

definition dots_below :: "bool \<Rightarrow> string list \<Rightarrow> bool" where
  "dots_below rooted st =
     (\<exists>a n. st = a @ replicate n ''..'' \<and> ''..'' \<notin> set a \<and> (rooted \<longrightarrow> n = 0))"

definition clean_stack :: "bool \<Rightarrow> string list \<Rightarrow> bool" where
  "clean_stack rooted st =
     ((\<forall>s \<in> set st. s \<noteq> [] \<and> s \<noteq> ''.'' \<and> CHR ''/'' \<notin> set s) \<and> dots_below rooted st)"

lemma dots_below_push: "dots_below r st \<Longrightarrow> seg \<noteq> ''..'' \<Longrightarrow> dots_below r (seg # st)"
  unfolding dots_below_def
  by (metis (no_types, opaque_lifting) append_Cons set_ConsD)

lemma dots_below_pop: "dots_below r (t # ts) \<Longrightarrow> t \<noteq> ''..'' \<Longrightarrow> dots_below r ts"
proof -
  assume "dots_below r (t # ts)" "t \<noteq> ''..''"
  then obtain a n where n: "t # ts = a @ replicate n ''..''" "''..'' \<notin> set a" "r \<longrightarrow> n = 0"
    unfolding dots_below_def by blast
  with \<open>t \<noteq> ''..''\<close> obtain b where "a = t # b" by (cases a; cases n) auto
  with n show ?thesis unfolding dots_below_def by (intro exI [of _ b] exI [of _ n]) auto
qed

lemma dots_below_dots: "dots_below r (''..'' # ts) \<Longrightarrow> dots_below r (''..'' # ''..'' # ts)"
proof -
  assume "dots_below r (''..'' # ts)"
  then obtain a n where n: "''..'' # ts = a @ replicate n ''..''" "''..'' \<notin> set a" "r \<longrightarrow> n = 0"
    unfolding dots_below_def by blast
  then have "a = []" by (cases a) auto
  with n have eq: "''..'' # ''..'' # ts = [] @ replicate (Suc n) ''..''" "n \<noteq> 0" by (cases n; simp)+
  with n show ?thesis unfolding dots_below_def by (intro exI [of _ "[]"] exI [of _ "Suc n"]) auto
qed

lemma clean_step_stack:
  assumes "clean_stack r st" "CHR ''/'' \<notin> set seg"
  shows "clean_stack r (clean_step r st seg)"
proof -
  have "dots_below r [''..'']" if "\<not> r"
    unfolding dots_below_def using that by (intro exI [of _ "[]"] exI [of _ 1]) simp
  with assms show ?thesis
    using dots_below_push [of r st seg] dots_below_pop [of r "hd st" "tl st"]
      dots_below_dots [of r "tl st"]
    by (cases st) (auto simp: clean_stack_def clean_step_def)
qed

lemma clean_fold_stack:
  "clean_stack r st \<Longrightarrow> \<forall>s \<in> set segs. CHR ''/'' \<notin> set s \<Longrightarrow>
     clean_stack r (foldl (clean_step r) st segs)"
  by (induction segs arbitrary: st) (auto intro: clean_step_stack)

lemma clean_stack_tail: "clean_stack r (t # ts) \<Longrightarrow> clean_stack r ts"
proof -
  assume c: "clean_stack r (t # ts)"
  then obtain a n where n: "t # ts = a @ replicate n ''..''" "''..'' \<notin> set a" "r \<longrightarrow> n = 0"
    unfolding clean_stack_def dots_below_def by blast
  then have "ts = tl a @ replicate (if a = [] then n - 1 else n) ''..''"
    by (cases a; cases n) auto
  moreover have "''..'' \<notin> set (tl a)" using n(2) by (cases a) auto
  ultimately have "dots_below r ts" unfolding dots_below_def using n(3) by fastforce
  with c show ?thesis by (simp add: clean_stack_def)
qed

lemma clean_push: "clean_stack r (t # ts) \<Longrightarrow> clean_step r ts t = t # ts"
proof -
  assume c: "clean_stack r (t # ts)"
  show ?thesis
  proof (cases "t = ''..''")
    case True
    from c obtain a n where n: "t # ts = a @ replicate n ''..''" "''..'' \<notin> set a" "r \<longrightarrow> n = 0"
      unfolding clean_stack_def dots_below_def by blast
    with True have "a = []" "n \<noteq> 0" by (cases a; cases n; auto)+
    with n have "ts = replicate (n - 1) ''..''" "\<not> r" by (cases n; auto)+
    with True show ?thesis by (cases "n - 1") (auto simp: clean_step_def)
  next
    case False
    with c show ?thesis by (auto simp: clean_stack_def clean_step_def)
  qed
qed

lemma clean_fold_id: "clean_stack r st \<Longrightarrow> foldl (clean_step r) [] (rev st) = st"
proof (induction st)
  case (Cons t ts)
  from clean_stack_tail [OF Cons.prems] Cons.IH have "foldl (clean_step r) [] (rev ts) = ts" by simp
  then show ?case using clean_push [OF Cons.prems] by simp
qed simp

lemma split_join_clean:
  "ss \<noteq> [] \<Longrightarrow> \<forall>s \<in> set ss. d \<notin> set s \<Longrightarrow> str_split (str_join ss [d]) [d] = ss"
proof (induction ss)
  case (Cons s ss)
  then show ?case
    by (cases ss) (auto simp: str_split_absent str_split_first)
qed simp

lemma path_clean_idem: "path_clean (path_clean p) = path_clean p"
proof -
  define r where "r = has_prefix p ''/''"
  define st where "st = foldl (clean_step r) [] (str_split p ''/'')"
  define s where "s = (if r then ''/'' else []) @ str_join (rev st) ''/''"
  have "clean_stack r []"
    by (auto simp: clean_stack_def dots_below_def)
  then have c: "clean_stack r st" unfolding st_def
    using str_split_single_clean by (intro clean_fold_stack) auto
  have p: "path_clean p = (if s = [] then ''.'' else s)"
    by (simp add: path_clean_def Let_def r_def st_def s_def)
  have pre: "has_prefix s ''/'' = r" if "s \<noteq> []"
  proof (cases "rev st")
    case Nil
    then show ?thesis using that by (auto simp: s_def split: if_splits)
  next
    case (Cons x xs)
    then have "x \<in> set st" by (metis list.set_intros(1) set_rev)
    with c have "x \<noteq> []" "CHR ''/'' \<notin> set x" by (auto simp: clean_stack_def)
    then have "\<not> has_prefix (x @ z) ''/''" for z by (cases x) (auto simp: has_prefix_def)
    moreover have "\<exists>z. str_join (x # xs) ''/'' = x @ z" by (cases xs) auto
    ultimately show ?thesis using Cons by (auto simp: s_def)
  qed
  have stack: "foldl (clean_step r) [] (str_split s ''/'') = st"
  proof (cases "st = []")
    case True
    then have "s = (if r then ''/'' else [])" by (simp add: s_def)
    then have "foldl (clean_step r) [] (str_split s ''/'') = []"
      by (auto simp: str_split_def split_from_Cons clean_step_def)
    with True show ?thesis by simp
  next
    case False
    have "str_split (str_join (rev st) ''/'') ''/'' = rev st"
      using c False by (intro split_join_clean) (auto simp: clean_stack_def)
    then have "str_split s ''/'' = (if r then [[]] else []) @ rev st"
      using str_split_first [of "CHR ''/''" "[]" "str_join (rev st) ''/''"] by (auto simp: s_def)
    then show ?thesis using clean_fold_id [OF c] by (auto simp: clean_step_def)
  qed
  show ?thesis
  proof (cases "s = []")
    case True
    have "path_clean ''.'' = ''.''" by code_simp
    with True p show ?thesis by simp
  next
    case False
    with p pre stack show ?thesis by (simp add: path_clean_def Let_def s_def)
  qed
qed

interpretation cleaned: normaliser path_clean
  by unfold_locales (rule path_clean_idem)

section \<open>\<open>http.Redirect\<close>\<close>

definition html_escape :: "string \<Rightarrow> string" where
  "html_escape s =
     concat (map (\<lambda>c. if c = CHR ''&'' then ''&amp;'' else if c = CHR ''<'' then ''&lt;''
       else if c = CHR ''>'' then ''&gt;'' else if c = CHR 0x22 then ''&#34;''
       else if c = CHR 0x27 then ''&#39;'' else [c]) s)"

definition status_text :: "int \<Rightarrow> string" where
  "status_text code =
     (if code = StatusMovedPermanently then ''Moved Permanently''
      else if code = StatusFound then ''Found'' else [])"

text \<open>The target of a redirect.  \<open>scheme\<close> is what \<open>url.Parse\<close> makes of the target: nothing
  when it cannot be parsed, otherwise the scheme, empty for a relative URL.\<close>

definition redirect_target :: "(string \<Rightarrow> string option) \<Rightarrow> string \<Rightarrow> string \<Rightarrow> string" where
  "redirect_target scheme oldpath urlStr =
     (if scheme urlStr = Some [] then
        (let old = (if oldpath = [] then ''/'' else oldpath);
             full = (if has_prefix urlStr ''/'' then urlStr else fst (filepath_split old) @ urlStr);
             p = takeWhile (\<lambda>c. c \<noteq> CHR ''?'') full;
             q = dropWhile (\<lambda>c. c \<noteq> CHR ''?'') full;
             cl = path_clean p
         in (if has_suffix p ''/'' \<and> \<not> has_suffix cl ''/'' then cl @ ''/'' else cl) @ q)
      else urlStr)"

definition http_redirect ::
    "(string \<Rightarrow> string option) \<Rightarrow> request \<Rightarrow> string \<Rightarrow> int \<Rightarrow> writer \<Rightarrow> writer" where
  "http_redirect scheme r urlStr code w =
     (let target = redirect_target scheme (URL_Path r) urlStr;
          w' = WriteHeader code (w_set ''Location'' target w)
      in if Method r = ''GET''
         then Write (''<a href=\"'' @ html_escape target @ ''\">'' @ status_text code @ ''</a>.'' @ [LF, LF]) w'
         else w')"

lemma http_redirect_status:
  "w_sent w = None \<Longrightarrow> status_of (http_redirect scheme r u code w) = code"
  by (simp add: http_redirect_def Let_def status_kept)

end
