(* ===== verification/Users.thy ===== *)
theory Users
  imports Http
begin

text \<open>
  The list of users (\<open>users.go\<close>).  \<open>ulist\<close> is a map from upper-case names; the pool of recycled
  entries only saves allocations, entries are overwritten before they are entered again, so the
  map holds values.  \<open>json.Unmarshal\<close> of the user list is the parameter \<open>parse\<close>: what
  it stored before it stopped, and its error.
\<close>

record userInfo =
  IsSpecial :: bool
  GrpID :: int

record tUser =
  tu_Name :: string
  tu_IsSpecial :: bool
  tu_GRP_ID :: int

record users_state =
  ulist :: "string \<rightharpoonup> userInfo"
  prev :: bytes
  users_log :: "string list"

type_synonym users_parser = "bytes \<Rightarrow> tUser list \<times> string option"

text \<open>Go's \<open>copy\<close> overwrites as many bytes as the destination has.\<close>

definition go_copy :: "bytes \<Rightarrow> bytes \<Rightarrow> bytes" where
  "go_copy dst src = take (length dst) src @ drop (length src) dst"

definition init_users :: users_state where
  "init_users = \<lparr>ulist = Map.empty, prev = [], users_log = []\<rparr>"

section \<open>Look-up\<close>

definition getUserInfo :: "users_state \<Rightarrow> string \<Rightarrow> bool \<times> int \<times> bool" where
  "getUserInfo st name =
     (case ulist st (to_upper name) of
        None \<Rightarrow> (False, - 1, False)
      | Some u \<Rightarrow> (IsSpecial u, GrpID u, True))"

text \<open>\<open>cs\<close> is the connection string for all users given on the command line.\<close>

definition getConnectionParams ::
    "string \<Rightarrow> users_state \<Rightarrow> string \<Rightarrow> (int \<rightharpoonup> string) \<Rightarrow> bool \<times> string" where
  "getConnectionParams cs st user grps =
     (if user = [] then (False, [])
      else
        case getUserInfo st user of (isSpecial, grpID, ok) \<Rightarrow>
          if \<not> ok then (False, [])
          else if cs = [] then
            (case grps grpID of None \<Rightarrow> (False, []) | Some sid \<Rightarrow> (isSpecial, sid))
          else
            (case grps grpID of None \<Rightarrow> (False, []) | Some _ \<Rightarrow> (isSpecial, cs)))"

section \<open>Update\<close>

definition add_user :: "(string \<rightharpoonup> userInfo) \<Rightarrow> tUser \<Rightarrow> (string \<rightharpoonup> userInfo)" where
  "add_user m t = m(to_upper (tu_Name t) \<mapsto> \<lparr>IsSpecial = tu_IsSpecial t, GrpID = tu_GRP_ID t\<rparr>)"

definition updateUsers :: "users_parser \<Rightarrow> bytes \<Rightarrow> users_state \<Rightarrow> users_state" where
  "updateUsers parse users st =
     (if prev st = users then st
      else
        let st = st\<lparr>prev := go_copy (prev st) users, ulist := Map.empty\<rparr> in
        if users = [] then st
        else
          case parse users of (t, err) \<Rightarrow>
            st\<lparr>users_log := users_log st @ (case err of None \<Rightarrow> [] | Some e \<Rightarrow> [e]),
               ulist := foldl add_user (ulist st) t\<rparr>)"

text \<open>\<open>getUsers\<close> writes the list as JSON, with the parameter \<open>marshal\<close>.\<close>

definition getUsers :: "((string \<rightharpoonup> userInfo) \<Rightarrow> 'e + bytes) \<Rightarrow> users_state \<Rightarrow> 'e + bytes" where
  "getUsers marshal st = marshal (ulist st)"

section \<open>What the list holds\<close>

text \<open>The entry of a list that a user gets: the last one with the name, whatever its case.\<close>

definition last_entry :: "tUser list \<Rightarrow> string \<Rightarrow> tUser option" where
  "last_entry ts name = find (\<lambda>t. to_upper (tu_Name t) = to_upper name) (rev ts)"

lemma foldl_add_user:
  "foldl add_user m ts (to_upper name) =
     (case last_entry ts name of
        None \<Rightarrow> m (to_upper name)
      | Some t \<Rightarrow> Some \<lparr>IsSpecial = tu_IsSpecial t, GrpID = tu_GRP_ID t\<rparr>)"
  by (induction ts rule: rev_induct) (auto simp: last_entry_def add_user_def)

lemma go_copy_empty [simp]: "go_copy [] src = []"
  by (simp add: go_copy_def)

lemma prev_stays_empty: "prev st = [] \<Longrightarrow> prev (updateUsers parse users st) = []"
  by (simp add: updateUsers_def Let_def split: prod.splits)

definition upper_keys :: "users_state \<Rightarrow> bool" where
  "upper_keys st = (\<forall>k \<in> dom (ulist st). to_upper k = k)"

lemma add_users_upper:
  "\<forall>k \<in> dom m. to_upper k = k \<Longrightarrow> k \<in> dom (foldl add_user m ts) \<Longrightarrow> to_upper k = k"
  by (induction ts rule: rev_induct) (auto simp: add_user_def split: if_splits)

lemma updateUsers_upper: "upper_keys st \<Longrightarrow> upper_keys (updateUsers parse users st)"
  using add_users_upper [of Map.empty]
  by (fastforce simp: upper_keys_def updateUsers_def Let_def split: prod.splits)

text \<open>The states the program can be in: updates from the initial state.\<close>

inductive users_reachable :: "users_parser \<Rightarrow> users_state \<Rightarrow> bool" for parse where
  users_init: "users_reachable parse init_users"
| users_update: "users_reachable parse st \<Longrightarrow> users_reachable parse (updateUsers parse users st)"

lemma users_reachable_inv: "users_reachable parse st \<Longrightarrow> prev st = [] \<and> upper_keys st"
  by (induction rule: users_reachable.induct)
     (auto simp: init_users_def upper_keys_def [of "\<lparr>ulist = _, prev = _, users_log = _\<rparr>"]
       prev_stays_empty updateUsers_upper)

text \<open>C27: after an update with a list of users, whatever was there before, a name is known exactly
  when the list has it in some spelling of upper and lower case, and it has the rights and the group of
  the last such entry; an empty list changes nothing.\<close>

theorem updateUsers_current:
  assumes "users_reachable parse st"
  shows "getUserInfo (updateUsers parse users st) name =
     (if users = [] then getUserInfo st name
      else case last_entry (fst (parse users)) name of
             None \<Rightarrow> (False, - 1, False)
           | Some t \<Rightarrow> (tu_IsSpecial t, tu_GRP_ID t, True))"
  using users_reachable_inv [OF assms]
  by (auto simp: updateUsers_def getUserInfo_def foldl_add_user Let_def split: prod.splits option.splits)

definition two_users :: users_parser where
  "two_users b =
     ([\<lparr>tu_Name = ''ann'', tu_IsSpecial = False, tu_GRP_ID = 1\<rparr>,
       \<lparr>tu_Name = ''Bob'', tu_IsSpecial = False, tu_GRP_ID = 1\<rparr>,
       \<lparr>tu_Name = ''ANN'', tu_IsSpecial = True, tu_GRP_ID = 2\<rparr>], None)"

theorem updateUsers_current_witness:
  "getUserInfo (updateUsers two_users ''list'' init_users) ''Ann'' = (True, 2, True)"
  using updateUsers_current [OF users_init, of two_users "''list''" "''Ann''"]
  by (simp add: two_users_def last_entry_def str_eval)

text \<open>\<open>updateUsers(nil)\<close> of \<open>resetConfig\<close> leaves the list as it is: \<open>prev\<close> is
  always empty, so an empty list is never new.\<close>

lemma reset_keeps_users: "users_reachable parse st \<Longrightarrow> updateUsers parse [] st = st"
  using users_reachable_inv [of parse st] by (simp add: updateUsers_def)

lemma getConnectionParams_none:
  "ulist st (to_upper user) = None \<Longrightarrow> getConnectionParams cs st user grps = (False, [])"
  by (simp add: getConnectionParams_def getUserInfo_def)

lemma getConnectionParams_Some:
  "snd (getConnectionParams cs st user grps) \<noteq> [] \<longleftrightarrow>
     user \<noteq> [] \<and>
     (\<exists>u sid. ulist st (to_upper user) = Some u \<and> grps (GrpID u) = Some sid \<and> (cs \<noteq> [] \<or> sid \<noteq> []))"
  by (cases "user = []") (auto simp: getConnectionParams_def getUserInfo_def split: option.splits)

lemma getConnectionParams_value:
  "snd (getConnectionParams cs st user grps) \<noteq> [] \<Longrightarrow>
     (\<exists>u sid. ulist st (to_upper user) = Some u \<and> grps (GrpID u) = Some sid \<and>
        getConnectionParams cs st user grps = (IsSpecial u, if cs = [] then sid else cs))"
  by (cases "user = []") (auto simp: getConnectionParams_def getUserInfo_def split: option.splits)

end
