(* ===== verification/Handler_Ids.thy ===== *)
theory Handler_Ids
  imports Users
begin

text \<open>
  What the handler computes from a request (\<open>commonUtils.go\<close>, \<open>cgienvparams.go\<close>): the
  identifier of the session, the identifier of the task, the form of the waiting page that sends the
  request again, and the CGI environment.  \<open>uuid.New()\<close> is the parameter \<open>new_uuid\<close>.
\<close>

section \<open>Session and task identifiers\<close>

definition client_addr :: "request \<Rightarrow> string" where
  "client_addr req =
     (let addr = req_header req ''X-Real-IP''
      in if addr \<noteq> [] then addr
         else let addr = req_header req ''X-Forwarded-For''
              in if addr \<noteq> [] then addr else RemoteAddr req)"

definition handler_host :: "string \<Rightarrow> bool \<Rightarrow> string \<Rightarrow> request \<Rightarrow> string" where
  "handler_host new_uuid isSpecial debugIP req =
     (let addr = (if isSpecial then client_addr req else []);
          host = (case split_host_port addr of None \<Rightarrow> [] | Some (h, p) \<Rightarrow> h)
      in if debugIP = ''uuid'' then new_uuid else host)"

definition handler_debug :: "bool \<Rightarrow> string \<Rightarrow> request \<Rightarrow> string" where
  "handler_debug isSpecial debugIP req =
     (if isSpecial \<and> debugIP = [] then req_header req ''X-Request-Id'' else debugIP)"

definition makeHandlerID :: "string \<Rightarrow> bool \<Rightarrow> string \<Rightarrow> string \<Rightarrow> string \<Rightarrow> request \<Rightarrow> string" where
  "makeHandlerID new_uuid isSpecial userName userPass debugIP req =
     to_upper (userName @ ''|'' @ userPass @ ''|'' @ handler_host new_uuid isSpecial debugIP req @ ''|'' @
       handler_debug isSpecial debugIP req)"

definition makeTaskID :: "string \<Rightarrow> request \<Rightarrow> string" where
  "makeTaskID new_uuid req =
     (let mID = FormValue req ''MessageId'' in if mID = [] then new_uuid else mID)"

text \<open>Upper case works piecewise around an ASCII separator.\<close>

lemma decode_rune_stop:
  assumes "a \<noteq> []" "byte_of c < 128"
  shows "decode_rune (a @ c # b) = decode_rune a"
proof -
  have c: "\<not> is_cont c" "\<And>b0. \<not> second_ok b0 c"
    using assms(2) is_cont_high [of c] second_ok_high [of _ c] by fastforce+
  consider x where "a = [x]" | x y where "a = [x, y]" | x y z where "a = [x, y, z]"
    | x y z u r where "a = x # y # z # u # r"
    using assms(1) by (metis list.exhaust)
  then show ?thesis
    by cases (simp_all add: decode_rune_def Let_def c split: list.split)
qed

lemma runes_append_ascii:
  "byte_of c < 128 \<Longrightarrow> runes (a @ c # b) = runes a @ byte_of c # runes b"
proof (induction a rule: length_induct)
  case (1 a)
  show ?case
  proof (cases "a = []")
    case True
    with 1(2) show ?thesis by (simp add: runes_step)
  next
    case False
    let ?n = "snd (decode_rune a)"
    have n: "0 < ?n" "?n \<le> length a" using False decode_rune_width_pos decode_rune_width_le by auto
    with False 1 have "runes (drop ?n a @ c # b) = runes (drop ?n a) @ byte_of c # runes b" by simp
    with False n 1(2) show ?thesis
      by (simp add: runes_step [of "a @ c # b"] runes_step [of a] decode_rune_stop)
  qed
qed

lemma encode_rune_ascii: "r < 128 \<Longrightarrow> encode_rune r = [chr_of r]"
  by (simp add: encode_rune_def valid_rune_def)

lemma to_upper_bar: "to_upper (a @ CHR ''|'' # b) = to_upper a @ CHR ''|'' # to_upper b"
proof -
  have bar: "byte_of (CHR ''|'') = 124" by (simp add: byte_of_def)
  have "rune_upper 124 = 124" by (simp add: rune_upper_def)
  with bar show ?thesis
    using chr_of_byte_of [of "CHR ''|''"]
    by (simp add: to_upper_def runes_append_ascii encode_runes_def encode_rune_ascii)
qed

lemma encode_rune_bar: "valid_rune r \<Longrightarrow> CHR ''|'' \<in> set (encode_rune r) \<Longrightarrow> r = 124"
proof -
  assume v: "valid_rune r" and c: "CHR ''|'' \<in> set (encode_rune r)"
  have "byte_of (CHR ''|'') = 124" by (simp add: byte_of_def)
  then have eq: "CHR ''|'' = chr_of n \<Longrightarrow> n < 256 \<Longrightarrow> n = 124" for n by (metis byte_of_chr_of)
  have low: "r < 128"
  proof (rule ccontr)
    assume "\<not> r < 128"
    with c obtain n where "CHR ''|'' = chr_of n" "n \<ge> 128" "n < 256"
      using v by (auto simp: encode_rune_def Let_def valid_rune_def split: if_splits)
    with eq show False by fastforce
  qed
  with c eq show ?thesis by (auto simp: encode_rune_ascii)
qed

lemma runes_bar: "124 \<in> set (runes s) \<Longrightarrow> CHR ''|'' \<in> set s"
proof (induction s rule: length_induct)
  case (1 s)
  have s: "s \<noteq> []" using 1(2) by auto
  let ?n = "snd (decode_rune s)"
  from 1(2) s consider "fst (decode_rune s) = 124" | "124 \<in> set (runes (drop ?n s))"
    by (auto simp: runes_step)
  then show ?case
  proof cases
    case 1
    obtain c cs where cs: "s = c # cs" using s by (cases s) auto
    show ?thesis
    proof (cases "byte_of c < 128")
      case True
      with 1 cs have "byte_of c = byte_of (CHR ''|'')" by (simp add: byte_of_def)
      with cs show ?thesis by (simp only: byte_of_inject) simp
    next
      case False
      with cs have "fst (decode_rune s) \<ge> 128" using decode_rune_high_byte by simp
      with 1 show ?thesis by simp
    qed
  next
    case 2
    have "0 < ?n" using s decode_rune_width_pos by simp
    then have "length (drop ?n s) < length s" using s by simp
    with 1 2 have "CHR ''|'' \<in> set (drop ?n s)" by blast
    then show ?thesis by (rule in_set_dropD)
  qed
qed

lemma rune_upper_bar: "rune_upper r = 124 \<longleftrightarrow> r = 124"
  by (auto simp: rune_upper_def)

lemma to_upper_no_bar: "CHR ''|'' \<notin> set s \<Longrightarrow> CHR ''|'' \<notin> set (to_upper s)"
proof
  assume s: "CHR ''|'' \<notin> set s" and "CHR ''|'' \<in> set (to_upper s)"
  then obtain r where r: "r \<in> set (runes s)" "CHR ''|'' \<in> set (encode_rune (rune_upper r))"
    by (auto simp: to_upper_def encode_runes_def)
  then have "rune_upper r = 124" by (intro encode_rune_bar rune_upper_valid) (auto dest: runes_valid)
  with r have "124 \<in> set (runes s)" by (simp add: rune_upper_bar)
  with s show False using runes_bar by blast
qed

lemma split_at_first:
  "x \<notin> set a \<Longrightarrow> x \<notin> set c \<Longrightarrow> a @ x # b = c @ x # d \<Longrightarrow> a = c \<and> b = d"
  by (induction a arbitrary: c; case_tac c) auto

lemma same_credentials:
  assumes "makeHandlerID i1 sp1 u1 p1 d1 r1 = makeHandlerID i2 sp2 u2 p2 d2 r2"
    and "CHR ''|'' \<notin> set u1" "CHR ''|'' \<notin> set u2" "CHR ''|'' \<notin> set p1" "CHR ''|'' \<notin> set p2"
  shows "to_upper u1 = to_upper u2 \<and> to_upper p1 = to_upper p2"
proof -
  let ?rest = "\<lambda>i sp d r. to_upper (handler_host i sp d r @ ''|'' @ handler_debug sp d r)"
  have "to_upper u1 @ CHR ''|'' # to_upper p1 @ CHR ''|'' # ?rest i1 sp1 d1 r1 =
      to_upper u2 @ CHR ''|'' # to_upper p2 @ CHR ''|'' # ?rest i2 sp2 d2 r2"
    using assms(1) by (simp add: makeHandlerID_def to_upper_bar)
  from split_at_first [OF _ _ this] have u: "to_upper u1 = to_upper u2"
    and "to_upper p1 @ CHR ''|'' # ?rest i1 sp1 d1 r1 = to_upper p2 @ CHR ''|'' # ?rest i2 sp2 d2 r2"
    using assms(2,3) to_upper_no_bar by auto
  from split_at_first [OF _ _ this(2)] u show ?thesis using assms(4,5) to_upper_no_bar by auto
qed

text \<open>C14: for user names and passwords without a vertical bar, two requests have one session identifier
  exactly when, up to the case of the letters, they have the same user name, the same password and the same text
  made of host, bar and debug identifier.  Where the hosts have no bar either, this is the same host and the same
  debug identifier.\<close>

theorem makeHandlerID_credentials:
  assumes "CHR ''|'' \<notin> set u1" "CHR ''|'' \<notin> set u2" "CHR ''|'' \<notin> set p1" "CHR ''|'' \<notin> set p2"
  shows "(makeHandlerID i1 sp1 u1 p1 d1 r1 = makeHandlerID i2 sp2 u2 p2 d2 r2 \<longleftrightarrow>
      to_upper u1 = to_upper u2 \<and> to_upper p1 = to_upper p2 \<and>
      to_upper (handler_host i1 sp1 d1 r1 @ ''|'' @ handler_debug sp1 d1 r1) =
      to_upper (handler_host i2 sp2 d2 r2 @ ''|'' @ handler_debug sp2 d2 r2)) \<and>
    (CHR ''|'' \<notin> set (handler_host i1 sp1 d1 r1) \<and> CHR ''|'' \<notin> set (handler_host i2 sp2 d2 r2) \<longrightarrow>
      (makeHandlerID i1 sp1 u1 p1 d1 r1 = makeHandlerID i2 sp2 u2 p2 d2 r2 \<longleftrightarrow>
        to_upper u1 = to_upper u2 \<and> to_upper p1 = to_upper p2 \<and>
        to_upper (handler_host i1 sp1 d1 r1) = to_upper (handler_host i2 sp2 d2 r2) \<and>
        to_upper (handler_debug sp1 d1 r1) = to_upper (handler_debug sp2 d2 r2)))"
proof -
  have "makeHandlerID i1 sp1 u1 p1 d1 r1 = makeHandlerID i2 sp2 u2 p2 d2 r2 \<longleftrightarrow>
      to_upper u1 = to_upper u2 \<and> to_upper p1 = to_upper p2 \<and>
      to_upper (handler_host i1 sp1 d1 r1 @ ''|'' @ handler_debug sp1 d1 r1) =
      to_upper (handler_host i2 sp2 d2 r2 @ ''|'' @ handler_debug sp2 d2 r2)"
    using same_credentials [of i1 sp1 u1 p1 d1 r1 i2 sp2 u2 p2 d2 r2] assms
    by (auto simp: makeHandlerID_def to_upper_bar)
  moreover have "to_upper (a @ ''|'' @ b) = to_upper a' @ ''|'' @ to_upper b' \<longleftrightarrow>
      to_upper a = to_upper a' \<and> to_upper b = to_upper b'"
    if "CHR ''|'' \<notin> set a" "CHR ''|'' \<notin> set a'" for a a' b b'
    using split_at_first [OF to_upper_no_bar [OF that(1)] to_upper_no_bar [OF that(2)]]
    by (auto simp: to_upper_bar)
  ultimately show ?thesis by (simp add: to_upper_bar)
qed

definition plain_request :: request where
  "plain_request =
     \<lparr>Method = ''GET'', URL_Path = ''/pls/p'', RawQuery = [], Host = ''h'', RemoteAddr = ''1.2.3.4:5'',
      Proto = ''HTTP/1.1'', TLS = False, ReqHeader = [], ReqForm = [], PostForm = [],
      MultipartForm = None\<rparr>"

theorem makeHandlerID_credentials_witness:
  "makeHandlerID [] False ''scott'' ''tiger'' [] plain_request = makeHandlerID [] False ''SCOTT'' ''Tiger'' [] plain_request"
  using makeHandlerID_credentials [of "''scott''" "''SCOTT''" "''tiger''" "''Tiger''"
      "[]" False "[]" plain_request "[]" False "[]" plain_request]
  by (simp add: str_eval)

text \<open>Passwords that differ only in case share their sessions, and a bar in a name or password
  can make two accounts share one.\<close>

lemma bar_confuses_accounts:
  "makeHandlerID i False ''a|b'' ''c'' d r = makeHandlerID i False ''a'' ''b|c'' d r"
  by (simp add: makeHandlerID_def)

section \<open>The form of the waiting page\<close>

definition QUOT :: string where "QUOT = [CHR 0x22]"

definition hidden_input :: "string \<Rightarrow> string \<Rightarrow> string" where
  "hidden_input key val =
     ''<input type=\"hidden\" name=\"'' @ key @ ''\" value=\"'' @ val @ ''\">'' @ [LF]"

definition escape_quot :: "string \<Rightarrow> string" where
  "escape_quot v = replace_all QUOT ''&quot;'' v"

definition mime_get :: "FileHeader \<Rightarrow> string \<Rightarrow> string" where
  "mime_get fh k = (case Header fh of None \<Rightarrow> [] | Some h \<Rightarrow> header_get h k)"

definition post_inputs :: "multimap \<Rightarrow> string" where
  "post_inputs form = concat (map (\<lambda>(key, vals). concat (map (\<lambda>v. hidden_input key (escape_quot v)) vals)) form)"

definition file_inputs :: "(string \<times> FileHeader list) list \<Rightarrow> string" where
  "file_inputs files =
     concat (map (\<lambda>(key, vals).
       concat (map (\<lambda>fh. hidden_input key (ExtractFileName (mime_get fh ''Content-Disposition''))) vals))
       files)"

definition makeWaitForm :: "request \<Rightarrow> string \<Rightarrow> string" where
  "makeWaitForm req taskID =
     (let s = URL_Path req @ (if RawQuery req \<noteq> [] then ''?'' @ RawQuery req else [])
      in ''<form id=\"__gmrf__\" action=\"'' @ s @ ''\" method=\"post\" >'' @ [LF] @
         post_inputs (PostForm req) @
         (case MultipartForm req of None \<Rightarrow> [] | Some f \<Rightarrow> file_inputs (form_File f)) @
         (if FormValue req ''MessageId'' = [] then hidden_input ''MessageId'' taskID else []) @
         ''</form>'')"

section \<open>What the browser sends back\<close>

text \<open>Reading the hidden fields of a form: each value ends at its quote, and \<open>&quot;\<close> stands for a
  quote.  The reader stops at the first text that is not a hidden field.\<close>

definition cut_at :: "char \<Rightarrow> string \<Rightarrow> string \<times> string" where
  "cut_at c s = (takeWhile (\<lambda>x. x \<noteq> c) s, drop 1 (dropWhile (\<lambda>x. x \<noteq> c) s))"

definition input_head :: string where "input_head = ''<input type=\"hidden\" name=\"''"
definition input_mid :: string where "input_mid = '' value=\"''"
definition input_tail :: string where "input_tail = ''>'' @ [LF]"

function read_inputs :: "string \<Rightarrow> (string \<times> string) list" where
  "read_inputs s =
     (if has_prefix s input_head then
        (let (key, rest) = cut_at (CHR 0x22) (drop (length input_head) s);
             (val, rest') = cut_at (CHR 0x22) (drop (length input_mid) rest)
         in (key, replace_all ''&quot;'' QUOT val) # read_inputs (drop (length input_tail) rest'))
      else [])"
  by pat_completeness auto
termination
proof (relation "measure length", simp, goal_cases)
  case (1 s kr key rest vr val rest')
  have cut: "length (snd (cut_at c x)) \<le> length x" for c x
    using length_dropWhile_le [of "\<lambda>y. y \<noteq> c" x] by (simp add: cut_at_def)
  have rest: "snd (cut_at (CHR 0x22) (drop (length input_head) s)) = rest"
    "snd (cut_at (CHR 0x22) (drop (length input_mid) rest)) = rest'"
    using 1 by (metis snd_conv)+
  have "s \<noteq> []" using 1(1) by (auto simp: input_head_def has_prefix_def)
  then have "length (drop (length input_head) s) < length s"
    by (rule drop_smaller) (simp add: input_head_def)
  moreover have "length rest \<le> length (drop (length input_head) s)" using cut rest(1) by metis
  moreover have "length rest' \<le> length (drop (length input_mid) rest)" using cut rest(2) by metis
  ultimately show ?case by simp
qed

declare read_inputs.simps [simp del]

lemma cut_at_first: "c \<notin> set a \<Longrightarrow> cut_at c (a @ c # b) = (a, b)"
  by (induction a) (auto simp: cut_at_def)

lemma read_hidden_input:
  assumes "CHR 0x22 \<notin> set key" "CHR 0x22 \<notin> set val"
  shows "read_inputs (hidden_input key val @ s) = (key, replace_all ''&quot;'' QUOT val) # read_inputs s"
proof -
  have eq: "hidden_input key val @ s =
      input_head @ key @ CHR 0x22 # input_mid @ val @ CHR 0x22 # input_tail @ s"
    by (simp add: hidden_input_def input_head_def input_mid_def input_tail_def)
  show ?thesis unfolding eq using assms
    by (subst read_inputs.simps) (simp add: input_mid_def cut_at_first [OF assms(1)] cut_at_first [OF assms(2)])
qed

lemma read_inputs_end: "read_inputs ''</form>'' = []"
  by (subst read_inputs.simps) (simp add: input_head_def)

lemma escape_quot_map: "escape_quot v = concat (map (\<lambda>c. if c = CHR 0x22 then ''&quot;'' else [c]) v)"
  by (simp add: escape_quot_def QUOT_def replace_all_single)

lemma escape_quot_clean: "CHR 0x22 \<notin> set (escape_quot v)"
  by (auto simp: escape_quot_map)

lemma escape_quot_absent: "CHR 0x22 \<notin> set v \<Longrightarrow> escape_quot v = v"
  by (induction v) (auto simp: escape_quot_map)

lemma unescape_escape: "CHR ''&'' \<notin> set v \<Longrightarrow> replace_all ''&quot;'' QUOT (escape_quot v) = v"
  by (induction v) (auto simp: escape_quot_map replace_all_Cons QUOT_def)

definition form_pairs :: "multimap \<Rightarrow> (string \<times> string) list" where
  "form_pairs form = concat (map (\<lambda>(k, vs). map (\<lambda>v. (k, v)) vs) form)"

definition clean_form :: "multimap \<Rightarrow> bool" where
  "clean_form form =
     list_all (\<lambda>(k, vs). CHR 0x22 \<notin> set k \<and> list_all (\<lambda>v. CHR ''&'' \<notin> set v) vs) form"

lemma read_values:
  "CHR 0x22 \<notin> set k \<Longrightarrow> \<forall>v \<in> set vs. CHR ''&'' \<notin> set v \<Longrightarrow>
     read_inputs (concat (map (\<lambda>v. hidden_input k (escape_quot v)) vs) @ s) =
     map (\<lambda>v. (k, v)) vs @ read_inputs s"
  by (induction vs) (simp_all add: read_hidden_input escape_quot_clean unescape_escape)

lemma read_post_inputs:
  "clean_form form \<Longrightarrow> read_inputs (post_inputs form @ s) = form_pairs form @ read_inputs s"
  by (induction form)
     (auto simp: post_inputs_def form_pairs_def clean_form_def read_values list_all_iff)

text \<open>The fields the browser sends back when the form of the waiting page is submitted.\<close>

definition reposted :: "string \<Rightarrow> (string \<times> string) list" where
  "reposted html = read_inputs (drop 1 (dropWhile (\<lambda>c. c \<noteq> LF) html))"

lemma reposted_makeWaitForm:
  assumes "clean_form (PostForm r)" "LF \<notin> set (URL_Path r)" "LF \<notin> set (RawQuery r)"
    and "\<forall>f. MultipartForm r = Some f \<longrightarrow> form_File f = []"
    and "CHR 0x22 \<notin> set taskID" "CHR ''&'' \<notin> set taskID"
  shows "reposted (makeWaitForm r taskID) =
     form_pairs (PostForm r) @ (if FormValue r ''MessageId'' = [] then [(''MessageId'', taskID)] else [])"
proof -
  let ?a = "''<form id=\"__gmrf__\" action=\"'' @
      (URL_Path r @ (if RawQuery r \<noteq> [] then ''?'' @ RawQuery r else [])) @ ''\" method=\"post\" >''"
  let ?m = "if FormValue r ''MessageId'' = [] then hidden_input ''MessageId'' taskID else []"
  have files: "(case MultipartForm r of None \<Rightarrow> [] | Some f \<Rightarrow> file_inputs (form_File f)) = []"
    using assms(4) by (auto simp: file_inputs_def split: option.split)
  have form: "makeWaitForm r taskID = ?a @ LF # post_inputs (PostForm r) @ ?m @ ''</form>''"
    unfolding makeWaitForm_def Let_def files by simp
  have "LF \<notin> set ?a" using assms(2,3) by (auto simp: LF_def)
  then have "dropWhile (\<lambda>c. c \<noteq> LF) (makeWaitForm r taskID) = LF # post_inputs (PostForm r) @ ?m @ ''</form>''"
    unfolding form by (subst dropWhile_append2) auto
  then have eq: "reposted (makeWaitForm r taskID) = form_pairs (PostForm r) @ read_inputs (?m @ ''</form>'')"
    using read_post_inputs [OF assms(1)] by (simp add: reposted_def)
  have "escape_quot taskID = taskID" using assms(5) by (rule escape_quot_absent)
  then have "replace_all ''&quot;'' QUOT taskID = taskID" using unescape_escape [OF assms(6)] by simp
  then show ?thesis
    unfolding eq using read_hidden_input [OF _ assms(5), of "''MessageId''" "''</form>''"]
    by (simp add: read_inputs_end)
qed

text \<open>The form of a request: the fields of its body, then those of its query.\<close>

definition add_pairs :: "multimap \<Rightarrow> (string \<times> string) list \<Rightarrow> multimap" where
  "add_pairs form ps = foldl (\<lambda>f (k, v). vals_append f k [v]) form ps"

lemma lookup_add_pairs:
  "vals_lookup (add_pairs form ps) k = vals_lookup form k @ map snd (filter (\<lambda>p. fst p = k) ps)"
  unfolding add_pairs_def by (induction ps arbitrary: form) (auto split: if_splits)

lemma lookup_form_pairs:
  "distinct (map fst form) \<Longrightarrow> map snd (filter (\<lambda>p. fst p = k) (form_pairs form)) = vals_lookup form k"
proof (induction form)
  case (Cons a form)
  obtain k' vs where a: "a = (k', vs)" by (cases a)
  have same: "filter (\<lambda>p. fst p = k) (map (\<lambda>v. (k', v)) vs) = (if k' = k then map (\<lambda>v. (k', v)) vs else [])"
    by (induction vs) auto
  have none: "vals_lookup form k = []" if "k' = k"
    using Cons.prems that a by (auto simp: vals_lookup_def split: option.splits dest!: map_of_SomeD)
      (metis fst_conv image_eqI)
  show ?case
    using Cons a same none by (auto simp: form_pairs_def vals_lookup_def comp_def)
qed (simp add: form_pairs_def)


definition posted_request :: request where
  "posted_request =
     plain_request\<lparr>Method := ''POST'', ReqForm := [(''a'', [''x''])], PostForm := [(''a'', [''x''])]\<rparr>"

definition resent_request :: request where
  "resent_request =
     posted_request\<lparr>ReqForm := add_pairs [] (reposted (makeWaitForm posted_request ''t1''))\<rparr>"


section \<open>The CGI environment\<close>

definition cgi_protocol :: "request \<Rightarrow> string" where
  "cgi_protocol req =
     (let protocol = (case str_index (Proto req) ''/'' of None \<Rightarrow> Proto req | Some i \<Rightarrow> take i (Proto req))
      in if TLS req then protocol @ ''S'' else protocol)"

definition cgi_host_port :: "request \<Rightarrow> string \<times> string" where
  "cgi_host_port req =
     (let vs = str_split (Host req) '':''
      in (vs ! 0, if 1 < length vs then vs ! 1 else []))"

definition makeEnvParams :: "request \<Rightarrow> string \<Rightarrow> string \<Rightarrow> string \<Rightarrow> (string \<times> string) list" where
  "makeEnvParams req docTab remoteUser mirrorPath =
     (let https = (if TLS req then ''Y'' else ''N'');
          portSequre = (if TLS req then ''1'' else ''0'');
          protocol = cgi_protocol req;
          (host, port) = cgi_host_port req
      in
      [(''APEX_LISTENER_VERSION'', ''2''),
       (''SERVER_SOFTWARE'', ''iPLSQL''),
       (''SERVER_NAME'', host),
       (''GATEWAY_INTERFACE'', ''CGI/1.1''),
       (''REMOTE_HOST'', RemoteAddr req),
       (''REMOTE_ADDR'', RemoteAddr req),
       (''AUTH_TYPE'', req_header req ''Authorization''),
       (''REMOTE_USER'', remoteUser),
       (''REMOTE_IDENT'', remoteUser),
       (''HTTP_ACCEPT'', req_header req ''Accept''),
       (''HTTP_USER_AGENT'', req_header req ''User-Agent''),
       (''SERVER_PROTOCOL'', protocol),
       (''SERVER_PORT'', port),
       (''SCRIPT_NAME'', []),
       (''PATH_INFO'', URL_Path req),
       (''PATH_TRANSLATED'', []),
       (''HTTP_REFERER'', req_header req ''Referer''),
       (''HTTP_COOKIE'', req_header req ''Cookie''),
       (''HTTP_ACCEPT_ENCODING'', req_header req ''Accept-Encoding''),
       (''HTTP_ACCEPT_CHARSET'', req_header req ''Accept-Charset''),
       (''HTTP_ACCEPT_LANGUAGE'', req_header req ''Accept-Language''),
       (''HTTP_HOST'', host),
       (''PLSQL_GATEWAY'', ''WebDb''),
       (''GATEWAY_IVERSION'', ''3''),
       (''DOCUMENT_TABLE'', docTab),
       (''QUERY_STRING'', RawQuery req),
       (''HTTPS'', https),
       (''SERVER_PORT_SECURE'', portSequre),
       (''HTTPS_SESSIONID'', req_header req ''HTTPS_SESSIONID''),
       (''HTTPS_KEYSIZE'', req_header req ''HTTPS_KEYSIZE''),
       (''HTTPS_SERVER_ISSUER'', req_header req ''HTTPS_SERVER_ISSUER''),
       (''HTTPS_SERVER_SUBJECT'', req_header req ''HTTPS_SERVER_SUBJECT''),
       (''cookie'', req_header req ''Cookie''),
       (''user-agent'', req_header req ''User-Agent''),
       (''referer'', req_header req ''Referer''),
       (''accept'', req_header req ''Accept''),
       (''accept-encoding'', req_header req ''Accept-Encoding''),
       (''accept-language'', req_header req ''Accept-Language''),
       (''pragma'', req_header req ''pragma''),
       (''REQUEST_CHARSET'', ''AL32UTF8''),
       (''REQUEST_IANA_CHARSET'', ''UTF-8''),
       (''REQUEST_METHOD'', Method req),
       (''REQUEST_PROTOCOL'', protocol),
       (''REQUEST_SCHEME'', protocol),
       (''AUTHORIZATION'', req_header req ''Authorization''),
       (''MIRROR_PATH'', mirrorPath)])"

lemma makeEnvParams_distinct: "distinct (map fst (makeEnvParams req docTab remoteUser mirrorPath))"
  by (simp add: makeEnvParams_def Let_def split: prod.split)

lemma cgi_host_port_simple:
  "CHR '':'' \<notin> set h \<Longrightarrow> CHR '':'' \<notin> set p \<Longrightarrow> Host req = h @ CHR '':'' # p \<Longrightarrow>
     cgi_host_port req = (h, p)"
  "CHR '':'' \<notin> set h \<Longrightarrow> Host req = h \<Longrightarrow> cgi_host_port req = (h, [])"
  by (simp_all add: cgi_host_port_def Let_def str_split_first str_split_absent)

lemma makeEnvParams_user:
  "map_of (makeEnvParams req docTab remoteUser mirrorPath) ''REMOTE_USER'' = Some remoteUser"
  "map_of (makeEnvParams req docTab remoteUser mirrorPath) ''AUTHORIZATION'' =
     Some (req_header req ''Authorization'')"
  by (cases "cgi_host_port req"; simp add: makeEnvParams_def Let_def)+

end
