(* ===== verification/Expand.thy ===== *)
theory Expand
  imports Go_Strings Go_Fmt
begin

text \<open>
  File names with variables: \<open>os.Expand\<close> of Go's library and \<open>expandFileName\<close> of
  \<open>server.go\<close>, which calls itself on the configured log directory.  The call depth is
  bounded by fuel; no value means that the calls never end (in Go, a stack overflow).
\<close>

section \<open>\<open>os.Expand\<close>\<close>

definition shell_special :: "char \<Rightarrow> bool" where
  "shell_special c = (c \<in> set ''*#$@!?0123456789'')"

definition alpha_num :: "char \<Rightarrow> bool" where
  "alpha_num c =
     (let n = byte_of c
      in c = CHR ''_'' \<or> 48 \<le> n \<and> n \<le> 57 \<or> 97 \<le> n \<and> n \<le> 122 \<or> 65 \<le> n \<and> n \<le> 90)"

text \<open>\<open>getShellName\<close>: the name that starts a string and the number of bytes it takes.\<close>

definition getShellName :: "string \<Rightarrow> string \<times> nat" where
  "getShellName s =
     (case s of
        [] \<Rightarrow> ([], 0)
      | c # cs \<Rightarrow>
          if c = CHR ''{'' then
            (case first_index (CHR ''}'') cs of
               None \<Rightarrow> ([], 1)
             | Some i \<Rightarrow> (take i cs, i + 2))
          else if shell_special c then ([c], 1)
          else let n = takeWhile alpha_num s in (n, length n))"

datatype token = Lit char | Var string

function tokens :: "string \<Rightarrow> token list" where
  "tokens s =
     (case s of
        [] \<Rightarrow> []
      | c # cs \<Rightarrow>
          if c = CHR ''$'' \<and> cs \<noteq> []
          then (let (name, w) = getShellName cs in Var name # tokens (drop w cs))
          else Lit c # tokens cs)"
  by pat_completeness auto
termination
  by (relation "measure length") auto

declare tokens.simps [simp del]

lemma tokens_Nil [simp]: "tokens [] = []"
  by (subst tokens.simps) simp

lemma tokens_Cons:
  "tokens (c # cs) =
     (if c = CHR ''$'' \<and> cs \<noteq> []
      then Var (fst (getShellName cs)) # tokens (drop (snd (getShellName cs)) cs)
      else Lit c # tokens cs)"
  by (subst tokens.simps) (simp add: split_beta)

text \<open>\<open>os.Expand\<close>; the mapping may fail to return.\<close>

fun token_value :: "(string \<Rightarrow> string option) \<Rightarrow> token \<Rightarrow> string option" where
  "token_value f (Lit c) = Some [c]"
| "token_value f (Var k) = f k"

definition os_expand :: "(string \<Rightarrow> string option) \<Rightarrow> string \<Rightarrow> string option" where
  "os_expand f s = map_option concat (those (map (token_value f) (tokens s)))"

section \<open>\<open>expandFileName\<close>\<close>

record civil =
  year :: int
  month :: int
  day :: int
  hour :: int
  minute :: int
  second :: int
  nanos :: int

definition fmt_date :: "civil \<Rightarrow> string" where
  "fmt_date t = pad0 4 (year t) @ ''_'' @ pad0 2 (month t) @ ''_'' @ pad0 2 (day t)"

definition fmt_clock :: "civil \<Rightarrow> string" where
  "fmt_clock t =
     pad0 2 (hour t) @ ''_'' @ pad0 2 (minute t) @ ''_'' @ pad0 2 (second t) @ ''_'' @ pad0 9 (nanos t)"

text \<open>The variables: the directory of the program, two parts of the configuration, the time.\<close>

record file_vars =
  basePath :: string
  LogDir :: string
  ServiceName :: string
  now_civil :: civil

definition plain_key :: "file_vars \<Rightarrow> string \<Rightarrow> string" where
  "plain_key v key =
     (if key = ''APP_DIR'' then basePath v
      else if key = ''SERVICE_NAME'' then ServiceName v
      else if key = ''DATE'' then fmt_date (now_civil v)
      else if key = ''TIME'' then ''T'' @ fmt_clock (now_civil v)
      else if key = ''DATETIME'' then fmt_date (now_civil v) @ '' '' @ fmt_clock (now_civil v)
      else [])"

fun expand_file :: "nat \<Rightarrow> file_vars \<Rightarrow> string \<Rightarrow> string option" where
  "expand_file 0 v fileName = None"
| "expand_file (Suc n) v fileName =
     os_expand (\<lambda>key. if to_upper key = ''LOG_DIR'' then expand_file n v (LogDir v)
                      else Some (plain_key v (to_upper key))) fileName"

definition expandFileName :: "file_vars \<Rightarrow> string \<Rightarrow> string option" where
  "expandFileName v fileName = expand_file 2 v fileName"

definition mentions_log_dir :: "string \<Rightarrow> bool" where
  "mentions_log_dir s =
     list_ex (\<lambda>t. case t of Lit c \<Rightarrow> False | Var k \<Rightarrow> to_upper k = ''LOG_DIR'') (tokens s)"

lemma those_tokens_None:
  "those (map (token_value f) ts) = None \<longleftrightarrow> (\<exists>k. Var k \<in> set ts \<and> f k = None)"
proof (induction ts)
  case (Cons t ts)
  then show ?case by (cases t) (auto split: option.split)
qed simp

lemma os_expand_None:
  "os_expand f s = None \<longleftrightarrow> (\<exists>k. Var k \<in> set (tokens s) \<and> f k = None)"
  by (simp add: os_expand_def those_tokens_None)

lemma os_expand_cong:
  "(\<And>k. Var k \<in> set (tokens s) \<Longrightarrow> f k = g k) \<Longrightarrow> os_expand f s = os_expand g s"
proof -
  assume eq: "\<And>k. Var k \<in> set (tokens s) \<Longrightarrow> f k = g k"
  have "map (token_value f) (tokens s) = map (token_value g) (tokens s)"
  proof (rule map_cong [OF refl])
    fix t assume "t \<in> set (tokens s)"
    with eq show "token_value f t = token_value g t" by (cases t) auto
  qed
  then show ?thesis unfolding os_expand_def by (simp only:)
qed

lemma mentions_iff: "mentions_log_dir s \<longleftrightarrow> (\<exists>k. Var k \<in> set (tokens s) \<and> to_upper k = ''LOG_DIR'')"
proof -
  have "list_ex (\<lambda>t. case t of Lit c \<Rightarrow> False | Var k \<Rightarrow> P k) ts \<longleftrightarrow> (\<exists>k. Var k \<in> set ts \<and> P k)" for P ts
  proof (induction ts)
    case (Cons t ts)
    then show ?case by (cases t) auto
  qed simp
  then show ?thesis by (simp add: mentions_log_dir_def)
qed

lemma expand_no_log_dir:
  "\<not> mentions_log_dir s \<Longrightarrow> expand_file (Suc n) v s = expand_file (Suc m) v s \<and> expand_file (Suc n) v s \<noteq> None"
  by (auto simp: os_expand_None mentions_iff intro!: os_expand_cong split: if_splits)

lemma expand_loops:
  "mentions_log_dir (LogDir v) \<Longrightarrow> mentions_log_dir s \<Longrightarrow> expand_file n v s = None"
proof (induction n arbitrary: s)
  case (Suc n)
  then show ?case by (auto simp: os_expand_None mentions_iff)
qed simp

text \<open>C29: \<open>expandFileName\<close> returns unless both the file name and the configured log
  directory mention \<open>log_dir\<close>; otherwise it calls itself for ever, and every file name of the log and of
  the error dumps mentions it.  A call depth of two is all that a returning call needs.\<close>

theorem expandFileName_terminates:
  "(expandFileName v fileName \<noteq> None \<longleftrightarrow>
      \<not> (mentions_log_dir fileName \<and> mentions_log_dir (LogDir v))) \<and>
   expand_file (n + 2) v fileName = expandFileName v fileName"
proof (cases "mentions_log_dir fileName \<and> mentions_log_dir (LogDir v)")
  case True
  then have "expand_file k v fileName = None" for k by (simp only: expand_loops)
  with True show ?thesis by (simp only: expandFileName_def) simp
next
  case False
  let ?f = "\<lambda>n key. if to_upper key = ''LOG_DIR'' then expand_file n v (LogDir v)
                     else Some (plain_key v (to_upper key))"
  have two: "expand_file (k + 2) v fileName = os_expand (?f (Suc k)) fileName" for k by simp
  have eq: "os_expand (?f (Suc n)) fileName = os_expand (?f (Suc 0)) fileName"
  proof (rule os_expand_cong)
    fix k assume "Var k \<in> set (tokens fileName)"
    with False have "to_upper k = ''LOG_DIR'' \<Longrightarrow> \<not> mentions_log_dir (LogDir v)"
      by (auto simp: mentions_iff)
    then show "?f (Suc n) k = ?f (Suc 0) k" using expand_no_log_dir [of "LogDir v" n v 0] by simp
  qed
  have "os_expand (?f (Suc 0)) fileName \<noteq> None"
    using False expand_no_log_dir [of "LogDir v" 0 v 0] unfolding os_expand_None
    by (auto simp: mentions_iff [of fileName] simp del: expand_file.simps split: if_splits)
  moreover have one: "expandFileName v fileName = os_expand (?f (Suc 0)) fileName"
    using two [of 0] by (simp only: expandFileName_def add_0)
  moreover have "expand_file (n + 2) v fileName = expandFileName v fileName"
    by (simp only: two eq one)
  ultimately show ?thesis using False by (simp only: simp_thms)
qed

lemma expand_plain:
  "CHR ''$'' \<notin> set s \<Longrightarrow> expand_file (Suc n) v s = Some s"
proof -
  have "CHR ''$'' \<notin> set s \<Longrightarrow> those (map (token_value f) (tokens s)) = Some (map (\<lambda>c. [c]) s)" for f
    by (induction s) (auto simp: tokens_Cons)
  then show "CHR ''$'' \<notin> set s \<Longrightarrow> expand_file (Suc n) v s = Some s"
    by (simp add: os_expand_def)
qed

definition linux_vars :: file_vars where
  "linux_vars =
     \<lparr>basePath = ''/app'', LogDir = ''${app_dir}/log'', ServiceName = ''ipls'',
      now_civil = \<lparr>year = 2018, month = 5, day = 7, hour = 9, minute = 30, second = 0, nanos = 5\<rparr>\<rparr>"

lemma expand_example:
  "expandFileName linux_vars ''${log_dir}/ex${date}.log'' = Some ''/app/log/ex2018_05_07.log''"
proof -
  have t: "tokens ''${log_dir}/ex${date}.log'' =
      Var ''log_dir'' # map Lit ''/ex'' @ Var ''date'' # map Lit ''.log''"
    "tokens ''${app_dir}/log'' = Var ''app_dir'' # map Lit ''/log''"
    by (simp_all add: tokens_Cons getShellName_def first_index_def)
  have u: "to_upper ''log_dir'' = ''LOG_DIR''" "to_upper ''date'' = ''DATE''" "to_upper ''app_dir'' = ''APP_DIR''"
    by (simp_all add: str_eval)
  have d: "fmt_date (now_civil linux_vars) = ''2018_05_07''"
    by (simp add: linux_vars_def fmt_date_def pad0_def nat_digits.simps str_eval)
  have l: "expand_file (Suc 0) linux_vars (LogDir linux_vars) = Some ''/app/log''"
    by (simp add: linux_vars_def os_expand_def t u plain_key_def)
  show ?thesis
    unfolding expandFileName_def numeral_2_eq_2 expand_file.simps(2) [of "Suc 0"]
    by (simp add: os_expand_def t u plain_key_def d l del: expand_file.simps)
qed

end
