(* ===== verification/Stat.thy ===== *)
theory Stat
  imports Tasker "HOL-Library.Word" "HOL-Library.Multiset"
begin

text \<open>
  The statistics of the sessions (\<open>otasker/stat.go\<close>): what \<open>info\<close> reports of one tasker, the
  sort key it takes from a field by name, and \<open>Collect\<close>.  Durations are \<open>int32\<close> milliseconds,
  kept as words so that their wrap-around is in the model.  \<open>sort.Sort\<close> is a parameter: a
  permutation in order, with nothing said of equal keys.
\<close>

section \<open>Durations\<close>

text \<open>\<open>Time.Sub\<close> saturates, and Go's division of a duration truncates towards zero.\<close>

definition go_sub :: "time \<Rightarrow> time \<Rightarrow> int" where
  "go_sub t u = max (- (2 ^ 63)) (min (2 ^ 63 - 1) (t - u))"

definition go_quot :: "int \<Rightarrow> int \<Rightarrow> int" where
  "go_quot a b = (if a < 0 then - ((- a) div b) else a div b)"

definition millis :: "time \<Rightarrow> time \<Rightarrow> 32 word" where
  "millis t u = word_of_int (go_quot (go_sub t u) Millisecond)"

section \<open>\<open>info\<close>\<close>

record taskStep =
  ts_Name :: string
  ts_Duration :: "32 word"
  ts_Statement :: string

record OracleTaskerStat =
  SortKey :: string
  HandlerID :: string
  MessageID :: string
  Database :: string
  UserName :: string
  Password :: string
  SessionID :: string
  Created :: string
  RequestProceeded :: int
  ErrorsNumber :: int
  IdleTime :: "32 word"
  LastDuration :: "32 word"
  LastSteps :: "(nat \<times> taskStep) list"
  StepNum :: "32 word"
  StepName :: string
  LastDocument :: string
  LastProcedure :: string
  NowInProcess :: bool

text \<open>The steps in the order of their numbers; a step without an end is the one that runs.\<close>

definition logged_steps :: "'d oracleTasker \<Rightarrow> oracleTaskerStep list" where
  "logged_steps r = List.map_filter (logSteps r) [0 ..< Suc stepDisconnectNum]"

definition step_time :: "time \<Rightarrow> oracleTaskerStep \<Rightarrow> 32 word" where
  "step_time now val = (if stepFn val = 0 then millis now (stepBg val) else millis (stepFn val) (stepBg val))"

definition shown_step :: "time \<Rightarrow> oracleTaskerStep \<Rightarrow> taskStep" where
  "shown_step now val =
     \<lparr>ts_Name = stepName val, ts_Duration = step_time now val, ts_Statement = stepStmForShowning val\<rparr>"

definition running_step :: "oracleTaskerStep list \<Rightarrow> string" where
  "running_step steps = foldl (\<lambda>name val. if stepFn val = 0 then stepName val else name) [] steps"

definition idle_time :: "time \<Rightarrow> 'd oracleTasker \<Rightarrow> 32 word" where
  "idle_time now r = (if stateLastFinishDT r = 0 then 0 else millis now (stateLastFinishDT r))"

definition base_stat :: "(time \<Rightarrow> string) \<Rightarrow> time \<Rightarrow> 'd oracleTasker \<Rightarrow> OracleTaskerStat" where
  "base_stat fmt now r =
     (let steps = logged_steps r
      in \<lparr>SortKey = [], HandlerID = logSessionID r, MessageID = logTaskID r, Database = logConnStr r,
          UserName = logUserName r, Password = logUserPass r, SessionID = sessID r,
          Created = fmt (stateCreateDT r), RequestProceeded = logRequestProceeded r,
          ErrorsNumber = logErrorsNum r, IdleTime = idle_time now r,
          LastDuration = foldl (\<lambda>t val. t + step_time now val) 0 steps,
          LastSteps = zip [1 ..< length steps + 1] (map (shown_step now) steps),
          StepNum = word_of_int (int (length steps) + 1), StepName = running_step steps,
          LastDocument = logProcName r, LastProcedure = logProcName r,
          NowInProcess = stateIsWorking r\<rparr>)"

text \<open>\<open>reflect\<close>'s look-up of a field by its name, by the kinds the code tells apart.\<close>

datatype field_val = F_Invalid | F_String string | F_Int int | F_Bool bool | F_Map

definition field_by_name :: "OracleTaskerStat \<Rightarrow> string \<Rightarrow> field_val" where
  "field_by_name s name =
     (case map_of
        [(''SortKey'', F_String (SortKey s)), (''HandlerID'', F_String (HandlerID s)),
         (''MessageID'', F_String (MessageID s)), (''Database'', F_String (Database s)),
         (''UserName'', F_String (UserName s)), (''Password'', F_String (Password s)),
         (''SessionID'', F_String (SessionID s)), (''Created'', F_String (Created s)),
         (''RequestProceeded'', F_Int (RequestProceeded s)), (''ErrorsNumber'', F_Int (ErrorsNumber s)),
         (''IdleTime'', F_Int (sint (IdleTime s))), (''LastDuration'', F_Int (sint (LastDuration s))),
         (''LastSteps'', F_Map), (''StepNum'', F_Int (sint (StepNum s))),
         (''StepName'', F_String (StepName s)), (''LastDocument'', F_String (LastDocument s)),
         (''LastProcedure'', F_String (LastProcedure s)), (''NowInProcess'', F_Bool (NowInProcess s))] name
      of None \<Rightarrow> F_Invalid | Some f \<Rightarrow> f)"

definition sort_key :: "field_val \<Rightarrow> string" where
  "sort_key f =
     (case f of
        F_Invalid \<Rightarrow> ''<invalid Value>''
      | F_String s \<Rightarrow> s
      | F_Int i \<Rightarrow> pad0 40 i
      | F_Bool b \<Rightarrow> (if b then ''true'' else ''false'')
      | F_Map \<Rightarrow> [])"

definition info :: "(time \<Rightarrow> string) \<Rightarrow> time \<Rightarrow> string \<Rightarrow> 'd oracleTasker \<Rightarrow> OracleTaskerStat" where
  "info fmt now sortKeyName r =
     (let res = base_stat fmt now r in res\<lparr>SortKey := sort_key (field_by_name res sortKeyName)\<rparr>)"

section \<open>\<open>Collect\<close>\<close>

fun str_less :: "string \<Rightarrow> string \<Rightarrow> bool" where
  "str_less _ [] = False"
| "str_less [] (y # ys) = True"
| "str_less (x # xs) (y # ys) = (byte_of x < byte_of y \<or> x = y \<and> str_less xs ys)"

definition stat_less :: "OracleTaskerStat \<Rightarrow> OracleTaskerStat \<Rightarrow> bool" where
  "stat_less a b = str_less (SortKey a) (SortKey b)"

type_synonym sorter = "(OracleTaskerStat \<Rightarrow> OracleTaskerStat \<Rightarrow> bool) \<Rightarrow> OracleTaskerStat list \<Rightarrow> OracleTaskerStat list"

text \<open>\<open>sessions\<close> are the taskers of a virtual path, in the order the map is visited.\<close>

definition Collect :: "sorter \<Rightarrow> (time \<Rightarrow> string) \<Rightarrow> time \<Rightarrow> (string \<Rightarrow> 'd oracleTasker list) \<Rightarrow>
    string \<Rightarrow> string \<Rightarrow> bool \<Rightarrow> OracleTaskerStat list" where
  "Collect srt fmt now sessions path sortKeyName reversed =
     (let res = map (info fmt now sortKeyName) (sessions (to_upper path))
      in if reversed then srt (\<lambda>a b. stat_less b a) res else srt stat_less res)"

text \<open>What \<open>sort.Sort\<close> promises for a strict weak order.\<close>

definition weak_order :: "('a \<Rightarrow> 'a \<Rightarrow> bool) \<Rightarrow> bool" where
  "weak_order lt =
     ((\<forall>x. \<not> lt x x) \<and> (\<forall>x y z. lt x y \<longrightarrow> lt y z \<longrightarrow> lt x z) \<and>
      (\<forall>x y z. lt x y \<longrightarrow> lt x z \<or> lt z y))"

definition sorts :: "sorter \<Rightarrow> bool" where
  "sorts srt =
     (\<forall>lt xs. weak_order lt \<longrightarrow>
        mset (srt lt xs) = mset xs \<and> sorted_wrt (\<lambda>x y. \<not> lt y x) (srt lt xs))"

lemma str_less_irrefl: "\<not> str_less x x"
  by (induction x) auto

lemma str_less_trans: "str_less x y \<Longrightarrow> str_less y z \<Longrightarrow> str_less x z"
proof (induction x y arbitrary: z rule: str_less.induct)
  case (2 y ys)
  then show ?case by (cases z) auto
next
  case (3 x xs y ys)
  then show ?case by (cases z) auto
qed simp

lemma str_less_between: "str_less x y \<Longrightarrow> str_less x z \<or> str_less z y"
proof (induction x y arbitrary: z rule: str_less.induct)
  case (2 y ys)
  then show ?case by (cases z) auto
next
  case (3 x xs y ys)
  show ?case
  proof (cases z)
    case (Cons c cs)
    with 3 show ?thesis using byte_of_inject [of c x] byte_of_inject [of c y] by (auto simp: neq_iff)
  qed simp
qed simp

lemma stat_order: "weak_order stat_less" "weak_order (\<lambda>a b. stat_less b a)"
  unfolding weak_order_def stat_less_def
  using str_less_irrefl str_less_trans str_less_between by blast+

text \<open>C30: the session list is a permutation of the statistics of the taskers of the path, ordered
  by the sort key, upwards or downwards as asked.\<close>

theorem Collect_sorted:
  assumes "sorts srt"
  shows "mset (Collect srt fmt now sessions path key reversed) =
      mset (map (info fmt now key) (sessions (to_upper path))) \<and>
    sorted_wrt (\<lambda>a b. if reversed then \<not> str_less (SortKey a) (SortKey b)
                      else \<not> str_less (SortKey b) (SortKey a))
      (Collect srt fmt now sessions path key reversed)"
proof -
  let ?xs = "map (info fmt now key) (sessions (to_upper path))"
  have "mset (srt stat_less ?xs) = mset ?xs \<and> sorted_wrt (\<lambda>x y. \<not> stat_less y x) (srt stat_less ?xs)"
    using assms stat_order(1) unfolding sorts_def by blast
  moreover have "mset (srt (\<lambda>a b. stat_less b a) ?xs) = mset ?xs \<and>
      sorted_wrt (\<lambda>x y. \<not> stat_less x y) (srt (\<lambda>a b. stat_less b a) ?xs)"
    using assms stat_order(2) unfolding sorts_def by blast
  ultimately show ?thesis
    unfolding Collect_def Let_def by (cases reversed) (simp_all only: stat_less_def if_True if_False simp_thms)
qed

fun insert_by :: "('a \<Rightarrow> 'a \<Rightarrow> bool) \<Rightarrow> 'a \<Rightarrow> 'a list \<Rightarrow> 'a list" where
  "insert_by lt x [] = [x]"
| "insert_by lt x (y # ys) = (if lt y x then y # insert_by lt x ys else x # y # ys)"

definition insertion_sort :: "('a \<Rightarrow> 'a \<Rightarrow> bool) \<Rightarrow> 'a list \<Rightarrow> 'a list" where
  "insertion_sort lt xs = foldr (insert_by lt) xs []"

lemma mset_insert_by: "mset (insert_by lt x ys) = add_mset x (mset ys)"
  by (induction ys) auto

lemma set_insert_by: "set (insert_by lt x ys) = insert x (set ys)"
  by (induction ys) auto

lemma insert_by_sorted:
  assumes "weak_order lt"
  shows "sorted_wrt (\<lambda>x y. \<not> lt y x) ys \<Longrightarrow> sorted_wrt (\<lambda>x y. \<not> lt y x) (insert_by lt x ys)"
proof (induction ys)
  case (Cons y ys)
  have between: "lt a b \<Longrightarrow> lt a c \<or> lt c b" and asym: "lt a b \<Longrightarrow> \<not> lt b a" for a b c
    using assms unfolding weak_order_def by blast+
  show ?case
  proof (cases "lt y x")
    case True
    with Cons asym show ?thesis by (auto simp: set_insert_by)
  next
    case False
    with Cons.prems between [of _ x y] show ?thesis by auto
  qed
qed simp

lemma insertion_sort_mset: "mset (insertion_sort lt xs) = mset xs"
  by (induction xs) (auto simp: insertion_sort_def mset_insert_by)

lemma insertion_sort_sorted: "weak_order lt \<Longrightarrow> sorted_wrt (\<lambda>x y. \<not> lt y x) (insertion_sort lt xs)"
  by (induction xs) (auto simp: insertion_sort_def insert_by_sorted)

lemma insertion_sort_sorts: "sorts insertion_sort"
  by (simp add: sorts_def insertion_sort_mset insertion_sort_sorted)

definition idle_tasker :: "int \<Rightarrow> unit oracleTasker" where
  "idle_tasker n = (newTasker 0 [] [] [] [] [] () Map.empty)\<lparr>logRequestProceeded := n\<rparr>"

theorem Collect_sorted_witness:
  "mset (Collect insertion_sort (\<lambda>_. []) 0 (\<lambda>_. map idle_tasker [3, 10, 2]) ''/p'' ''RequestProceeded'' False) =
   mset (map (info (\<lambda>_. []) 0 ''RequestProceeded'') (map idle_tasker [3, 10, 2]))"
  by (rule conjunct1 [OF Collect_sorted [OF insertion_sort_sorts]])

section \<open>Numeric keys\<close>

lemma digits_val_foldl:
  "foldl (\<lambda>n c. 10 * n + digit_val c) k cs = k * 10 ^ length cs + digits_val cs"
proof (induction cs rule: rev_induct)
  case (snoc c cs)
  then show ?case by (simp add: digits_val_def algebra_simps)
qed (simp add: digits_val_def)

lemma digits_val_Cons: "digits_val (c # cs) = digit_val c * 10 ^ length cs + digits_val cs"
  using digits_val_foldl [of "digit_val c" cs] by (simp add: digits_val_def)

lemma digits_val_less: "\<forall>c \<in> set cs. is_digit c \<Longrightarrow> digits_val cs < 10 ^ length cs"
proof (induction cs)
  case (Cons c cs)
  from Cons.prems have "is_digit c" by simp
  then have "digit_val c \<le> 9" unfolding is_digit_def digit_val_def by linarith
  then have "digit_val c * 10 ^ length cs \<le> 9 * 10 ^ length cs" by (rule mult_right_mono) simp
  moreover have "digits_val cs < 10 ^ length cs" using Cons by simp
  moreover have "(10::nat) ^ length (c # cs) = 10 * 10 ^ length cs" by simp
  ultimately show ?case unfolding digits_val_Cons by linarith
qed (simp add: digits_val_def)

lemma str_less_digits:
  "length a = length b \<Longrightarrow> \<forall>c \<in> set a \<union> set b. is_digit c \<Longrightarrow>
     str_less a b \<longleftrightarrow> digits_val a < digits_val b"
proof (induction a b rule: list_induct2)
  case (Cons x xs y ys)
  let ?m = "(10::nat) ^ length ys"
  have lt: "digits_val xs < ?m" "digits_val ys < ?m"
    using Cons digits_val_less [of xs] digits_val_less [of ys] by auto
  have val: "byte_of x = digit_val x + 48" "byte_of y = digit_val y + 48"
    using Cons.prems by (auto simp: is_digit_def digit_val_def)
  have step: "digit_val p * ?m + i < digit_val q * ?m + j"
    if "digit_val p < digit_val q" "i < ?m" for p q i j
  proof -
    from that(1) have "Suc (digit_val p) * ?m \<le> digit_val q * ?m" by (intro mult_right_mono) auto
    with that(2) show ?thesis by simp
  qed
  consider "digit_val x < digit_val y" | "digit_val x = digit_val y" | "digit_val y < digit_val x" by linarith
  then show ?case
  proof cases
    case 1
    then show ?thesis using val step [OF 1 lt(1)] Cons.hyps by (simp add: digits_val_Cons)
  next
    case 2
    then have "x = y" using val byte_of_inject by metis
    then show ?thesis using Cons by (simp add: digits_val_Cons)
  next
    case 3
    then have "\<not> byte_of x < byte_of y" "x \<noteq> y" using val by auto
    then show ?thesis using step [OF 3 lt(2), of "digits_val xs"] Cons.hyps by (simp add: digits_val_Cons)
  qed
qed simp

lemma length_nat_digits: "n < 10 ^ Suc w \<Longrightarrow> length (nat_digits n) \<le> Suc w"
proof (induction w arbitrary: n)
  case (Suc w)
  then have "n div 10 < 10 ^ Suc w" by (simp add: less_mult_imp_div_less)
  with Suc.IH show ?case by (subst nat_digits.simps) simp
qed (subst nat_digits.simps, simp)

lemma pad0_digits:
  assumes "0 \<le> i" "i < 10 ^ Suc w"
  shows "length (pad0 (Suc w) i) = Suc w" "digits_val (pad0 (Suc w) i) = nat i"
    "\<forall>c \<in> set (pad0 (Suc w) i). is_digit c"
proof -
  have "nat i < 10 ^ Suc w" using assms by (simp add: nat_less_iff)
  then have len: "length (nat_digits (nat i)) \<le> Suc w" by (rule length_nat_digits)
  have p: "pad0 (Suc w) i = replicate (Suc w - length (nat_digits (nat i))) (CHR ''0'') @ nat_digits (nat i)"
    using assms by (simp add: pad0_def Let_def)
  from len show "length (pad0 (Suc w) i) = Suc w" unfolding p by simp
  have zero: "digits_val (replicate k (CHR ''0'') @ s) = digits_val s" for k s
    by (induction k) (simp_all add: digits_val_Cons digit_val_def byte_of_def)
  show "digits_val (pad0 (Suc w) i) = nat i" unfolding p zero by (rule digits_val_digits)
  have "is_digit (CHR ''0'')" by (simp add: is_digit_def byte_of_def)
  then show "\<forall>c \<in> set (pad0 (Suc w) i). is_digit c" unfolding p by (auto dest: nat_digits_digits)
qed

text \<open>On numbers that are not negative the text order of the forty digit keys is the order of the
  numbers.\<close>

lemma pad0_less:
  assumes "0 \<le> i" "i < 10 ^ 40" "0 \<le> j" "j < 10 ^ 40"
  shows "str_less (pad0 40 i) (pad0 40 j) \<longleftrightarrow> i < j"
proof -
  have s: "40 = Suc 39" by simp
  have i: "i < 10 ^ Suc 39" and j: "j < 10 ^ Suc 39" using assms by simp_all
  from pad0_digits [OF assms(1) i] pad0_digits [OF assms(3) j] show ?thesis
    using assms unfolding s by (subst str_less_digits) (auto simp: nat_less_eq_zless)
qed

text \<open>C31: the idle time of a session is right up to \<open>2 ^ 31\<close> milliseconds, about 24 days; a
  session idle for longer, up to twice that, is shown with a negative idle time.\<close>

theorem idle_time_bounds:
  assumes "stateLastFinishDT r \<noteq> 0" "0 \<le> ms" "ms < 2 ^ 32"
    and "(now - stateLastFinishDT r) div Millisecond = ms"
  shows "sint (IdleTime (info fmt now key r)) = (if ms < 2 ^ 31 then ms else ms - 2 ^ 32)"
proof -
  let ?d = "now - stateLastFinishDT r"
  have "0 \<le> ?d" using assms(2,4) by (simp add: Millisecond_def pos_imp_zdiv_nonneg_iff)
  moreover have "?d < 2 ^ 32 * Millisecond" using assms(3,4) by (simp add: Millisecond_def)
  ultimately have "go_sub now (stateLastFinishDT r) = ?d" by (simp add: go_sub_def Millisecond_def)
  with \<open>0 \<le> ?d\<close> assms have "IdleTime (info fmt now key r) = word_of_int ms"
    by (simp add: info_def base_stat_def idle_time_def millis_def go_quot_def Let_def)
  then have "sint (IdleTime (info fmt now key r)) = (ms + 2 ^ 31) mod 2 ^ 32 - 2 ^ 31"
    by (simp add: int_word_sint)
  also have "\<dots> = (if ms < 2 ^ 31 then ms else ms - 2 ^ 32)"
  proof (cases "ms < 2 ^ 31")
    case True
    with assms(2) show ?thesis by simp
  next
    case False
    have "(ms + 2 ^ 31) mod 2 ^ 32 = (ms - 2 ^ 31 + 2 ^ 32) mod 2 ^ 32"
      by (rule arg_cong [where f = "\<lambda>x. x mod 2 ^ 32"]) simp
    also have "\<dots> = (ms - 2 ^ 31) mod 2 ^ 32" by (rule mod_add_self2)
    also have "\<dots> = ms - 2 ^ 31" using False assms(3) by (intro mod_pos_pos_trivial) auto
    finally show ?thesis using False by simp
  qed
  finally show ?thesis .
qed

theorem idle_time_bounds_witness:
  "sint (IdleTime (info (\<lambda>_. []) 3000000000000001 ''IdleTime'' ((idle_tasker 1)\<lparr>stateLastFinishDT := 1\<rparr>))) =
     3000000000 - 2 ^ 32"
  using idle_time_bounds [of "(idle_tasker 1)\<lparr>stateLastFinishDT := 1\<rparr>" 3000000000 3000000000000001
      "\<lambda>_. []" "''IdleTime''"]
  by (simp add: Millisecond_def)

end
