(* ===== verification/Sessions_Page.thy ===== *)
theory Sessions_Page
  imports Prelude
begin

text \<open>
  The template of the page that lists the sessions of a virtual path, the constant
  \<open>sessions\<close> of \<open>server.go\<close>, line by line; letters outside ASCII are written as their
  UTF-8 bytes.
\<close>

definition sessions_lines_1 :: "string list" where
  "sessions_lines_1 =
     [''<HTML>'',
      ''<HEAD>'',
      ''<TITLE>'' @ [CHR 0xD0, CHR 0xA1, CHR 0xD0, CHR 0xBF, CHR 0xD0, CHR 0xB8, CHR 0xD1,
        CHR 0x81, CHR 0xD0, CHR 0xBE, CHR 0xD0, CHR 0xBA] @ '' '' @ [CHR 0xD1, CHR 0x81,
        CHR 0xD0, CHR 0xB5, CHR 0xD1, CHR 0x81, CHR 0xD1, CHR 0x81, CHR 0xD0, CHR 0xB8, CHR 0xD0,
        CHR 0xB9] @ '' '' @ [CHR 0xD0, CHR 0xB2, CHR 0xD0, CHR 0xB8, CHR 0xD1, CHR 0x80,
        CHR 0xD1, CHR 0x82, CHR 0xD1, CHR 0x83, CHR 0xD0, CHR 0xB0, CHR 0xD0, CHR 0xBB, CHR 0xD1,
        CHR 0x8C, CHR 0xD0, CHR 0xBD, CHR 0xD0, CHR 0xBE, CHR 0xD0, CHR 0xB9] @ '' '' @
        [CHR 0xD0, CHR 0xB4, CHR 0xD0, CHR 0xB8, CHR 0xD1, CHR 0x80, CHR 0xD0, CHR 0xB5,
        CHR 0xD0, CHR 0xBA, CHR 0xD1, CHR 0x82, CHR 0xD0, CHR 0xBE, CHR 0xD1, CHR 0x80, CHR 0xD0,
        CHR 0xB8, CHR 0xD0, CHR 0xB8] @ ''</TITLE>'',
      ''<META HTTP-EQUIV=\"Expires\" CONTENT=\"0\"/>'',
      ''<script src=\"https://rolf-asw1:63088/i/libraries/apex/minified/desktop_all.min.js?v=4.2.1.00.08\" type=\"text/javascript\"></script>'',
      ''<style>'',
      ''  table {'',
      ''    border: 1px solid black; /* '' @ [CHR 0xD0, CHR 0xA0, CHR 0xD0, CHR 0xB0, CHR 0xD0,
        CHR 0xBC, CHR 0xD0, CHR 0xBA, CHR 0xD0, CHR 0xB0] @ '' '' @ [CHR 0xD0, CHR 0xB2,
        CHR 0xD0, CHR 0xBE, CHR 0xD0, CHR 0xBA, CHR 0xD1, CHR 0x80, CHR 0xD1, CHR 0x83, CHR 0xD0,
        CHR 0xB3] @ '' '' @ [CHR 0xD1, CHR 0x82, CHR 0xD0, CHR 0xB0, CHR 0xD0, CHR 0xB1,
        CHR 0xD0, CHR 0xBB, CHR 0xD0, CHR 0xB8, CHR 0xD1, CHR 0x86, CHR 0xD1, CHR 0x8B] @ '' */'',
      ''    border-collapse: collapse; /* '' @ [CHR 0xD0, CHR 0x9E, CHR 0xD1, CHR 0x82,
        CHR 0xD0, CHR 0xBE, CHR 0xD0, CHR 0xB1, CHR 0xD1, CHR 0x80, CHR 0xD0, CHR 0xB0, CHR 0xD0,
        CHR 0xB6, CHR 0xD0, CHR 0xB0, CHR 0xD1, CHR 0x82, CHR 0xD1, CHR 0x8C] @ '' '' @
        [CHR 0xD1, CHR 0x82, CHR 0xD0, CHR 0xBE, CHR 0xD0, CHR 0xBB, CHR 0xD1, CHR 0x8C,
        CHR 0xD0, CHR 0xBA, CHR 0xD0, CHR 0xBE] @ '' '' @ [CHR 0xD0, CHR 0xBE, CHR 0xD0,
        CHR 0xB4, CHR 0xD0, CHR 0xB8, CHR 0xD0, CHR 0xBD, CHR 0xD0, CHR 0xB0, CHR 0xD1, CHR 0x80,
        CHR 0xD0, CHR 0xBD, CHR 0xD1, CHR 0x8B, CHR 0xD0, CHR 0xB5] @ '' '' @ [CHR 0xD0,
        CHR 0xBB, CHR 0xD0, CHR 0xB8, CHR 0xD0, CHR 0xBD, CHR 0xD0, CHR 0xB8, CHR 0xD0,
        CHR 0xB8] @ '' */'',
      ''  }'',
      ''  th {'',
      ''    text-align: center; /* '' @ [CHR 0xD0, CHR 0x92, CHR 0xD1, CHR 0x8B, CHR 0xD1,
        CHR 0x80, CHR 0xD0, CHR 0xB0, CHR 0xD0, CHR 0xB2, CHR 0xD0, CHR 0xBD, CHR 0xD0, CHR 0xB8,
        CHR 0xD0, CHR 0xB2, CHR 0xD0, CHR 0xB0, CHR 0xD0, CHR 0xBD, CHR 0xD0, CHR 0xB8, CHR 0xD0,
        CHR 0xB5] @ '' '' @ [CHR 0xD0, CHR 0xBF, CHR 0xD0, CHR 0xBE] @ '' '' @ [CHR 0xD0,
        CHR 0xBB, CHR 0xD0, CHR 0xB5, CHR 0xD0, CHR 0xB2, CHR 0xD0, CHR 0xBE, CHR 0xD0, CHR 0xBC,
        CHR 0xD1, CHR 0x83] @ '' '' @ [CHR 0xD0, CHR 0xBA, CHR 0xD1, CHR 0x80, CHR 0xD0,
        CHR 0xB0, CHR 0xD1, CHR 0x8E] @ '' */'',
      ''    font-weight:bold;'',
      ''    background: #ccc; /* '' @ [CHR 0xD0, CHR 0xA6, CHR 0xD0, CHR 0xB2, CHR 0xD0,
        CHR 0xB5, CHR 0xD1, CHR 0x82] @ '' '' @ [CHR 0xD1, CHR 0x84, CHR 0xD0, CHR 0xBE,
        CHR 0xD0, CHR 0xBD, CHR 0xD0, CHR 0xB0] @ '' '' @ [CHR 0xD1, CHR 0x8F, CHR 0xD1,
        CHR 0x87, CHR 0xD0, CHR 0xB5, CHR 0xD0, CHR 0xB5, CHR 0xD0, CHR 0xBA] @ '' */'',
      ''    padding: 2px; /* '' @ [CHR 0xD0, CHR 0x9F, CHR 0xD0, CHR 0xBE, CHR 0xD0, CHR 0xBB,
        CHR 0xD1, CHR 0x8F] @ '' '' @ [CHR 0xD0, CHR 0xB2, CHR 0xD0, CHR 0xBE, CHR 0xD0,
        CHR 0xBA, CHR 0xD1, CHR 0x80, CHR 0xD1, CHR 0x83, CHR 0xD0, CHR 0xB3] @ '' '' @
        [CHR 0xD1, CHR 0x81, CHR 0xD0, CHR 0xBE, CHR 0xD0, CHR 0xB4, CHR 0xD0, CHR 0xB5,
        CHR 0xD1, CHR 0x80, CHR 0xD0, CHR 0xB6, CHR 0xD0, CHR 0xB8, CHR 0xD0, CHR 0xBC, CHR 0xD0,
        CHR 0xBE, CHR 0xD0, CHR 0xB3, CHR 0xD0, CHR 0xBE] @ '' '' @ [CHR 0xD1, CHR 0x8F,
        CHR 0xD1, CHR 0x87, CHR 0xD0, CHR 0xB5, CHR 0xD0, CHR 0xB5, CHR 0xD0, CHR 0xBA] @ '' */'',
      ''    border: 1px solid black; /* '' @ [CHR 0xD0, CHR 0x93, CHR 0xD1, CHR 0x80, CHR 0xD0,
        CHR 0xB0, CHR 0xD0, CHR 0xBD, CHR 0xD0, CHR 0xB8, CHR 0xD1, CHR 0x86, CHR 0xD0,
        CHR 0xB0] @ '' '' @ [CHR 0xD0, CHR 0xB2, CHR 0xD0, CHR 0xBE, CHR 0xD0, CHR 0xBA,
        CHR 0xD1, CHR 0x80, CHR 0xD1, CHR 0x83, CHR 0xD0, CHR 0xB3] @ '' '' @ [CHR 0xD1,
        CHR 0x8F, CHR 0xD1, CHR 0x87, CHR 0xD0, CHR 0xB5, CHR 0xD0, CHR 0xB5, CHR 0xD0,
        CHR 0xBA] @ '' */'',
      ''  }'',
      ''  td {'',
      ''    padding: 2px; /* '' @ [CHR 0xD0, CHR 0x9F, CHR 0xD0, CHR 0xBE, CHR 0xD0, CHR 0xBB,
        CHR 0xD1, CHR 0x8F] @ '' '' @ [CHR 0xD0, CHR 0xB2, CHR 0xD0, CHR 0xBE, CHR 0xD0,
        CHR 0xBA, CHR 0xD1, CHR 0x80, CHR 0xD1, CHR 0x83, CHR 0xD0, CHR 0xB3] @ '' '' @
        [CHR 0xD1, CHR 0x81, CHR 0xD0, CHR 0xBE, CHR 0xD0, CHR 0xB4, CHR 0xD0, CHR 0xB5,
        CHR 0xD1, CHR 0x80, CHR 0xD0, CHR 0xB6, CHR 0xD0, CHR 0xB8, CHR 0xD0, CHR 0xBC, CHR 0xD0,
        CHR 0xBE, CHR 0xD0, CHR 0xB3, CHR 0xD0, CHR 0xBE] @ '' '' @ [CHR 0xD1, CHR 0x8F,
        CHR 0xD1, CHR 0x87, CHR 0xD0, CHR 0xB5, CHR 0xD0, CHR 0xB5, CHR 0xD0, CHR 0xBA] @ '' */'',
      ''    border: 1px solid black; /* '' @ [CHR 0xD0, CHR 0x93, CHR 0xD1, CHR 0x80, CHR 0xD0,
        CHR 0xB0, CHR 0xD0, CHR 0xBD, CHR 0xD0, CHR 0xB8, CHR 0xD1, CHR 0x86, CHR 0xD0,
        CHR 0xB0] @ '' '' @ [CHR 0xD0, CHR 0xB2, CHR 0xD0, CHR 0xBE, CHR 0xD0, CHR 0xBA,
        CHR 0xD1, CHR 0x80, CHR 0xD1, CHR 0x83, CHR 0xD0, CHR 0xB3] @ '' '' @ [CHR 0xD1,
        CHR 0x8F, CHR 0xD1, CHR 0x87, CHR 0xD0, CHR 0xB5, CHR 0xD0, CHR 0xB5, CHR 0xD0,
        CHR 0xBA] @ '' */'',
      ''    font-family: Arial;'']"

definition sessions_lines_2 :: "string list" where
  "sessions_lines_2 =
     [''    font-size: 10pt;'',
      ''  }'',
      ''</style>'',
      [],
      ''<script>'',
      ''function dp() {'',
      ''  if(navigator.appName.indexOf(\"Microsoft\") > -1){'',
      ''    return \"block\";'',
      ''  }'',
      ''  else {'',
      ''    return \"table-row\";'',
      ''  }'',
      ''}'',
      ''function chD(r, rNum, n){'',
      ''  var v = document.all[n];'',
      ''  var temp1 = rNum;'',
      ''  if (v != undefined) {'',
      ''    if (v.length == undefined) {'',
      ''      v.style.display = v.style.display=='' @ [CHR 0x27] @ ''none'' @ [CHR 0x27] @
        '' ?  dp() : '' @ [CHR 0x27] @ ''none'' @ [CHR 0x27] @ '';'',
      ''      if (v.style.display=='' @ [CHR 0x27] @ ''none'' @ [CHR 0x27] @ '') temp1 = 1;'',
      ''    }'']"

definition sessions_lines_3 :: "string list" where
  "sessions_lines_3 =
     [''    else {'',
      ''      for (i=0; i<v.length; i++)'',
      ''      {'',
      ''        v[i].style.display = v[i].style.display=='' @ [CHR 0x27] @ ''none'' @
        [CHR 0x27] @ '' ?  dp() : '' @ [CHR 0x27] @ ''none'' @ [CHR 0x27] @ '';'',
      ''      }'',
      ''      if (v[0].style.display=='' @ [CHR 0x27] @ ''none'' @ [CHR 0x27] @ '') temp1 = 1;'',
      ''    }'',
      ''    $(\"#\"+ r + \" td.ch\").prop(\"rowspan\", temp1);'',
      ''  }'',
      ''}'',
      ''</script>'',
      ''</HEAD>'',
      ''<BODY>'',
      ''  <H3>'' @ [CHR 0xD0, CHR 0xA1, CHR 0xD0, CHR 0xBF, CHR 0xD0, CHR 0xB8, CHR 0xD1,
        CHR 0x81, CHR 0xD0, CHR 0xBE, CHR 0xD0, CHR 0xBA] @ '' '' @ [CHR 0xD1, CHR 0x81,
        CHR 0xD0, CHR 0xB5, CHR 0xD1, CHR 0x81, CHR 0xD1, CHR 0x81, CHR 0xD0, CHR 0xB8, CHR 0xD0,
        CHR 0xB9] @ '' '' @ [CHR 0xD0, CHR 0xB2, CHR 0xD0, CHR 0xB8, CHR 0xD1, CHR 0x80,
        CHR 0xD1, CHR 0x82, CHR 0xD1, CHR 0x83, CHR 0xD0, CHR 0xB0, CHR 0xD0, CHR 0xBB, CHR 0xD1,
        CHR 0x8C, CHR 0xD0, CHR 0xBD, CHR 0xD0, CHR 0xBE, CHR 0xD0, CHR 0xB9] @ '' '' @
        [CHR 0xD0, CHR 0xB4, CHR 0xD0, CHR 0xB8, CHR 0xD1, CHR 0x80, CHR 0xD0, CHR 0xB5,
        CHR 0xD0, CHR 0xBA, CHR 0xD1, CHR 0x82, CHR 0xD0, CHR 0xBE, CHR 0xD1, CHR 0x80, CHR 0xD0,
        CHR 0xB8, CHR 0xD0, CHR 0xB8] @ ''</H3>'',
      ''  <TABLE>'',
      ''    <thead>'',
      ''      <TR>'',
      ''        <th>#</th>'',
      ''        <th><a href=\"!?Sort=Created\">'' @ [CHR 0xD0, CHR 0xA1, CHR 0xD0, CHR 0xBE,
        CHR 0xD0, CHR 0xB7, CHR 0xD0, CHR 0xB4, CHR 0xD0, CHR 0xB0, CHR 0xD0, CHR 0xBD, CHR 0xD0,
        CHR 0xBE] @ ''</a></th>'',
      ''        <th><a href=\"!?Sort=UserName\">'' @ [CHR 0xD0, CHR 0x9F, CHR 0xD0, CHR 0xBE,
        CHR 0xD0, CHR 0xBB, CHR 0xD1, CHR 0x8C, CHR 0xD0, CHR 0xB7, CHR 0xD0, CHR 0xBE, CHR 0xD0,
        CHR 0xB2, CHR 0xD0, CHR 0xB0, CHR 0xD1, CHR 0x82, CHR 0xD0, CHR 0xB5, CHR 0xD0, CHR 0xBB,
        CHR 0xD1, CHR 0x8C] @ ''</a></th>'',
      ''        <th><a href=\"!?Sort=SessionID\">Session</a></th>'']"

definition sessions_lines_4 :: "string list" where
  "sessions_lines_4 =
     [''        <th><a href=\"!?Sort=Database\">'' @ [CHR 0xD0, CHR 0xA1, CHR 0xD1, CHR 0x82,
        CHR 0xD1, CHR 0x80, CHR 0xD0, CHR 0xBE, CHR 0xD0, CHR 0xBA, CHR 0xD0, CHR 0xB0] @ '' '' @
        [CHR 0xD1, CHR 0x81, CHR 0xD0, CHR 0xBE, CHR 0xD0, CHR 0xB5, CHR 0xD0, CHR 0xB4,
        CHR 0xD0, CHR 0xB8, CHR 0xD0, CHR 0xBD, CHR 0xD0, CHR 0xB5, CHR 0xD0, CHR 0xBD, CHR 0xD0,
        CHR 0xB8, CHR 0xD1, CHR 0x8F] @ ''</a></th>'',
      ''        <th><a href=\"!?Sort=MessageID\">Id</a></th>'',
      ''        <th><a href=\"!?Sort=NowInProcess\">'' @ [CHR 0xD0, CHR 0xA1, CHR 0xD0,
        CHR 0xBE, CHR 0xD1, CHR 0x81, CHR 0xD1, CHR 0x82, CHR 0xD0, CHR 0xBE, CHR 0xD1, CHR 0x8F,
        CHR 0xD0, CHR 0xBD, CHR 0xD0, CHR 0xB8, CHR 0xD0, CHR 0xB5] @ '' '' @ [CHR 0xD0,
        CHR 0xB2, CHR 0xD1, CHR 0x8B, CHR 0xD0, CHR 0xBF, CHR 0xD0, CHR 0xBE, CHR 0xD0, CHR 0xBB,
        CHR 0xD0, CHR 0xBD, CHR 0xD0, CHR 0xB5, CHR 0xD0, CHR 0xBD, CHR 0xD0, CHR 0xB8, CHR 0xD1,
        CHR 0x8F] @ ''</a></th>'',
      [CHR 0x09, CHR 0x09] @ ''<th><a href=\"!?Sort=NowInProcess\">'' @ [CHR 0xD0, CHR 0xA8,
        CHR 0xD0, CHR 0xB0, CHR 0xD0, CHR 0xB3] @ ''</a></th>'',
      ''        <th><a href=\"!?Sort=IdleTime\">'' @ [CHR 0xD0, CHR 0x92, CHR 0xD1, CHR 0x80,
        CHR 0xD0, CHR 0xB5, CHR 0xD0, CHR 0xBC, CHR 0xD1, CHR 0x8F] @ '' '' @ [CHR 0xD0,
        CHR 0xBF, CHR 0xD1, CHR 0x80, CHR 0xD0, CHR 0xBE, CHR 0xD1, CHR 0x81, CHR 0xD1, CHR 0x82,
        CHR 0xD0, CHR 0xBE, CHR 0xD1, CHR 0x8F] @ '', msec</a></th>'',
      ''        <th><a href=\"!?Sort=LastDuration\">'' @ [CHR 0xD0, CHR 0x92, CHR 0xD1,
        CHR 0x80, CHR 0xD0, CHR 0xB5, CHR 0xD0, CHR 0xBC, CHR 0xD1, CHR 0x8F] @ '' '' @
        [CHR 0xD0, CHR 0xB2, CHR 0xD1, CHR 0x8B, CHR 0xD0, CHR 0xBF, CHR 0xD0, CHR 0xBE,
        CHR 0xD0, CHR 0xBB, CHR 0xD0, CHR 0xBD, CHR 0xD0, CHR 0xB5, CHR 0xD0, CHR 0xBD, CHR 0xD0,
        CHR 0xB8, CHR 0xD1, CHR 0x8F] @ '' '' @ [CHR 0xD0, CHR 0xB7, CHR 0xD0, CHR 0xB0,
        CHR 0xD0, CHR 0xBF, CHR 0xD1, CHR 0x80, CHR 0xD0, CHR 0xBE, CHR 0xD1, CHR 0x81, CHR 0xD0,
        CHR 0xB0] @ '', msec</a></th>'',
      ''        <th><a href=\"!?Sort=RequestProceeded\">'' @ [CHR 0xD0, CHR 0x9A, CHR 0xD0,
        CHR 0xBE, CHR 0xD0, CHR 0xBB] @ ''-'' @ [CHR 0xD0, CHR 0xB2, CHR 0xD0, CHR 0xBE] @
        '' '' @ [CHR 0xD0, CHR 0xB7, CHR 0xD0, CHR 0xB0, CHR 0xD0, CHR 0xBF, CHR 0xD1, CHR 0x83,
        CHR 0xD1, CHR 0x81, CHR 0xD0, CHR 0xBA, CHR 0xD0, CHR 0xBE, CHR 0xD0, CHR 0xB2] @ '' '' @
        [CHR 0xD0, CHR 0xBD, CHR 0xD0, CHR 0xB0] @ '' '' @ [CHR 0xD0, CHR 0xB8, CHR 0xD1,
        CHR 0x81, CHR 0xD0, CHR 0xBF, CHR 0xD0, CHR 0xBE, CHR 0xD0, CHR 0xBB, CHR 0xD0, CHR 0xBD,
        CHR 0xD0, CHR 0xB5, CHR 0xD0, CHR 0xBD, CHR 0xD0, CHR 0xB8, CHR 0xD0, CHR 0xB5] @
        ''</a></th>'',
      [CHR 0x09, CHR 0x09] @ ''<th><a href=\"!?Sort=ErrorsNumber\">'' @ [CHR 0xD0, CHR 0x9A,
        CHR 0xD0, CHR 0xBE, CHR 0xD0, CHR 0xBB] @ ''-'' @ [CHR 0xD0, CHR 0xB2, CHR 0xD0,
        CHR 0xBE] @ '' '' @ [CHR 0xD0, CHR 0xBE, CHR 0xD1, CHR 0x88, CHR 0xD0, CHR 0xB8,
        CHR 0xD0, CHR 0xB1, CHR 0xD0, CHR 0xBE, CHR 0xD0, CHR 0xBA] @ ''</a></th>'',
      ''      </TR>'',
      ''    </thead>'',
      ''{{range $key, $data := .Sessions}}'',
      ''<TR name=\"rid{{$key}}\" id=\"rid{{$key}}\" STYLE=\"background-color: {{if eq $data.NowInProcess true}}#00FF00{{else}}white{{end}}; color: black; cursor: Hand;\" onClick=\"{chD('' @
        [CHR 0x27] @ ''rid{{$key}}'' @ [CHR 0x27] @ '',{{$data.StepNum}},'' @ [CHR 0x27] @
        ''id{{$key}}'' @ [CHR 0x27] @ '')}\" >'',
      ''  <TD align=\"center\" class=\"ch\">{{$key}}</TD>'',
      ''  <TD align=\"center\" nowrap class=\"ch\">{{ $data.Created}}</TD>'',
      ''  <TD align=\"center\" class=\"ch\">{{ $data.UserName}}</TD>'',
      ''  <TD align=\"center\" nowrap>{{ $data.SessionID}}</TD>'',
      ''  <td align=\"center\" nowrap>{{ $data.Database}}</td>'',
      ''  <TD align=\"center\" nowrap>{{ $data.MessageID}}</TD>'',
      ''  <TD align=\"center\">{{if eq $data.NowInProcess true}}'' @ [CHR 0xD0, CHR 0x92,
        CHR 0xD1, CHR 0x8B, CHR 0xD0, CHR 0xBF, CHR 0xD0, CHR 0xBE, CHR 0xD0, CHR 0xBB, CHR 0xD0,
        CHR 0xBD, CHR 0xD1, CHR 0x8F, CHR 0xD0, CHR 0xB5, CHR 0xD1, CHR 0x82, CHR 0xD1, CHR 0x81,
        CHR 0xD1, CHR 0x8F] @ ''{{else}}'' @ [CHR 0xD0, CHR 0x9F, CHR 0xD1, CHR 0x80, CHR 0xD0,
        CHR 0xBE, CHR 0xD1, CHR 0x81, CHR 0xD1, CHR 0x82, CHR 0xD0, CHR 0xB0, CHR 0xD0, CHR 0xB8,
        CHR 0xD0, CHR 0xB2, CHR 0xD0, CHR 0xB0, CHR 0xD0, CHR 0xB5, CHR 0xD1, CHR 0x82] @
        ''{{end}}</TD>'',
      ''  <TD align=\"center\" nowrap>{{ $data.StepName}}</TD>'',
      ''  <TD align=\"right\">{{ $data.IdleTime}}</TD>'']"

definition sessions_lines_5 :: "string list" where
  "sessions_lines_5 =
     [''  <TD align=\"right\">{{ $data.LastDuration}}</TD>'',
      ''  <TD align=\"right\">{{ $data.RequestProceeded}}</TD>'',
      ''  <TD align=\"right\">{{ $data.ErrorsNumber}}</TD> '',
      ''</TR>'',
      ''{{range $k, $v := $data.LastSteps}}'',
      ''<tr name=\"id{{$key}}\" id=\"id{{$key}}\" style=\"display: none; background-color:{{if eq $data.NowInProcess true}}#00FF00{{else}}white{{end}} color: black; cursor: Hand;\">'',
      ''<td>{{$k}}</td>'',
      ''<td nowrap>{{$v.Name}}</td>'',
      ''<td align=\"right\">{{$v.Duration}} msec</td>'',
      ''<td colspan=\"6\"><pre><code class=\"sql\">{{$v.Statement}}</code></pre></td>'',
      ''</tr>'',
      ''{{end}}'',
      ''{{end}}'',
      ''</TABLE>'',
      ''</BODY>'',
      ''</HTML>'',
      []]"

definition sessions_template :: string where
  "sessions_template = concat (map (\<lambda>l. l @ [CHR 0x0A]) (butlast (sessions_lines_1 @ sessions_lines_2 @ sessions_lines_3 @ sessions_lines_4 @ sessions_lines_5))) @ last (sessions_lines_5)"

end
