(* ===== verification/Owa_Handler.thy ===== *)
theory Owa_Handler
  imports Worker Handler_Ids Expand Stat Sessions_Page
begin

text \<open>
  The handler of the virtual directories (\<open>newOwa\<close> of \<open>server.go\<close>, the pages of
  \<open>templates.go\<close>).  It is split where it calls \<open>otasker.Run\<close> or \<open>otasker.Break\<close>:
  \<open>owa_before\<close> goes from the request to the call or to a response, \<open>owa_run_reply\<close> and
  \<open>owa_break_reply\<close> from the result of the call to the response, \<open>newOwa\<close> puts them together.
  The surroundings are a record of parameters: the repair of the query string, the parser of
  multipart bodies, \<open>html/template\<close>, \<open>url.Parse\<close>, fresh identifiers, the session
  statistics, and the configuration of the process.
\<close>

section \<open>Configuration and surroundings\<close>

datatype page_data =
    No_Data
  | Error_Data string
  | Wait_Data string string int
  | Sessions_Data "OracleTaskerStat list"

record handler_env =
  fix_query :: "string \<Rightarrow> string"
  parse_multipart :: "request \<Rightarrow> Form option \<times> request"
  tmpl_parse :: "string \<Rightarrow> string \<Rightarrow> string option"
  tmpl_exec :: "string \<Rightarrow> string \<Rightarrow> page_data \<Rightarrow> bytes \<times> string option"
  url_scheme :: "string \<Rightarrow> string option"
  uuid_host :: string
  uuid_task :: string
  collect :: "string \<Rightarrow> string \<Rightarrow> bool \<Rightarrow> OracleTaskerStat list"
  file_env :: file_vars
  conectionString :: string
  users_env :: users_state

record owa_conf =
  c_path :: string
  c_type :: int
  c_idle :: time
  c_wait :: time
  c_reqUserInfo :: bool
  c_realm :: string
  c_defUser :: string
  c_defPass :: string
  c_before :: string
  c_after :: string
  c_store :: string
  c_docTable :: string
  c_templates :: "string \<rightharpoonup> string"
  c_grps :: "int \<rightharpoonup> string"

section \<open>Pages\<close>

definition write_out :: "bytes \<Rightarrow> writer \<Rightarrow> writer" where
  "write_out out w = (if out = [] then w else Write out w)"

definition plain_error :: "string \<Rightarrow> writer \<Rightarrow> writer" where
  "plain_error err w =
     Write (''Error:'' @ err)
       (WriteHeader StatusOK (w_set ''Content-Type'' ''text/plain; charset=utf-8'' w))"

definition responseError :: "handler_env \<Rightarrow> string \<Rightarrow> string \<Rightarrow> writer \<Rightarrow> writer" where
  "responseError env body e w =
     (case tmpl_parse env ''error'' body of
        Some err \<Rightarrow> plain_error err w
      | None \<Rightarrow>
          let w' = w_set ''Content-Type'' ''text/html; charset=utf-8'' w;
              (out, failed) = tmpl_exec env ''error'' body (Error_Data e)
          in case failed of
               None \<Rightarrow> write_out out w'
             | Some err \<Rightarrow> plain_error err (write_out out w'))"

text \<open>\<open>responseTemplate\<close> writes nothing when the template fails; its callers drop the error.\<close>

definition responseTemplate :: "handler_env \<Rightarrow> string \<Rightarrow> string \<Rightarrow> page_data \<Rightarrow> writer \<Rightarrow> writer" where
  "responseTemplate env name body data w =
     (case tmpl_parse env name body of
        Some err \<Rightarrow> w
      | None \<Rightarrow>
          (case tmpl_exec env name body data of
             (out, Some err) \<Rightarrow> w
           | (out, None) \<Rightarrow> Write out (w_set ''Content-Type'' ''text/html; charset=utf-8'' w)))"

definition template_of :: "owa_conf \<Rightarrow> string \<Rightarrow> string" where
  "template_of conf name = (case c_templates conf name of None \<Rightarrow> [] | Some b \<Rightarrow> b)"

definition unauthorized :: "string \<Rightarrow> writer \<Rightarrow> writer" where
  "unauthorized realm w =
     Write ''Unauthorized'' (WriteHeader StatusUnauthorized (w_set ''WWW-Authenticate'' realm w))"

definition basic_realm :: "string \<Rightarrow> string" where
  "basic_realm realm = ''Basic realm=\"'' @ realm @ ''\"''"

section \<open>From the request to the call\<close>

datatype owa_outcome =
    Respond writer
  | Call_Break string string
  | Call_Run run_args
  | Crash

definition proc_name :: "owa_conf \<Rightarrow> request \<Rightarrow> string option" where
  "proc_name conf r =
     (let n = length (c_path conf) + 1
      in if length (URL_Path r) < n then None else Some (path_clean (drop n (URL_Path r))))"

definition parsed_request :: "handler_env \<Rightarrow> request \<Rightarrow> Form option \<times> request" where
  "parsed_request env r = parse_multipart env (r\<lparr>RawQuery := fix_query env (RawQuery r)\<rparr>)"

definition remote_user :: "request \<Rightarrow> string" where
  "remote_user r = (case BasicAuth r of Some (u, p) \<Rightarrow> if u = [] then ''-'' else u | None \<Rightarrow> ''-'')"

definition credentials :: "owa_conf \<Rightarrow> request \<Rightarrow> (string \<times> string) option" where
  "credentials conf r = (if c_reqUserInfo conf then BasicAuth r else Some (c_defUser conf, c_defPass conf))"

definition dump_name :: "handler_env \<Rightarrow> string \<Rightarrow> string option" where
  "dump_name env user =
     expandFileName (file_env env) (''${log_dir}/err_'' @ user @ ''_${datetime}.log'')"

definition MaxInt64 :: int where "MaxInt64 = 2 ^ 63 - 1"

definition no_limit :: "time \<Rightarrow> time" where
  "no_limit t = (if t < 0 then MaxInt64 else t)"

definition owa_args :: "handler_env \<Rightarrow> owa_conf \<Rightarrow> request \<Rightarrow> Form option \<Rightarrow> string \<Rightarrow> string \<Rightarrow> string \<Rightarrow>
    bool \<Rightarrow> string \<Rightarrow> string \<Rightarrow> run_args" where
  "owa_args env conf r files proc user pass isSpecial cs dump =
     \<lparr>path = c_path conf, typeTasker = c_type conf,
      args_work =
        \<lparr>sessionID = makeHandlerID (uuid_host env) isSpecial user pass (req_header r ''DebugIP'') r,
         taskID = makeTaskID (uuid_task env) r, reqUserName = user, reqUserPass = pass,
         reqConnStr = cs, reqParamStoreProc = c_store conf, reqBeforeScript = c_before conf,
         reqAfterScript = c_after conf, reqDocumentTable = c_docTable conf,
         reqCGIEnv = makeEnvParams r (c_docTable conf) (remote_user r) (c_realm conf @ ''/''),
         reqProc = proc, reqParams = ReqForm r, reqFiles = files, dumpFileName = dump\<rparr>,
      waitTimeout = no_limit (c_wait conf), idleTimeout = no_limit (c_idle conf)\<rparr>"

definition owa_before :: "handler_env \<Rightarrow> owa_conf \<Rightarrow> request \<Rightarrow> writer \<Rightarrow> owa_outcome" where
  "owa_before env conf req w =
     (case proc_name conf req of
        None \<Rightarrow> Crash
      | Some proc \<Rightarrow>
          let (files, r) = parsed_request env req in
          if proc = ''!'' then
            Respond (responseTemplate env ''sessions'' sessions_template
              (Sessions_Data (collect env (c_path conf) (FormValue r ''Sort'') False)) w)
          else case credentials conf r of
            None \<Rightarrow> Respond (unauthorized (basic_realm (Host r @ c_realm conf)) w)
          | Some (user, pass) \<Rightarrow>
              (case dump_name env user of
                 None \<Rightarrow> Crash
               | Some dump \<Rightarrow>
                   (case getConnectionParams (conectionString env) (users_env env) user (c_grps conf) of
                      (isSpecial, cs) \<Rightarrow>
                        if cs = [] then Respond (unauthorized (basic_realm (Host r @ c_realm conf)) w)
                        else let a = owa_args env conf r files proc user pass isSpecial cs dump in
                          if proc = ''break_session'' then Call_Break (path a) (sessionID (args_work a))
                          else Call_Run a)))"

section \<open>From the result to the response\<close>

text \<open>\<open>strconv.Atoi\<close>: an optional sign and digits, in the range of 64 bits.\<close>

definition atoi :: "string \<Rightarrow> int option" where
  "atoi s =
     (let (sign, ds) =
        (case s of
           c # cs \<Rightarrow> if c = CHR ''-'' then (- 1, cs) else if c = CHR ''+'' then (1, cs) else (1, s)
         | [] \<Rightarrow> (1, []));
          i = sign * int (digits_val ds)
      in if ds = [] \<or> \<not> list_all is_digit ds \<or> i < - (2 ^ 63) \<or> 2 ^ 63 \<le> i then None else Some i)"

definition reply_header ::
    "string \<Rightarrow> string \<Rightarrow> int \<times> string \<times> writer \<Rightarrow> int \<times> string \<times> writer" where
  "reply_header name val acc =
     (case acc of (status, location, w) \<Rightarrow>
        if to_lower name = ''status'' then
          (case atoi val of Some i \<Rightarrow> (i, location, w) | None \<Rightarrow> (status, location, w))
        else if to_lower name = ''location'' then
          (status, if has_prefix val ''/f?p'' then drop 1 val else val, w)
        else (status, location, w_add name val w))"

definition header_pairs :: "OracleTaskResult \<Rightarrow> (string \<times> string) list" where
  "header_pairs res = (case Headers res of None \<Rightarrow> [] | Some h \<Rightarrow> form_pairs h)"

definition reply_page :: "handler_env \<Rightarrow> request \<Rightarrow> OracleTaskResult \<Rightarrow> writer \<Rightarrow> writer" where
  "reply_page env r res w =
     (case fold (\<lambda>(name, val). reply_header name val) (header_pairs res) (StatusCode res, [], w) of
        (status, location, w) \<Rightarrow>
          if status = StatusMovedPermanently \<or> status = StatusFound
          then http_redirect (url_scheme env) r location status w
          else Write (Content res)
                 (WriteHeader status (w_set ''Content-Type'' (ContentType res) w)))"

definition owa_run_reply ::
    "handler_env \<Rightarrow> owa_conf \<Rightarrow> request \<Rightarrow> run_args \<Rightarrow> OracleTaskResult \<Rightarrow> writer \<Rightarrow> writer" where
  "owa_run_reply env conf r a res w =
     (let page = (\<lambda>name. responseTemplate env name (template_of conf name));
          form = Wait_Data (reqUserName (args_work a)) (makeWaitForm r (taskID (args_work a))) (Duration res)
      in
      if StatusCode res = StatusErrorPage then
        responseError env (template_of conf ''error'') (Content res) w
      else if StatusCode res = StatusWaitPage then page ''rwait'' form w
      else if StatusCode res = StatusBreakPage then page ''rbreak'' form w
      else if StatusCode res = StatusRequestWasInterrupted then page ''rwi'' No_Data w
      else if StatusCode res = StatusInvalidUsernameOrPassword then
        unauthorized (basic_realm (Host r)) w
      else if StatusCode res = StatusInsufficientPrivileges then page ''InsufficientPrivileges'' No_Data w
      else if StatusCode res = StatusAccountIsLocked then page ''AccountIsLocked'' No_Data w
      else reply_page env r res w)"

definition owa_break_reply :: "handler_env \<Rightarrow> owa_conf \<Rightarrow> string option \<Rightarrow> writer \<Rightarrow> writer" where
  "owa_break_reply env conf err w =
     (case err of
        Some e \<Rightarrow> responseError env (template_of conf ''error'') e w
      | None \<Rightarrow> responseTemplate env ''rbreakr'' (template_of conf ''rbreakr'') No_Data w)"

text \<open>The whole handler, over what \<open>Run\<close> and \<open>Break\<close> answer; no response is a panic.\<close>

definition newOwa :: "handler_env \<Rightarrow> owa_conf \<Rightarrow> (run_args \<Rightarrow> OracleTaskResult) \<Rightarrow>
    (string \<Rightarrow> string \<Rightarrow> string option) \<Rightarrow> request \<Rightarrow> writer \<Rightarrow> writer option" where
  "newOwa env conf run brk req w =
     (case owa_before env conf req w of
        Respond w' \<Rightarrow> Some w'
      | Call_Break p s \<Rightarrow> Some (owa_break_reply env conf (brk p s) w)
      | Call_Run a \<Rightarrow> Some (owa_run_reply env conf (snd (parsed_request env req)) a (run a) w)
      | Crash \<Rightarrow> None)"

end
