(* ===== verification/Owa_Props.thy ===== *)
theory Owa_Props
  imports Owa_Handler
begin

text \<open>
  Properties of the handler: whose credentials reach the database, what a client without credentials
  gets, which status codes leave the server, what a page of the database becomes.
\<close>

section \<open>What reaches the scheduler\<close>

text \<open>Parsing a body fills in the form values and leaves the rest of the request alone.\<close>

definition parser_ok :: "(request \<Rightarrow> Form option \<times> request) \<Rightarrow> bool" where
  "parser_ok p =
     (\<forall>r. \<exists>form post mp. snd (p r) = r\<lparr>ReqForm := form, PostForm := post, MultipartForm := mp\<rparr>)"

definition authorised :: "handler_env \<Rightarrow> owa_conf \<Rightarrow> request \<Rightarrow> string \<Rightarrow> string \<Rightarrow> string \<Rightarrow> bool" where
  "authorised env conf req user pass cs =
     (credentials conf req = Some (user, pass) \<and> user \<noteq> [] \<and> cs \<noteq> [] \<and>
      (\<exists>u sid. ulist (users_env env) (to_upper user) = Some u \<and> c_grps conf (GrpID u) = Some sid \<and>
         cs = (if conectionString env = [] then sid else conectionString env)))"

lemma parsed_request_same:
  assumes "parser_ok (parse_multipart env)"
  shows "ReqHeader (snd (parsed_request env req)) = ReqHeader req"
    "Host (snd (parsed_request env req)) = Host req"
    "Method (snd (parsed_request env req)) = Method req"
    "URL_Path (snd (parsed_request env req)) = URL_Path req"
proof -
  obtain f p m where "snd (parse_multipart env (req\<lparr>RawQuery := fix_query env (RawQuery req)\<rparr>)) =
      req\<lparr>RawQuery := fix_query env (RawQuery req), ReqForm := f, PostForm := p, MultipartForm := m\<rparr>"
    using assms unfolding parser_ok_def by metis
  then show "ReqHeader (snd (parsed_request env req)) = ReqHeader req"
    "Host (snd (parsed_request env req)) = Host req"
    "Method (snd (parsed_request env req)) = Method req"
    "URL_Path (snd (parsed_request env req)) = URL_Path req"
    by (simp_all add: parsed_request_def)
qed

lemma credentials_same:
  "parser_ok (parse_multipart env) \<Longrightarrow> credentials conf (snd (parsed_request env req)) = credentials conf req"
  by (simp add: credentials_def BasicAuth_def req_header_def parsed_request_same)

text \<open>The branches of \<open>owa_before\<close>.\<close>

lemma owa_before_cases:
  obtains (crash) "owa_before env conf req w = Crash"
  | (sessions) "proc_name conf req = Some ''!''" "owa_before env conf req w =
      Respond (responseTemplate env ''sessions'' sessions_template
        (Sessions_Data (collect env (c_path conf) (FormValue (snd (parsed_request env req)) ''Sort'') False)) w)"
  | (refused) "owa_before env conf req w =
      Respond (unauthorized (basic_realm (Host (snd (parsed_request env req)) @ c_realm conf)) w)"
  | (call) proc user pass isSpecial cs dump a where
      "proc_name conf req = Some proc" "proc \<noteq> ''!''"
      "credentials conf (snd (parsed_request env req)) = Some (user, pass)"
      "dump_name env user = Some dump"
      "getConnectionParams (conectionString env) (users_env env) user (c_grps conf) = (isSpecial, cs)"
      "cs \<noteq> []"
      "a = owa_args env conf (snd (parsed_request env req)) (fst (parsed_request env req)) proc user pass isSpecial cs dump"
      "owa_before env conf req w =
         (if proc = ''break_session'' then Call_Break (path a) (sessionID (args_work a)) else Call_Run a)"
proof (cases "proc_name conf req")
  case None
  then show ?thesis using crash by (simp add: owa_before_def)
next
  case proc: (Some proc)
  obtain files r where p: "parsed_request env req = (files, r)" by (cases "parsed_request env req")
  show ?thesis
  proof (cases "proc = ''!''")
    case True
    with proc p show ?thesis using sessions by (simp add: owa_before_def)
  next
    case False
    show ?thesis
    proof (cases "credentials conf r")
      case None
      with proc p False show ?thesis using refused by (simp add: owa_before_def)
    next
      case up: (Some up)
      obtain user pass where "up = (user, pass)" by (cases up)
      note up = up [unfolded this]
      show ?thesis
      proof (cases "dump_name env user")
        case None
        with proc p False up show ?thesis using crash by (simp add: owa_before_def)
      next
        case dump: (Some dump)
        obtain isSpecial cs where g:
          "getConnectionParams (conectionString env) (users_env env) user (c_grps conf) = (isSpecial, cs)"
          by (cases "getConnectionParams (conectionString env) (users_env env) user (c_grps conf)")
        show ?thesis
        proof (cases "cs = []")
          case True
          with proc p False up dump g show ?thesis using refused by (simp add: owa_before_def)
        next
          case cs: False
          with proc p False up dump g show ?thesis
            by (intro call [of proc user pass dump isSpecial cs]) (simp_all add: owa_before_def Let_def)
        qed
      qed
    qed
  qed
qed

lemma authorised_params:
  assumes "credentials conf req = Some (user, pass)"
    and "getConnectionParams (conectionString env) (users_env env) user (c_grps conf) = (isSpecial, cs)"
    and "cs \<noteq> []"
  shows "authorised env conf req user pass cs"
  using assms getConnectionParams_Some [of "conectionString env" "users_env env" user "c_grps conf"]
    getConnectionParams_value [of "conectionString env" "users_env env" user "c_grps conf"]
  by (auto simp: authorised_def)

text \<open>C5: a task is only ever submitted, and a session only broken off, for a request that
  presented credentials (or, where the directory asks for none, under the configured account) whose user is
  in the list of users with a group of this directory; the task carries just these credentials and the
  connection string of the group, or the one for all users.\<close>

theorem no_work_without_credentials:
  assumes "parser_ok (parse_multipart env)"
  shows "(owa_before env conf req w = Call_Run a \<longrightarrow>
      authorised env conf req (reqUserName (args_work a)) (reqUserPass (args_work a)) (reqConnStr (args_work a)) \<and>
      path a = c_path conf \<and> 0 \<le> waitTimeout a \<and> 0 \<le> idleTimeout a) \<and>
    (owa_before env conf req w = Call_Break p s \<longrightarrow>
      (\<exists>user pass cs isSpecial r. authorised env conf req user pass cs \<and> p = c_path conf \<and>
         s = makeHandlerID (uuid_host env) isSpecial user pass (req_header r ''DebugIP'') r))"
proof (cases rule: owa_before_cases [of env conf req w])
  case (call proc user pass isSpecial cs dump a')
  have auth: "authorised env conf req user pass cs"
    using call(3,5,6) assms by (intro authorised_params) (simp_all add: credentials_same)
  moreover have "0 \<le> no_limit t" for t by (simp add: no_limit_def MaxInt64_def)
  ultimately show ?thesis
    using call(8) unfolding call(7) by (auto simp: owa_args_def split: if_splits)
qed simp_all

section \<open>Requests without credentials\<close>

lemma status_unauthorized [simp]:
  "w_sent w = None \<Longrightarrow> status_of (unauthorized realm w) = StatusUnauthorized"
  "w_body (unauthorized realm w) = w_body w @ ''Unauthorized''"
  by (simp_all add: unauthorized_def status_kept)

text \<open>C21: on a directory that asks for credentials a request without any is answered with status
  401 and nothing else, whatever the database would have said, unless it asks for the list of
  sessions.\<close>

theorem anonymous_is_refused:
  assumes "parser_ok (parse_multipart env)" "c_reqUserInfo conf" "BasicAuth req = None"
    and "proc_name conf req = Some proc" "proc \<noteq> ''!''"
  shows "newOwa env conf run brk req new_writer =
      Some (unauthorized (basic_realm (Host req @ c_realm conf)) new_writer) \<and>
    status_of (unauthorized (basic_realm (Host req @ c_realm conf)) new_writer) = StatusUnauthorized"
proof (cases rule: owa_before_cases [of env conf req new_writer])
  case crash
  have "credentials conf (snd (parsed_request env req)) = None"
    using assms by (simp add: credentials_same) (simp add: credentials_def)
  with assms(4,5) crash show ?thesis by (simp add: owa_before_def split: prod.splits)
next
  case sessions
  with assms show ?thesis by simp
next
  case refused
  with assms show ?thesis by (simp add: newOwa_def parsed_request_same)
next
  case call
  with assms show ?thesis by (simp add: credentials_same) (simp add: credentials_def)
qed

section \<open>Status codes of the reply\<close>

definition internal_codes :: "int list" where
  "internal_codes =
     [StatusErrorPage, StatusWaitPage, StatusBreakPage, StatusRequestWasInterrupted,
      StatusInvalidUsernameOrPassword, StatusInsufficientPrivileges, StatusAccountIsLocked]"

lemma status_pages:
  assumes "w_sent w = None"
  shows "status_of (responseTemplate env name body data w) = StatusOK"
    "status_of (responseError env body e w) = StatusOK"
    "status_of (write_out out w) = StatusOK"
  using assms
  by (auto simp: responseTemplate_def responseError_def plain_error_def write_out_def status_kept Let_def
      status_of_def split: option.splits prod.splits)

lemma fold_reply_sent:
  "fold (\<lambda>(n, v). reply_header n v) ps (st, loc, w) = (st', loc', w') \<Longrightarrow> w_sent w' = w_sent w"
proof (induction ps arbitrary: st loc w)
  case (Cons p ps)
  obtain n v where p: "p = (n, v)" by (cases p)
  obtain st1 loc1 w1 where h: "reply_header n v (st, loc, w) = (st1, loc1, w1)"
    by (cases "reply_header n v (st, loc, w)")
  then have "w_sent w1 = w_sent w" by (auto simp: reply_header_def split: if_splits option.splits)
  with Cons p h show ?case by simp
qed simp

lemma fold_reply_status:
  "\<forall>p \<in> set ps. to_lower (fst p) \<noteq> ''status'' \<Longrightarrow>
     fst (fold (\<lambda>(n, v). reply_header n v) ps (st, loc, w)) = st"
proof (induction ps arbitrary: st loc w)
  case (Cons p ps)
  obtain n v where p: "p = (n, v)" by (cases p)
  obtain st1 loc1 w1 where h: "reply_header n v (st, loc, w) = (st1, loc1, w1)"
    by (cases "reply_header n v (st, loc, w)")
  then have "st1 = st" using Cons.prems p by (auto simp: reply_header_def split: if_splits)
  with Cons p h show ?case by simp
qed simp

lemma status_reply_page:
  assumes "w_sent w = None"
  shows "status_of (reply_page env r res w) =
    fst (fold (\<lambda>(n, v). reply_header n v) (header_pairs res) (StatusCode res, [], w))"
proof -
  obtain st loc w' where f: "fold (\<lambda>(n, v). reply_header n v) (header_pairs res) (StatusCode res, [], w) = (st, loc, w')"
    by (cases "fold (\<lambda>(n, v). reply_header n v) (header_pairs res) (StatusCode res, [], w)")
  have "w_sent w' = None" using fold_reply_sent [OF f] assms by simp
  then show ?thesis by (simp add: reply_page_def f http_redirect_status status_kept)
qed

text \<open>C20: the internal codes 561 to 567, by which a worker tells the handler which page to show, are not
  sent to the client: the pages go out with status 200 or 401, and a page of the database with its own
  status, unless the database itself puts one of these numbers into a status header.\<close>

theorem internal_codes_stay_inside:
  assumes "w_sent w = None" "\<forall>(name, val) \<in> set (header_pairs res). to_lower name \<noteq> ''status''"
  shows "status_of (owa_run_reply env conf r a res w) \<notin> set internal_codes \<and>
     status_of (owa_run_reply env conf r a res w) \<in> {StatusOK, StatusUnauthorized, StatusCode res}"
proof (cases "StatusCode res \<in> set internal_codes")
  case True
  then have "status_of (owa_run_reply env conf r a res w) \<in> {StatusOK, StatusUnauthorized}"
    using assms(1) by (auto simp: internal_codes_def owa_run_reply_def Let_def status_pages)
  then show ?thesis by (auto simp: internal_codes_def status_defs)
next
  case False
  then have "owa_run_reply env conf r a res w = reply_page env r res w"
    by (simp add: internal_codes_def owa_run_reply_def)
  moreover have "fst (fold (\<lambda>(n, v). reply_header n v) (header_pairs res) (StatusCode res, [], w)) = StatusCode res"
    using assms(2) by (intro fold_reply_status) auto
  ultimately have "status_of (owa_run_reply env conf r a res w) = StatusCode res"
    using status_reply_page [OF assms(1)] by simp
  with False show ?thesis by simp
qed

section \<open>Pages and credentials on their way\<close>

lemma fold_reply_plain:
  "\<forall>p \<in> set ps. to_lower (fst p) \<noteq> ''status'' \<and> to_lower (fst p) \<noteq> ''location'' \<Longrightarrow>
     fold (\<lambda>(n, v). reply_header n v) ps (st, loc, w) = (st, loc, fold (\<lambda>(n, v). w_add n v) ps w)"
proof (induction ps arbitrary: w)
  case (Cons p ps)
  then show ?case by (cases p) (simp add: reply_header_def)
qed simp

lemma lookup_added:
  "vals_lookup (w_header (fold (\<lambda>(n, v). w_add n v) ps w)) k =
     vals_lookup (w_header w) k @ map snd (filter (\<lambda>p. CanonicalHeaderKey (fst p) = k) ps)"
proof (induction ps arbitrary: w)
  case (Cons p ps)
  then show ?case by (cases p) (simp add: w_add_def header_add_def)
qed simp

lemma fold_add_sent: "w_sent (fold (\<lambda>(n, v). w_add n v) ps w) = w_sent w"
  by (induction ps arbitrary: w) auto

lemma fold_add_body: "w_body (fold (\<lambda>(n, v). w_add n v) ps w) = w_body w"
  by (induction ps arbitrary: w) auto

lemma canonical_content_type: "CanonicalHeaderKey ''Content-Type'' = ''Content-Type''"
  by code_simp


text \<open>C13: what a client puts into its authentication header is what the task carries: a request
  with the base64 encoding of \<open>user:pass\<close>, on a directory that asks for credentials and knows the
  user, runs the procedure of its path under exactly this name and this password.\<close>

theorem credentials_roundtrip:
  assumes "parser_ok (parse_multipart env)" "c_reqUserInfo conf"
    and "req_header req ''Authorization'' = basic_header user pass" "CHR '':'' \<notin> set user"
    and "proc_name conf req = Some proc" "proc \<noteq> ''!''" "proc \<noteq> ''break_session''"
    and "dump_name env user = Some dump"
    and "getConnectionParams (conectionString env) (users_env env) user (c_grps conf) = (isSpecial, cs)"
    and "cs \<noteq> []"
  shows "\<exists>a. owa_before env conf req w = Call_Run a \<and> reqUserName (args_work a) = user \<and>
     reqUserPass (args_work a) = pass \<and> reqConnStr (args_work a) = cs \<and> reqProc (args_work a) = proc"
proof -
  have "credentials conf (snd (parsed_request env req)) = Some (user, pass)"
    using assms(1-4) by (simp add: credentials_same) (simp add: credentials_def BasicAuth_basic_header)
  then have "owa_before env conf req w = Call_Run (owa_args env conf (snd (parsed_request env req))
      (fst (parsed_request env req)) proc user pass isSpecial cs dump)"
    using assms(5-) by (simp add: owa_before_def split_beta Let_def)
  then show ?thesis by (simp add: owa_args_def)
qed

section \<open>A directory, a user and two requests\<close>

definition demo_env :: handler_env where
  "demo_env =
     \<lparr>fix_query = (\<lambda>q. q), parse_multipart = (\<lambda>r. (None, r)), tmpl_parse = (\<lambda>_ _. None),
      tmpl_exec = (\<lambda>_ body _. (body, None)), url_scheme = (\<lambda>_. Some []), uuid_host = ''u1'',
      uuid_task = ''u2'', collect = (\<lambda>_ _ _. []),
      file_env = \<lparr>basePath = ''/app'', LogDir = ''/log'', ServiceName = ''s'', now_civil = now_civil linux_vars\<rparr>,
      conectionString = [],
      users_env = \<lparr>ulist = [''SCOTT'' \<mapsto> \<lparr>IsSpecial = False, GrpID = 1\<rparr>], prev = [], users_log = []\<rparr>\<rparr>"

definition demo_conf :: owa_conf where
  "demo_conf =
     \<lparr>c_path = ''/pls'', c_type = 0, c_idle = 1, c_wait = - 1, c_reqUserInfo = True, c_realm = ''r'',
      c_defUser = [], c_defPass = [], c_before = [], c_after = [], c_store = [], c_docTable = [],
      c_templates = Map.empty, c_grps = [1 \<mapsto> ''db'']\<rparr>"

definition demo_request :: request where
  "demo_request = plain_request\<lparr>ReqHeader := [(''Authorization'', [basic_header ''scott'' ''tiger''])]\<rparr>"

lemma demo_parser: "parser_ok (parse_multipart demo_env)"
  unfolding parser_ok_def
proof
  fix r :: request
  have "snd (parse_multipart demo_env r) =
      r\<lparr>ReqForm := ReqForm r, PostForm := PostForm r, MultipartForm := MultipartForm r\<rparr>"
    by (simp add: demo_env_def)
  then show "\<exists>f p m. snd (parse_multipart demo_env r) = r\<lparr>ReqForm := f, PostForm := p, MultipartForm := m\<rparr>"
    by blast
qed

lemma demo_proc: "proc_name demo_conf plain_request = Some ''p''"
  by code_simp

lemma expandFileName_total: "\<not> mentions_log_dir (LogDir v) \<Longrightarrow> \<exists>y. expandFileName v f = Some y"
  using expand_no_log_dir [of "LogDir v" 0 v 0]
  by (cases "expandFileName v f")
     (auto simp: expandFileName_def numeral_2_eq_2 os_expand_None simp del: expand_file.simps(1) split: if_splits)

lemma demo_proc_same: "proc_name demo_conf demo_request = proc_name demo_conf plain_request"
  by (simp add: proc_name_def demo_request_def)

lemma demo_dump: "\<exists>d. dump_name demo_env ''scott'' = Some d"
proof -
  have "\<not> mentions_log_dir ''/log''" by (simp add: mentions_log_dir_def tokens_Cons)
  then show ?thesis
    using expandFileName_total [of "file_env demo_env"] by (simp add: dump_name_def) (simp add: demo_env_def)
qed

lemma demo_params:
  "getConnectionParams (conectionString demo_env) (users_env demo_env) ''scott'' (c_grps demo_conf) = (False, ''db'')"
  by (simp add: demo_env_def demo_conf_def getConnectionParams_def getUserInfo_def str_eval)

lemma demo_header: "req_header demo_request ''Authorization'' = basic_header ''scott'' ''tiger''"
proof -
  have "CanonicalHeaderKey ''Authorization'' = ''Authorization''" by code_simp
  then show ?thesis
    by (simp add: demo_request_def req_header_def header_get_def vals_get_def vals_lookup_def)
qed

lemma owa_before_demo: "\<exists>a. owa_before demo_env demo_conf demo_request new_writer = Call_Run a"
proof -
  obtain d where d: "dump_name demo_env ''scott'' = Some d" using demo_dump by blast
  have proc: "proc_name demo_conf demo_request = Some ''p''" using demo_proc demo_proc_same by simp
  have "parsed_request demo_env demo_request = (None, demo_request)"
    by (simp add: parsed_request_def demo_env_def)
  moreover have "credentials demo_conf demo_request = Some (''scott'', ''tiger'')"
    using BasicAuth_basic_header [OF demo_header] by (simp add: credentials_def demo_conf_def)
  ultimately show ?thesis using proc d demo_params by (simp add: owa_before_def Let_def)
qed

theorem credentials_roundtrip_witness:
  "\<exists>a. owa_before demo_env demo_conf demo_request new_writer = Call_Run a \<and>
     reqUserName (args_work a) = ''scott'' \<and> reqUserPass (args_work a) = ''tiger''"
proof -
  obtain d where d: "dump_name demo_env ''scott'' = Some d" using demo_dump by blast
  have proc: "proc_name demo_conf demo_request = Some ''p''" using demo_proc demo_proc_same by simp
  have "c_reqUserInfo demo_conf" by (simp add: demo_conf_def)
  from credentials_roundtrip [OF demo_parser this demo_header _ proc _ _ d demo_params, of new_writer]
  show ?thesis by auto
qed

theorem no_work_without_credentials_witness:
  "\<exists>a. owa_before demo_env demo_conf demo_request new_writer = Call_Run a \<and>
     authorised demo_env demo_conf demo_request (reqUserName (args_work a)) (reqUserPass (args_work a))
       (reqConnStr (args_work a))"
proof -
  obtain a where a: "owa_before demo_env demo_conf demo_request new_writer = Call_Run a"
    using owa_before_demo by blast
  with no_work_without_credentials [OF demo_parser, of demo_conf demo_request new_writer a] show ?thesis by blast
qed

theorem anonymous_is_refused_witness:
  "newOwa demo_env demo_conf (\<lambda>_. empty_result) (\<lambda>_ _. None) plain_request new_writer =
     Some (unauthorized (basic_realm ''hr'') new_writer)"
proof -
  have "req_header plain_request ''Authorization'' = []"
    by (simp add: plain_request_def req_header_def header_get_def vals_get_def)
  then have "BasicAuth plain_request = None" by (simp add: BasicAuth_def has_prefix_def)
  moreover have "c_reqUserInfo demo_conf" by (simp add: demo_conf_def)
  ultimately show ?thesis
    using anonymous_is_refused [OF demo_parser _ _ demo_proc, of "\<lambda>_. empty_result" "\<lambda>_ _. None"]
    by (simp add: demo_conf_def plain_request_def)
qed

definition demo_page :: OracleTaskResult where
  "demo_page =
     \<lparr>StatusCode = 200, ContentType = ''text/html'', Headers = Some [(''X-A'', [''1'', ''2''])],
      Content = ''<p>'', Duration = 0\<rparr>"

lemma demo_page_headers: "header_pairs demo_page = [(''X-A'', ''1''), (''X-A'', ''2'')]"
  by (simp add: demo_page_def header_pairs_def form_pairs_def)

theorem internal_codes_stay_inside_witness:
  "\<forall>a. status_of (owa_run_reply demo_env demo_conf plain_request a demo_page new_writer) \<notin> set internal_codes"
  using internal_codes_stay_inside [of new_writer demo_page demo_env demo_conf plain_request]
  by (simp add: demo_page_headers str_eval)


end
