(* ===== verification/Owa_Service.thy ===== *)
theory Owa_Service
  imports Owa_Props Worker_Props
begin

text \<open>
  The handler and the scheduler together: a system of goroutines whose tasks all come from the
  handlers of virtual directories.
\<close>

section \<open>Systems whose calls come from somewhere\<close>

inductive served :: "(work \<Rightarrow> OracleTaskResult \<Rightarrow> bool) \<Rightarrow> (run_args \<Rightarrow> bool) \<Rightarrow> sys \<Rightarrow> bool" for R P where
  served_init: "served R P init_sys"
| served_step: "served R P s \<Longrightarrow> exec_action R act s = Some s' \<Longrightarrow> (\<forall>t a. act = A_Call t a \<longrightarrow> P a) \<Longrightarrow>
    served R P s'"

fun call_args :: "cpc \<Rightarrow> run_args option" where
  "call_args (C_Lookup a) = Some a"
| "call_args (C_Create a) = Some a"
| "call_args (C_OutChan a w) = Some a"
| "call_args (C_Acquire a w d) = Some a"
| "call_args (C_Register a w) = Some a"
| "call_args (C_Send a w c) = Some a"
| "call_args (C_Receive a w c d) = Some a"
| "call_args (C_Release a w res) = Some a"
| "call_args (C_Return a res) = Some a"
| "call_args (C_Panic a) = Some a"
| "call_args _ = None"

fun work_in :: "lpc \<Rightarrow> work option" where
  "work_in (L_Start wrk) = Some wrk"
| "work_in (L_Running wrk) = Some wrk"
| "work_in (L_Reply wrk res) = Some wrk"
| "work_in _ = None"

definition origin_inv :: "(run_args \<Rightarrow> bool) \<Rightarrow> sys \<Rightarrow> bool" where
  "origin_inv P s =
     ((\<forall>t a. call_args (callers s t) = Some a \<longrightarrow> P a) \<and>
      (\<forall>w wrk. work_in (listener_at s w) = Some wrk \<longrightarrow> (\<exists>a. P a \<and> args_work a = wrk)))"

lemma origin_init: "origin_inv P init_sys"
  by (simp add: origin_inv_def init_sys_def)

lemma origin_goto:
  "origin_inv P s \<Longrightarrow> (\<And>a. call_args pc = Some a \<Longrightarrow> P a) \<Longrightarrow> origin_inv P (goto t pc s)"
  by (auto simp: origin_inv_def)

lemma origin_lgoto:
  "origin_inv P s \<Longrightarrow> (\<And>wrk. work_in l = Some wrk \<Longrightarrow> \<exists>a. P a \<and> args_work a = wrk) \<Longrightarrow>
     origin_inv P (lgoto w l s)"
  by (auto simp: origin_inv_def)

lemma origin_frame [simp]:
  "origin_inv P (upd_worker w f s) = origin_inv P s" "origin_inv P (s\<lparr>clock := x\<rparr>) = origin_inv P s"
  "origin_inv P (s\<lparr>chans := c\<rparr>) = origin_inv P s" "origin_inv P (s\<lparr>chans := c, next_c := n\<rparr>) = origin_inv P s"
  "origin_inv P (s\<lparr>wlist := m\<rparr>) = origin_inv P s" "origin_inv P (s\<lparr>numberOfSessions := k\<rparr>) = origin_inv P s"
  by (simp_all add: origin_inv_def)

lemma origin_callers: "origin_inv P s \<Longrightarrow> callers s t = pc \<Longrightarrow> call_args pc = Some a \<Longrightarrow> P a"
  by (auto simp: origin_inv_def)

lemma origin_works:
  "origin_inv P s \<Longrightarrow> listener_at s w = l \<Longrightarrow> work_in l = Some wrk \<Longrightarrow> \<exists>a. P a \<and> args_work a = wrk"
  by (auto simp: origin_inv_def)

lemma origin_new_listener:
  "origin_inv P s \<Longrightarrow> work_in (l_pc l) = None \<Longrightarrow>
     origin_inv P (s\<lparr>workers := ws, wlist := m, listeners := (listeners s)(w := l), next_w := n\<rparr>)"
  by (auto simp: origin_inv_def)

lemma origin_step:
  assumes inv: "origin_inv P s" and exec: "exec_action R act s = Some s'"
    and call: "\<forall>t a. act = A_Call t a \<longrightarrow> P a"
  shows "origin_inv P s'"
  using exec
proof (cases rule: exec_action_elim)
  case (create t a)
  have "P a" using inv create(1) by (rule origin_callers) simp
  then show ?thesis
    unfolding create(3) run_create_def using create(2) inv
    by (auto simp: Let_def intro!: origin_goto origin_new_listener)
next
  case (register t a w)
  have "P a" using inv register(1) by (rule origin_callers) simp
  then show ?thesis unfolding register(2) run_register_def Let_def using inv by (intro origin_goto) auto
next
  case (handoff t a w c d)
  have "P a" using inv handoff(1) by (rule origin_callers) simp
  then show ?thesis unfolding handoff(3) using inv by (intro origin_goto origin_lgoto) auto
next
  case (remove w)
  then show ?thesis
    unfolding listener_remove_def Let_def using inv by (auto intro!: origin_lgoto split: option.split)
qed (use inv call in \<open>auto simp: run_release_def listener_wait_def listener_start_def listener_finish_def
       listener_close_def listener_count_def intro!: origin_goto origin_lgoto
       dest: origin_callers origin_works\<close>)

lemma served_origin: "served R P s \<Longrightarrow> origin_inv P s"
  by (induction rule: served.induct) (auto intro: origin_init origin_step)

text \<open>A served system is one of the scheduler's, whose taskers answer the tasks of these calls.\<close>

lemma exec_action_strengthen:
  assumes "origin_inv P s" "exec_action R act s = Some s'"
  shows "exec_action (\<lambda>wrk res. R wrk res \<and> (\<exists>a. P a \<and> args_work a = wrk)) act s = Some s'"
proof (cases act)
  case (A_TaskerDone w res)
  then show ?thesis
    using assms origin_works [OF assms(1) refl, of w]
    by (auto simp: tasker_done_def split: lpc.splits if_splits)
qed (use assms in auto)

lemma served_reachable:
  "served R P s \<Longrightarrow> reachable (\<lambda>wrk res. R wrk res \<and> (\<exists>a. P a \<and> args_work a = wrk)) s"
proof (induction rule: served.induct)
  case served_init
  show ?case by (rule reach_init)
next
  case (served_step s act s')
  then show ?case
    by (auto intro: reach_step step_action exec_action_strengthen served_origin)
qed

section \<open>Answers stay with their credentials\<close>

text \<open>The calls the handlers make, for accounts without a vertical bar in their names.\<close>

definition issued :: "run_args \<Rightarrow> bool" where
  "issued a =
     ((\<exists>env conf req. parser_ok (parse_multipart env) \<and> owa_before env conf req new_writer = Call_Run a) \<and>
      CHR ''|'' \<notin> set (reqUserName (args_work a)) \<and> CHR ''|'' \<notin> set (reqUserPass (args_work a)))"

lemma issued_session:
  assumes "issued a"
  obtains u sp d r where
    "sessionID (args_work a) = makeHandlerID u sp (reqUserName (args_work a)) (reqUserPass (args_work a)) d r"
proof -
  obtain env conf req where b: "owa_before env conf req new_writer = Call_Run a"
    using assms unfolding issued_def by blast
  show ?thesis
  proof (cases rule: owa_before_cases [of env conf req new_writer])
    case (call proc user pass isSpecial cs dump a')
    with b have "a = a'" by (simp split: if_splits)
    with call(7) show ?thesis using that by (simp add: owa_args_def)
  qed (use b in simp_all)
qed

text \<open>C4: in a system whose tasks all come from the handlers, under accounts without a vertical bar in
  name and password, the answer a request gets is a wait page, a break page, or what the tasker answered to a
  task with the same identifier that was submitted by a request with the same user name and password up to
  the case of letters.\<close>

theorem answers_stay_with_credentials:
  assumes "served R issued s" "callers s t = C_Return a res"
  shows "StatusCode res = StatusWaitPage \<or> StatusCode res = StatusBreakPage \<or>
    (\<exists>a'. issued a' \<and> R (args_work a') res \<and> taskID (args_work a') = taskID (args_work a) \<and>
       to_upper (reqUserName (args_work a')) = to_upper (reqUserName (args_work a)) \<and>
       to_upper (reqUserPass (args_work a')) = to_upper (reqUserPass (args_work a)))"
proof -
  let ?R = "\<lambda>wrk res. R wrk res \<and> (\<exists>a. issued a \<and> args_work a = wrk)"
  have a: "issued a" using origin_callers [OF served_origin [OF assms(1)] assms(2)] by simp
  obtain own where "chan_inv ?R own s" using reachable_chan [OF served_reachable [OF assms(1)]] by blast
  from chan_invD(4) [OF this, of t] assms(2)
  consider "StatusCode res = StatusWaitPage" | "StatusCode res = StatusBreakPage"
    | a' where "R (args_work a') res" "issued a'" "taskID (args_work a') = taskID (args_work a)"
        "to_upper (sessionID (args_work a')) = to_upper (sessionID (args_work a))"
    by (auto simp: args_task_def args_session_def)
  then show ?thesis
  proof cases
    case 3
    obtain u sp d r where s1: "sessionID (args_work a) =
        makeHandlerID u sp (reqUserName (args_work a)) (reqUserPass (args_work a)) d r"
      using a by (rule issued_session)
    obtain u' sp' d' r' where s2: "sessionID (args_work a') =
        makeHandlerID u' sp' (reqUserName (args_work a')) (reqUserPass (args_work a')) d' r'"
      using 3(2) by (rule issued_session)
    have "sessionID (args_work a') = sessionID (args_work a)"
      using 3(4) unfolding s1 s2 by (simp add: makeHandlerID_def)
    then show ?thesis
      using 3 a same_credentials [of u' sp' _ _ d' r' u sp _ _ d r] unfolding s1 s2 issued_def by blast
  qed simp_all
qed

lemma run_actions_served:
  "served R P s \<Longrightarrow> list_all (\<lambda>act. \<forall>t a. act = A_Call t a \<longrightarrow> P a) as \<Longrightarrow>
     run_actions R as s = Some s' \<Longrightarrow> served R P s'"
proof (induction as arbitrary: s)
  case (Cons act as)
  then obtain s1 where s1: "exec_action R act s = Some s1" "run_actions R as s1 = Some s'"
    by (auto split: option.splits)
  have "served R P s1" using Cons.prems s1(1) by (auto intro: served_step)
  then show ?case using Cons s1(2) by simp
qed simp

definition answered_run :: "run_args \<Rightarrow> action list" where
  "answered_run a =
     submit 0 0 a @ [A_TaskerDone 0 ok_result, A_Listener 0, A_Listener 0, A_Caller 0, A_Caller 0]"

lemma answered_run_result:
  assumes "typeTasker a = 0"
  shows "\<exists>s. run_actions answers (answered_run a) init_sys = Some s \<and> callers s 0 = C_Return a ok_result"
  using assms by (simp add: answered_run_def run_simps)

lemma demo_issued:
  assumes "owa_before demo_env demo_conf demo_request new_writer = Call_Run a"
  shows "issued a" "typeTasker a = 0"
proof -
  have c: "credentials demo_conf (snd (parsed_request demo_env demo_request)) = Some (''scott'', ''tiger'')"
    using BasicAuth_basic_header [OF demo_header] demo_parser
    by (simp add: credentials_same) (simp add: credentials_def demo_conf_def)
  have "reqUserName (args_work a) = ''scott'' \<and> reqUserPass (args_work a) = ''tiger'' \<and> typeTasker a = 0"
  proof (cases rule: owa_before_cases [of demo_env demo_conf demo_request new_writer])
    case (call proc user pass isSpecial cs dump a')
    with assms have "a = a'" by (simp split: if_splits)
    with call(3,7) c show ?thesis by (simp add: owa_args_def demo_conf_def)
  qed (use assms in simp_all)
  then show "issued a" "typeTasker a = 0" using assms demo_parser unfolding issued_def by auto
qed

theorem answers_stay_with_credentials_witness:
  "\<exists>s a a'. served answers issued s \<and> callers s 0 = C_Return a ok_result \<and>
     issued a' \<and> answers (args_work a') ok_result \<and> taskID (args_work a') = taskID (args_work a)"
proof -
  obtain a where "owa_before demo_env demo_conf demo_request new_writer = Call_Run a"
    using owa_before_demo by blast
  note a = demo_issued [OF this]
  obtain s where s: "run_actions answers (answered_run a) init_sys = Some s" "callers s 0 = C_Return a ok_result"
    using answered_run_result [OF a(2)] by blast
  have "served answers issued s"
    by (rule run_actions_served [OF served_init _ s(1)]) (simp add: answered_run_def submit_def a(1))
  moreover from answers_stay_with_credentials [OF this s(2)]
  obtain a' where "issued a'" "answers (args_work a') ok_result" "taskID (args_work a') = taskID (args_work a)"
    by (auto simp: ok_result_def empty_result_def status_defs)
  ultimately show ?thesis using s(2) by blast
qed

end
