(* ===== verification/Multipart.thy ===== *)
theory Multipart
  imports Http
begin

text \<open>
  Multipart bodies (\<open>otasker/oraparsemultipart.go\<close>).  The reader of package
  \<open>mime/multipart\<close> is what it delivers: the parts in order, each with its name, file name, headers
  and bytes, perhaps an error while its bytes are read, and at the end of the parts the end of the body or an
  error.  Files too big for the memory that is left go to temporary files; the disk is a map from names
  to contents, on which creating, writing and removing a file may fail; whether a removal is refused depends on
  whether the file is still open.
\<close>

section \<open>Parts, disk, forms\<close>

record part =
  part_name :: string
  part_file :: string
  part_header :: multimap
  part_body :: bytes
  part_error :: "string option"

type_synonym disk = "string \<rightharpoonup> bytes"

record disk_env =
  temp_new :: "disk \<Rightarrow> string + string"        \<comment> \<open>an error or the name of a new file\<close>
  write_error :: "string \<Rightarrow> bytes \<Rightarrow> (string \<times> bytes) option"   \<comment> \<open>the error and what it left in the file\<close>
  remove_error :: "bool \<Rightarrow> string \<Rightarrow> string option"         \<comment> \<open>whether the file is open, its name\<close>

text \<open>\<open>os.Remove\<close>\<close>

definition os_Remove :: "disk_env \<Rightarrow> bool \<Rightarrow> string \<Rightarrow> disk \<Rightarrow> string option \<times> disk" where
  "os_Remove env opened name d =
     (case remove_error env opened name of Some e \<Rightarrow> (Some e, d) | None \<Rightarrow> (None, d(name := None)))"

definition io_EOF :: string where "io_EOF = ''EOF''"

text \<open>\<open>io.CopyN\<close>: the bytes copied and the error, \<open>io.EOF\<close> when the part is too short.\<close>

definition CopyN :: "part \<Rightarrow> int \<Rightarrow> bytes \<times> string option" where
  "CopyN p n =
     (if n \<le> int (length (part_body p)) then (take (nat n) (part_body p), None)
      else (part_body p, Some (case part_error p of None \<Rightarrow> io_EOF | Some e \<Rightarrow> e)))"

text \<open>The error of a copy that the code does not take for the end of the part.\<close>

definition copy_failed :: "string option \<Rightarrow> string option" where
  "copy_failed err = (case err of None \<Rightarrow> None | Some e \<Rightarrow> if e = io_EOF then None else Some e)"

fun file_append :: "(string \<times> FileHeader list) list \<Rightarrow> string \<Rightarrow> FileHeader \<Rightarrow> (string \<times> FileHeader list) list" where
  "file_append [] k fh = [(k, [fh])]"
| "file_append ((k', fhs) # fs) k fh =
     (if k' = k then (k', fhs @ [fh]) # fs else (k', fhs) # file_append fs k fh)"

definition all_files :: "Form \<Rightarrow> FileHeader list" where
  "all_files f = concat (map snd (form_File f))"

text \<open>\<open>RemoveAll\<close> removes the temporary files of a form; its result is the first error.\<close>

fun remove_file :: "disk_env \<Rightarrow> string option \<times> disk \<Rightarrow> FileHeader \<Rightarrow> string option \<times> disk" where
  "remove_file env (err, d) fh =
     (if tmpfile fh \<noteq> [] then
        let (e, d') = os_Remove env False (tmpfile fh) d in (if err = None then e else err, d')
      else (err, d))"

definition RemoveAll :: "disk_env \<Rightarrow> Form \<Rightarrow> disk \<Rightarrow> string option \<times> disk" where
  "RemoveAll env f d = foldl (remove_file env) (None, d) (all_files f)"

text \<open>\<open>Open\<close>: the bytes of a file part, from memory or from the disk.\<close>

definition Open :: "FileHeader \<Rightarrow> disk \<Rightarrow> bytes option" where
  "Open fh d = (case content fh of Some b \<Rightarrow> Some b | None \<Rightarrow> d (tmpfile fh))"

section \<open>\<open>ReadFormEx\<close>\<close>

record reading =
  rd_form :: Form
  rd_maxValue :: int
  rd_maxMemory :: int
  rd_lastArg :: string
  rd_disk :: disk

definition read_value :: "part \<Rightarrow> reading \<Rightarrow> string option \<times> reading" where
  "read_value p st =
     (let (b, err) = CopyN p (rd_maxValue st) in
      case copy_failed err of
        Some e \<Rightarrow> (Some e, st)
      | None \<Rightarrow>
          let st = st\<lparr>rd_maxValue := rd_maxValue st - int (length b)\<rparr> in
          if rd_maxValue st = 0 then (Some ''multipart: message too large'', st)
          else (None, st\<lparr>rd_form := (rd_form st)\<lparr>form_Value := vals_append (form_Value (rd_form st)) (part_name p) [b]\<rparr>,
                  rd_lastArg := (if part_name p = ''p_arg_names'' then b else rd_lastArg st)\<rparr>))"

definition add_file :: "part \<Rightarrow> FileHeader \<Rightarrow> reading \<Rightarrow> reading" where
  "add_file p fh st =
     st\<lparr>rd_form := (rd_form st)\<lparr>form_File := file_append (form_File (rd_form st)) (part_name p) fh\<rparr>\<rparr>"

definition new_header :: "part \<Rightarrow> reading \<Rightarrow> FileHeader" where
  "new_header p st =
     \<lparr>Filename = part_file p, Header = Some (part_header p), content = None, tmpfile = [],
      LastArg = rd_lastArg st\<rparr>"

text \<open>The temporary file gets what was read already and the rest of the part.  When this fails the file is
  removed, which it may not be while it is open; the error of the removal is dropped.\<close>

definition spill :: "disk_env \<Rightarrow> part \<Rightarrow> reading \<Rightarrow> string option \<times> reading" where
  "spill env p st =
     (case temp_new env (rd_disk st) of
        Inl e \<Rightarrow> (Some e, st)
      | Inr name \<Rightarrow>
          let (failed, written) =
                (case write_error env name (part_body p) of
                   Some (e, b) \<Rightarrow> (Some e, b)
                 | None \<Rightarrow> (copy_failed (part_error p), part_body p));
              d = (rd_disk st)(name \<mapsto> written) in
          (case failed of
             Some e \<Rightarrow> (Some e, st\<lparr>rd_disk := snd (os_Remove env True name d)\<rparr>)
           | None \<Rightarrow> (None, add_file p ((new_header p st)\<lparr>tmpfile := name\<rparr>) (st\<lparr>rd_disk := d\<rparr>))))"

definition read_file :: "disk_env \<Rightarrow> part \<Rightarrow> reading \<Rightarrow> string option \<times> reading" where
  "read_file env p st =
     (let (b, err) = CopyN p (rd_maxMemory st + 1) in
      case copy_failed err of
        Some e \<Rightarrow> (Some e, st)
      | None \<Rightarrow>
          if rd_maxMemory st < int (length b) then spill env p st
          else (None, add_file p ((new_header p st)\<lparr>content := Some b\<rparr>)
                        (st\<lparr>rd_maxMemory := rd_maxMemory st - int (length b)\<rparr>)))"

definition read_part :: "disk_env \<Rightarrow> part \<Rightarrow> reading \<Rightarrow> string option \<times> reading" where
  "read_part env p st =
     (if part_name p = [] then (None, st)
      else if part_file p = [] then read_value p st
      else read_file env p st)"

fun read_parts :: "disk_env \<Rightarrow> part list \<Rightarrow> string option \<Rightarrow> reading \<Rightarrow> string option \<times> reading" where
  "read_parts env [] fin st = (fin, st)"
| "read_parts env (p # ps) fin st =
     (case read_part env p st of
        (Some e, st') \<Rightarrow> (Some e, st')
      | (None, st') \<Rightarrow> read_parts env ps fin st')"

definition maxValueBytes :: int where "maxValueBytes = 10 * 2 ^ 20"

definition start_reading :: "int \<Rightarrow> disk \<Rightarrow> reading" where
  "start_reading maxMemory d =
     \<lparr>rd_form = \<lparr>form_Value = [], form_File = []\<rparr>, rd_maxValue = maxValueBytes,
      rd_maxMemory = maxMemory, rd_lastArg = [], rd_disk = d\<rparr>"

text \<open>The result and the disk afterwards; the deferred function clears the form's files on an
  error, after the files were closed, and drops the error of the removals.  \<open>fin\<close> is the error after the last part, none at the end of the body.\<close>

definition ReadFormEx :: "disk_env \<Rightarrow> part list \<Rightarrow> string option \<Rightarrow> int \<Rightarrow> disk \<Rightarrow> (string + Form) \<times> disk" where
  "ReadFormEx env ps fin maxMemory d =
     (case read_parts env ps fin (start_reading maxMemory d) of
        (None, st) \<Rightarrow> (Inr (rd_form st), rd_disk st)
      | (Some e, st) \<Rightarrow> (Inl e, snd (RemoveAll env (rd_form st) (rd_disk st))))"

section \<open>\<open>ParseMultipartFormEx\<close>\<close>

record body_env =
  parse_form :: "request \<Rightarrow> string option \<times> request"
  body_parts :: "request \<Rightarrow> string + part list \<times> string option"

definition add_values :: "multimap \<Rightarrow> multimap \<Rightarrow> multimap" where
  "add_values h vs = foldl (\<lambda>h (k, v). vals_append h k v) h vs"

definition txt_use_ReadFormEx :: string where
  "txt_use_ReadFormEx = encode_runes [0x414, 0x43B, 0x44F, 0x20, 0x440, 0x430, 0x437, 0x431, 0x43E, 0x440, 0x430, 0x20,
    0x437, 0x430, 0x43F, 0x440, 0x43E, 0x441, 0x430, 0x20, 0x43D, 0x435, 0x43E, 0x431, 0x445, 0x43E,
    0x434, 0x438, 0x43C, 0x43E, 0x20, 0x438, 0x441, 0x43F, 0x43E, 0x43B, 0x44C, 0x437, 0x43E, 0x432,
    0x430, 0x442, 0x44C, 0x20, 0x52, 0x65, 0x61, 0x64, 0x46, 0x6F, 0x72, 0x6D, 0x45, 0x78]"

definition ParseMultipartFormEx ::
    "body_env \<Rightarrow> disk_env \<Rightarrow> int \<Rightarrow> request \<Rightarrow> disk \<Rightarrow> (string + Form) \<times> request \<times> disk" where
  "ParseMultipartFormEx benv env maxMemory r d =
     (if MultipartForm r \<noteq> None then (Inl txt_use_ReadFormEx, r, d)
      else
        let (err, r) = (if ReqForm r = [] then parse_form benv r else (None, r)) in
        case err of
          Some e \<Rightarrow> (Inl e, r, d)
        | None \<Rightarrow>
            (case body_parts benv r of
               Inl e \<Rightarrow> (Inl e, r, d)
             | Inr (ps, fin) \<Rightarrow>
                 let r = r\<lparr>MultipartForm := Some \<lparr>form_Value = [], form_File = []\<rparr>\<rparr> in
                 (case ReadFormEx env ps fin maxMemory d of
                    (Inl e, d') \<Rightarrow> (Inl e, r, d')
                  | (Inr f, d') \<Rightarrow>
                      (Inr f, r\<lparr>ReqForm := add_values (ReqForm r) (form_Value f),
                                PostForm := add_values (PostForm r) (form_Value f)\<rparr>, d'))))"

text \<open>\<open>readFileItems\<close>: for each file field the argument names that stood before it.\<close>

fun file_items :: "part list \<Rightarrow> string option \<Rightarrow> int \<Rightarrow> string \<Rightarrow> multimap \<Rightarrow> string + multimap" where
  "file_items [] fin maxValue lastArg fi = (case fin of None \<Rightarrow> Inr fi | Some e \<Rightarrow> Inl e)"
| "file_items (p # ps) fin maxValue lastArg fi =
     (if part_name p = [] then file_items ps fin maxValue lastArg fi
      else if part_file p = [] then
        (let (b, err) = CopyN p maxValue in
         case copy_failed err of
           Some e \<Rightarrow> Inl e
         | None \<Rightarrow>
             if maxValue - int (length b) = 0 then Inl ''multipart: message too large''
             else file_items ps fin (maxValue - int (length b))
                    (if part_name p = ''p_arg_names'' then b else lastArg) fi)
      else file_items ps fin maxValue lastArg (vals_append fi (part_name p) [lastArg]))"

definition readFileItems :: "part list \<Rightarrow> string option \<Rightarrow> string + multimap" where
  "readFileItems ps fin = file_items ps fin maxValueBytes [] []"

definition makeFileItems :: "body_env \<Rightarrow> request \<Rightarrow> string + multimap" where
  "makeFileItems benv r =
     (case body_parts benv r of Inl e \<Rightarrow> Inl e | Inr (ps, fin) \<Rightarrow> readFileItems ps fin)"

section \<open>Facts about forms\<close>

definition files_lookup :: "(string \<times> FileHeader list) list \<Rightarrow> string \<Rightarrow> FileHeader list" where
  "files_lookup fs k = (case map_of fs k of None \<Rightarrow> [] | Some fhs \<Rightarrow> fhs)"

lemma files_lookup_append:
  "files_lookup (file_append fs k fh) k' = files_lookup fs k' @ (if k' = k then [fh] else [])"
  by (induction fs k fh rule: file_append.induct) (auto simp: files_lookup_def)

lemma set_file_append: "set (concat (map snd (file_append fs k fh))) = insert fh (set (concat (map snd fs)))"
  by (induction fs k fh rule: file_append.induct) auto

lemma sum_file_append:
  fixes g :: "FileHeader \<Rightarrow> int"
  shows "sum_list (map g (concat (map snd (file_append fs k fh)))) = sum_list (map g (concat (map snd fs))) + g fh"
  by (induction fs k fh rule: file_append.induct) auto

lemma files_lookup_subset: "set (files_lookup fs k) \<subseteq> set (concat (map snd fs))"
proof (induction fs)
  case (Cons a fs)
  then show ?case by (cases a) (auto simp: files_lookup_def)
qed (simp add: files_lookup_def)

definition values_size :: "multimap \<Rightarrow> int" where
  "values_size h = sum_list (map (\<lambda>(k, vs). sum_list (map (\<lambda>v. int (length v)) vs)) h)"

lemma values_size_Cons: "values_size ((k, vs) # h) = sum_list (map (\<lambda>v. int (length v)) vs) + values_size h"
  by (simp add: values_size_def)

lemma vals_append_Cons:
  "vals_append ((k', vs) # h) k b = (if k' = k then (k, vs @ b) # h else (k', vs) # vals_append h k b)"
  by (simp add: vals_append_def vals_lookup_def)

lemma values_size_append: "values_size (vals_append h k [b]) = values_size h + int (length b)"
proof (induction h)
  case (Cons p h)
  then show ?case by (cases p) (simp add: vals_append_Cons values_size_Cons)
qed (simp add: values_size_def vals_append_def)

definition memory_size :: "Form \<Rightarrow> int" where
  "memory_size f = sum_list (map (\<lambda>fh. case content fh of None \<Rightarrow> 0 | Some b \<Rightarrow> int (length b)) (all_files f))"

definition temp_names :: "Form \<Rightarrow> string set" where
  "temp_names f = {tmpfile fh |fh. fh \<in> set (all_files f) \<and> tmpfile fh \<noteq> []}"

text \<open>What is left: the files whose removal was refused.\<close>

lemma RemoveAll_at:
  "snd (RemoveAll env f d) n = (if n \<in> temp_names f \<and> remove_error env False n = None then None else d n)"
proof -
  have "snd (foldl (remove_file env) (err, d) fhs) n =
      (if (\<exists>fh \<in> set fhs. tmpfile fh = n \<and> n \<noteq> []) \<and> remove_error env False n = None then None else d n)"
    for fhs err
  proof (induction fhs arbitrary: err d)
    case (Cons fh fhs)
    obtain err1 d1 where one: "remove_file env (err, d) fh = (err1, d1)" by (cases "remove_file env (err, d) fh")
    then have "d1 n = (if tmpfile fh = n \<and> n \<noteq> [] \<and> remove_error env False n = None then None else d n)"
      by (auto simp: os_Remove_def split: if_splits option.splits)
    with Cons.IH [of err1 d1] one show ?case by auto
  qed simp
  moreover have "n \<in> temp_names f \<longleftrightarrow> (\<exists>fh \<in> set (all_files f). tmpfile fh = n \<and> n \<noteq> [])"
    by (auto simp: temp_names_def)
  ultimately show ?thesis by (simp add: RemoveAll_def)
qed

section \<open>The invariant of reading\<close>

text \<open>A temporary file is new: its name is not in use.\<close>

definition temp_fresh :: "disk_env \<Rightarrow> bool" where
  "temp_fresh env = (\<forall>d n. temp_new env d = Inr n \<longrightarrow> n \<noteq> [] \<and> d n = None)"

definition disk_inv :: "disk \<Rightarrow> reading \<Rightarrow> bool" where
  "disk_inv d0 st =
     ((\<forall>n. n \<notin> temp_names (rd_form st) \<longrightarrow> rd_disk st n = d0 n) \<and>
      (\<forall>n \<in> temp_names (rd_form st). d0 n = None) \<and>
      (\<forall>fh \<in> set (all_files (rd_form st)).
         (tmpfile fh \<noteq> [] \<longrightarrow> rd_disk st (tmpfile fh) \<noteq> None) \<and> (content fh = None \<longrightarrow> tmpfile fh \<noteq> [])))"

definition size_inv :: "int \<Rightarrow> reading \<Rightarrow> bool" where
  "size_inv M st =
     (memory_size (rd_form st) + rd_maxMemory st = M \<and> 0 \<le> rd_maxMemory st \<and>
      values_size (form_Value (rd_form st)) + rd_maxValue st = maxValueBytes \<and> 0 < rd_maxValue st)"

definition values_of :: "part list \<Rightarrow> string \<Rightarrow> string list" where
  "values_of ps k = map part_body (filter (\<lambda>p. part_name p = k \<and> part_file p = []) ps)"

definition files_of :: "part list \<Rightarrow> string \<Rightarrow> (string \<times> bytes option) list" where
  "files_of ps k =
     map (\<lambda>p. (part_file p, Some (part_body p))) (filter (\<lambda>p. part_name p = k \<and> part_file p \<noteq> []) ps)"

definition content_inv :: "part list \<Rightarrow> reading \<Rightarrow> bool" where
  "content_inv ps st =
     (\<forall>k. k \<noteq> [] \<longrightarrow> vals_lookup (form_Value (rd_form st)) k = values_of ps k \<and>
        map (\<lambda>fh. (Filename fh, Open fh (rd_disk st))) (files_lookup (form_File (rd_form st)) k) = files_of ps k)"

lemma CopyN_short: "CopyN p n = (b, err) \<Longrightarrow> 0 \<le> n \<Longrightarrow> int (length b) < n \<Longrightarrow> b = part_body p"
  by (auto simp: CopyN_def split: if_splits)

lemma CopyN_length: "CopyN p n = (b, err) \<Longrightarrow> 0 \<le> n \<Longrightarrow> int (length b) \<le> n"
  by (auto simp: CopyN_def split: if_splits)

lemma all_files_add [simp]:
  "set (all_files (rd_form (add_file p fh st))) = insert fh (set (all_files (rd_form st)))"
  using set_file_append [of "form_File (rd_form st)" "part_name p" fh] by (simp only: all_files_def add_file_def) simp

lemma memory_size_add [simp]:
  "memory_size (rd_form (add_file p fh st)) =
     memory_size (rd_form st) + (case content fh of None \<Rightarrow> 0 | Some b \<Rightarrow> int (length b))"
  by (simp add: memory_size_def all_files_def add_file_def sum_file_append)

lemma add_file_sel [simp]:
  "form_Value (rd_form (add_file p fh st)) = form_Value (rd_form st)"
  "form_File (rd_form (add_file p fh st)) = file_append (form_File (rd_form st)) (part_name p) fh"
  "rd_disk (add_file p fh st) = rd_disk st" "rd_maxMemory (add_file p fh st) = rd_maxMemory st"
  "rd_maxValue (add_file p fh st) = rd_maxValue st"
  by (simp_all add: add_file_def)

lemma temp_names_add:
  "temp_names (rd_form (add_file p fh st)) =
     temp_names (rd_form st) \<union> (if tmpfile fh = [] then {} else {tmpfile fh})"
  by (auto simp: temp_names_def)

lemma value_frame:
  "all_files (f\<lparr>form_Value := v\<rparr>) = all_files f" "temp_names (f\<lparr>form_Value := v\<rparr>) = temp_names f"
  "memory_size (f\<lparr>form_Value := v\<rparr>) = memory_size f"
  by (simp_all add: all_files_def temp_names_def memory_size_def)

text \<open>Reading a value.\<close>

lemma read_value_ok:
  assumes "read_value p st = (None, st')" "size_inv M st"
  shows "st' = st\<lparr>rd_maxValue := rd_maxValue st - int (length (part_body p)),
      rd_form := (rd_form st)\<lparr>form_Value := vals_append (form_Value (rd_form st)) (part_name p) [part_body p]\<rparr>,
      rd_lastArg := (if part_name p = ''p_arg_names'' then part_body p else rd_lastArg st)\<rparr>"
    "int (length (part_body p)) < rd_maxValue st"
proof -
  obtain b err where c: "CopyN p (rd_maxValue st) = (b, err)" by (cases "CopyN p (rd_maxValue st)")
  have pos: "0 < rd_maxValue st" using assms(2) by (simp add: size_inv_def)
  have ne: "rd_maxValue st - int (length b) \<noteq> 0"
    using assms(1) c by (auto simp: read_value_def Let_def split: option.splits if_splits)
  moreover have "int (length b) \<le> rd_maxValue st" using CopyN_length [OF c] pos by simp
  ultimately have less: "int (length b) < rd_maxValue st" by simp
  with CopyN_short [OF c] pos have b: "b = part_body p" by simp
  from less b show "int (length (part_body p)) < rd_maxValue st" by simp
  show "st' = st\<lparr>rd_maxValue := rd_maxValue st - int (length (part_body p)),
      rd_form := (rd_form st)\<lparr>form_Value := vals_append (form_Value (rd_form st)) (part_name p) [part_body p]\<rparr>,
      rd_lastArg := (if part_name p = ''p_arg_names'' then part_body p else rd_lastArg st)\<rparr>"
    using assms(1) c ne b by (auto simp: read_value_def Let_def split: option.splits if_splits)
qed

lemma read_value_error:
  "read_value p st = (Some e, st') \<Longrightarrow> rd_form st' = rd_form st \<and> rd_disk st' = rd_disk st"
  by (auto simp: read_value_def Let_def split: option.splits if_splits prod.splits)

text \<open>Reading a file: it stays in memory, or it is the content of a new temporary file.\<close>

text \<open>A file that was not to be had, or whose writing failed and whose removal was refused, may have left
  another file on the disk.\<close>

definition disk_left :: "disk_env \<Rightarrow> disk \<Rightarrow> disk \<Rightarrow> bool" where
  "disk_left env d d' =
     (d' = d \<or> (\<exists>n b. n \<noteq> [] \<and> d n = None \<and> remove_error env True n \<noteq> None \<and> d' = d(n \<mapsto> b)))"

lemma spill_cases:
  assumes "spill env p st = (r, st')" "temp_fresh env"
  obtains (fails) e where "r = Some e" "rd_form st' = rd_form st" "disk_left env (rd_disk st) (rd_disk st')"
  | (kept) n where "r = None" "n \<noteq> []" "rd_disk st n = None"
      "st' = add_file p ((new_header p st)\<lparr>tmpfile := n\<rparr>) (st\<lparr>rd_disk := (rd_disk st)(n \<mapsto> part_body p)\<rparr>)"
proof (cases "temp_new env (rd_disk st)")
  case (Inl e)
  with assms(1) have "r = Some e" "st' = st" by (simp_all add: spill_def)
  then show ?thesis by (intro fails) (simp_all add: disk_left_def)
next
  case (Inr n)
  then have n: "n \<noteq> []" "rd_disk st n = None" using assms(2) by (auto simp: temp_fresh_def)
  obtain failed b where fb: "(case write_error env n (part_body p) of
      Some (e, b) \<Rightarrow> (Some e, b) | None \<Rightarrow> (copy_failed (part_error p), part_body p)) = (failed, b)"
    by fastforce
  show ?thesis
  proof (cases failed)
    case None
    with fb have "b = part_body p" by (auto split: option.splits)
    with None assms(1) Inr n fb kept show ?thesis by (simp add: spill_def)
  next
    case (Some e)
    with assms(1) Inr fb have st': "r = Some e" "st' = st\<lparr>rd_disk := snd (os_Remove env True n ((rd_disk st)(n \<mapsto> b)))\<rparr>"
      by (simp_all add: spill_def)
    have "(rd_disk st)(n := None) = rd_disk st" using n(2) by (auto simp: fun_eq_iff)
    then have "disk_left env (rd_disk st) (rd_disk st')"
      using n by (cases "remove_error env True n") (auto simp: st'(2) os_Remove_def disk_left_def)
    with st' show ?thesis by (intro fails) simp_all
  qed
qed

lemma read_file_cases:
  assumes "read_file env p st = (r, st')" "temp_fresh env" "size_inv M st"
  obtains (fails) e where "r = Some e" "rd_form st' = rd_form st" "disk_left env (rd_disk st) (rd_disk st')"
  | (memory) "r = None" "int (length (part_body p)) \<le> rd_maxMemory st"
      "st' = add_file p ((new_header p st)\<lparr>content := Some (part_body p)\<rparr>)
               (st\<lparr>rd_maxMemory := rd_maxMemory st - int (length (part_body p))\<rparr>)"
  | (temp) n where "r = None" "n \<noteq> []" "rd_disk st n = None"
      "st' = add_file p ((new_header p st)\<lparr>tmpfile := n\<rparr>)
               (st\<lparr>rd_disk := (rd_disk st)(n \<mapsto> part_body p)\<rparr>)"
proof -
  obtain b err where c: "CopyN p (rd_maxMemory st + 1) = (b, err)" by (cases "CopyN p (rd_maxMemory st + 1)")
  have pos: "0 \<le> rd_maxMemory st" using assms(3) by (simp add: size_inv_def)
  show ?thesis
  proof (cases "copy_failed err")
    case (Some e)
    with assms(1) c have "r = Some e" "st' = st" by (simp_all add: read_file_def)
    then show ?thesis by (intro fails) (simp_all add: disk_left_def)
  next
    case None
    show ?thesis
    proof (cases "rd_maxMemory st < int (length b)")
      case False
      then have "b = part_body p" using CopyN_short [OF c] pos by simp
      with False None assms(1) c memory show ?thesis by (auto simp: read_file_def)
    next
      case True
      with None assms(1) c have "spill env p st = (r, st')" by (simp add: read_file_def)
      then show ?thesis using assms(2) by (cases rule: spill_cases) (use fails temp in blast)+
    qed
  qed
qed

text \<open>One part after the other.  A part that could not be read changes no form.\<close>

lemma part_failed:
  assumes "read_part env p st = (Some e, st')" "temp_fresh env" "size_inv M st"
  shows "rd_form st' = rd_form st \<and> disk_left env (rd_disk st) (rd_disk st')"
proof -
  consider "read_value p st = (Some e, st')" | "read_file env p st = (Some e, st')"
    using assms(1) by (auto simp: read_part_def split: if_splits)
  then show ?thesis
  proof cases
    case 1
    from read_value_error [OF this] show ?thesis by (simp add: disk_left_def)
  next
    case 2
    then show ?thesis using assms(2,3) by (cases rule: read_file_cases) auto
  qed
qed

text \<open>A part that was read without an error leaves one of four states.\<close>

lemma read_part_ok:
  assumes "read_part env p st = (None, st')" "temp_fresh env" "size_inv M st"
  obtains (unnamed) "part_name p = []" "st' = st"
  | (val) "part_name p \<noteq> []" "part_file p = []" "int (length (part_body p)) < rd_maxValue st"
      "st' = st\<lparr>rd_maxValue := rd_maxValue st - int (length (part_body p)),
         rd_form := (rd_form st)\<lparr>form_Value := vals_append (form_Value (rd_form st)) (part_name p) [part_body p]\<rparr>,
         rd_lastArg := (if part_name p = ''p_arg_names'' then part_body p else rd_lastArg st)\<rparr>"
  | (memory) "part_name p \<noteq> []" "part_file p \<noteq> []" "int (length (part_body p)) \<le> rd_maxMemory st"
      "st' = add_file p ((new_header p st)\<lparr>content := Some (part_body p)\<rparr>)
               (st\<lparr>rd_maxMemory := rd_maxMemory st - int (length (part_body p))\<rparr>)"
  | (temp) n where "part_name p \<noteq> []" "part_file p \<noteq> []" "n \<noteq> []" "rd_disk st n = None"
      "st' = add_file p ((new_header p st)\<lparr>tmpfile := n\<rparr>)
               (st\<lparr>rd_disk := (rd_disk st)(n \<mapsto> part_body p)\<rparr>)"
proof -
  consider "part_name p = []" "st' = st" | "part_name p \<noteq> []" "part_file p = []" "read_value p st = (None, st')"
    | "part_name p \<noteq> []" "part_file p \<noteq> []" "read_file env p st = (None, st')"
    using assms(1) by (auto simp: read_part_def split: if_splits)
  then show ?thesis
  proof cases
    case 2
    from read_value_ok [OF 2(3) assms(3)] show ?thesis using 2 val by blast
  next
    case 3
    from 3(3) assms(2,3) show ?thesis
      by (cases rule: read_file_cases) (use 3 memory temp in blast)+
  qed (rule unnamed)
qed

lemma part_disk:
  assumes "read_part env p st = (None, st')" "temp_fresh env" "size_inv M st" "disk_inv d0 st"
  shows "disk_inv d0 st'"
  using assms(1-3)
proof (cases rule: read_part_ok)
  case val
  show ?thesis using assms(4) unfolding val(4) by (simp add: disk_inv_def value_frame)
next
  case memory
  with assms(4) show ?thesis by (simp add: disk_inv_def temp_names_add new_header_def)
next
  case (temp n)
  have "tmpfile fh \<noteq> n" if "fh \<in> set (all_files (rd_form st))" for fh
    using assms(4) temp(3,4) that by (auto simp: disk_inv_def)
  moreover from this have "n \<notin> temp_names (rd_form st)" by (auto simp: temp_names_def)
  moreover have "d0 n = None" using assms(4) temp(4) calculation(2) by (simp add: disk_inv_def)
  ultimately show ?thesis
    using assms(4) temp(3,4) unfolding temp(5)
    by (auto simp: disk_inv_def temp_names_add new_header_def)
qed (use assms(4) in simp)

lemma part_size:
  assumes "read_part env p st = (None, st')" "temp_fresh env" "size_inv M st"
  shows "size_inv M st'"
  using assms
proof (cases rule: read_part_ok)
  case val
  with assms(3) show ?thesis by (simp add: size_inv_def value_frame values_size_append)
next
  case memory
  with assms(3) show ?thesis by (simp add: size_inv_def)
next
  case (temp n)
  with assms(3) show ?thesis by (simp add: size_inv_def new_header_def)
qed (use assms(3) in simp)

lemma values_of_snoc:
  "values_of (ps @ [p]) k = values_of ps k @ (if part_name p = k \<and> part_file p = [] then [part_body p] else [])"
  "files_of (ps @ [p]) k =
     files_of ps k @ (if part_name p = k \<and> part_file p \<noteq> [] then [(part_file p, Some (part_body p))] else [])"
  by (simp_all add: values_of_def files_of_def)

lemma Open_frame:
  assumes "disk_inv d0 st" "rd_disk st n = None" "fh \<in> set (all_files (rd_form st))"
  shows "Open fh ((rd_disk st)(n := x)) = Open fh (rd_disk st)"
  using assms by (auto simp: disk_inv_def Open_def split: option.split)

lemma part_content:
  assumes "read_part env p st = (None, st')" "temp_fresh env" "size_inv M st" "disk_inv d0 st"
    and c: "content_inv ps st"
  shows "content_inv (ps @ [p]) st'"
  using assms(1-3)
proof (cases rule: read_part_ok)
  case unnamed
  with c show ?thesis by (auto simp: content_inv_def values_of_snoc)
next
  case val
  with c show ?thesis by (auto simp: content_inv_def values_of_snoc)
next
  case memory
  with c show ?thesis
    by (auto simp: content_inv_def values_of_snoc files_lookup_append new_header_def Open_def)
next
  case (temp n)
  have old: "map (\<lambda>fh. (Filename fh, Open fh ((rd_disk st)(n \<mapsto> part_body p)))) (files_lookup (form_File (rd_form st)) k) =
      map (\<lambda>fh. (Filename fh, Open fh (rd_disk st))) (files_lookup (form_File (rd_form st)) k)" for k
  proof (rule map_cong [OF refl])
    fix fh assume "fh \<in> set (files_lookup (form_File (rd_form st)) k)"
    then have "fh \<in> set (all_files (rd_form st))" using files_lookup_subset unfolding all_files_def by blast
    from Open_frame [OF assms(4) temp(4) this]
    show "(Filename fh, Open fh ((rd_disk st)(n \<mapsto> part_body p))) = (Filename fh, Open fh (rd_disk st))" by simp
  qed
  from c temp show ?thesis
    by (auto simp: content_inv_def values_of_snoc files_lookup_append new_header_def old) (simp_all add: Open_def)
qed

lemma read_parts_failed:
  assumes "read_parts env ps fin st = (Some e, st')" "temp_fresh env" "size_inv M st" "disk_inv d0 st"
  shows "\<exists>st1. disk_inv d0 st1 \<and> rd_form st' = rd_form st1 \<and> disk_left env (rd_disk st1) (rd_disk st')"
  using assms
proof (induction ps arbitrary: st)
  case Nil
  then have "st' = st" by simp
  with Nil(4) show ?case by (intro exI [of _ st]) (simp add: disk_left_def)
next
  case (Cons p ps)
  obtain r1 st1 where p: "read_part env p st = (r1, st1)" by (cases "read_part env p st")
  show ?case
  proof (cases r1)
    case None
    with p have p: "read_part env p st = (None, st1)" by simp
    with Cons.prems(1) have "read_parts env ps fin st1 = (Some e, st')" by simp
    from Cons.IH [OF this Cons.prems(2) part_size [OF p Cons.prems(2,3)] part_disk [OF p Cons.prems(2-4)]]
    show ?thesis .
  next
    case (Some e1)
    with p Cons.prems(1) have "read_part env p st = (Some e1, st')" by simp
    from part_failed [OF this Cons.prems(2,3)] Cons.prems(4) show ?thesis by blast
  qed
qed

lemma read_parts_ok:
  assumes "read_parts env ps fin st = (None, st')" "temp_fresh env" "size_inv M st" "disk_inv d0 st" "content_inv qs st"
  shows "size_inv M st' \<and> content_inv (qs @ ps) st'"
  using assms
proof (induction ps arbitrary: st qs)
  case (Cons p ps)
  obtain st1 where p: "read_part env p st = (None, st1)" "read_parts env ps fin st1 = (None, st')"
    using Cons.prems(1) by (auto split: prod.splits option.splits)
  have "size_inv M st1" "disk_inv d0 st1" "content_inv (qs @ [p]) st1"
    using p(1) Cons.prems part_size part_disk part_content by blast+
  from Cons.IH [OF p(2) Cons.prems(2) this] show ?case by simp
qed simp

lemma start_invs:
  "0 \<le> M \<Longrightarrow> size_inv M (start_reading M d)" "disk_inv d (start_reading M d)" "content_inv [] (start_reading M d)"
  by (simp_all add: size_inv_def disk_inv_def content_inv_def start_reading_def memory_size_def all_files_def
      values_size_def maxValueBytes_def temp_names_def files_lookup_def values_of_def files_of_def)

text \<open>C15: a form that is read to its end holds, under every field name, the values and the files
  of the parts with that name, in their order, each file with its name and all its bytes, in memory or on
  disk; the files kept in memory take at most the memory allowed, the values less than ten megabytes.\<close>

theorem ReadFormEx_complete:
  assumes "temp_fresh env" "0 \<le> maxMemory" "ReadFormEx env ps fin maxMemory d = (Inr f, d')"
  shows "(k \<noteq> [] \<longrightarrow> vals_lookup (form_Value f) k = values_of ps k \<and>
      map (\<lambda>fh. (Filename fh, Open fh d')) (files_lookup (form_File f) k) = files_of ps k) \<and>
    memory_size f \<le> maxMemory \<and> values_size (form_Value f) < maxValueBytes"
proof -
  obtain st where st: "read_parts env ps fin (start_reading maxMemory d) = (None, st)" "f = rd_form st" "d' = rd_disk st"
    using assms(3) by (auto simp: ReadFormEx_def split: prod.splits option.splits)
  have "size_inv maxMemory st \<and> content_inv ([] @ ps) st"
    by (rule read_parts_ok [OF st(1) assms(1)]) (rule start_invs(1) [OF assms(2)] start_invs(2,3))+
  then show ?thesis by (auto simp: st size_inv_def content_inv_def)
qed

text \<open>C16: when reading fails, at whatever part and for whatever reason, the disk differs from what it was
  at most in new files whose removal the system refused; when it refuses none, the disk is as it was.  When it
  refuses to remove open files only, as Windows does, at most one file is left: the one whose writing failed.\<close>

theorem ReadFormEx_cleanup:
  assumes "temp_fresh env" "0 \<le> maxMemory" "ReadFormEx env ps fin maxMemory d = (Inl e, d')"
  shows "(\<forall>n. d' n \<noteq> d n \<longrightarrow> d n = None \<and> (\<exists>opened. remove_error env opened n \<noteq> None)) \<and>
    ((\<forall>n opened. remove_error env opened n = None) \<longrightarrow> d' = d) \<and>
    ((\<forall>n. remove_error env False n = None) \<longrightarrow> disk_left env d d')"
proof -
  obtain st where st: "read_parts env ps fin (start_reading maxMemory d) = (Some e, st)"
      "d' = snd (RemoveAll env (rd_form st) (rd_disk st))"
    using assms(3) by (auto simp: ReadFormEx_def split: prod.splits option.splits)
  obtain st1 where st1: "disk_inv d st1" "rd_form st = rd_form st1" "disk_left env (rd_disk st1) (rd_disk st)"
    using read_parts_failed [OF st(1) assms(1) start_invs(1) [OF assms(2)] start_invs(2)] by blast
  have at: "d' n = (if n \<in> temp_names (rd_form st1) \<and> remove_error env False n = None then None else rd_disk st n)" for n
    unfolding st(2) st1(2) by (rule RemoveAll_at)
  have clean: "(if n \<in> temp_names (rd_form st1) \<and> remove_error env False n = None then None else rd_disk st1 n) = d n"
    if "remove_error env False n = None" for n
    using st1(1) that by (auto simp: disk_inv_def)
  have first: "d' n \<noteq> d n \<longrightarrow> d n = None \<and> (\<exists>opened. remove_error env opened n \<noteq> None)" for n
    using st1(1,3) at [of n] by (auto simp: disk_inv_def disk_left_def split: if_splits) blast+
  moreover have "disk_left env d d'" if none: "\<forall>n. remove_error env False n = None"
    using st1(3) unfolding disk_left_def
  proof
    assume same: "rd_disk st = rd_disk st1"
    have "d' n = d n" for n using at [of n] clean [OF none [rule_format], of n] unfolding same by (rule trans)
    then have "d' = d" by (rule ext)
    then show "d' = d \<or> (\<exists>n b. n \<noteq> [] \<and> d n = None \<and> remove_error env True n \<noteq> None \<and> d' = d(n \<mapsto> b))" ..
  next
    assume "\<exists>n b. n \<noteq> [] \<and> rd_disk st1 n = None \<and> remove_error env True n \<noteq> None \<and> rd_disk st = (rd_disk st1)(n \<mapsto> b)"
    then obtain n b where n: "n \<noteq> []" "rd_disk st1 n = None" "remove_error env True n \<noteq> None"
      "rd_disk st = (rd_disk st1)(n \<mapsto> b)" by blast
    have "n \<notin> temp_names (rd_form st1)" using st1(1) n(2) by (auto simp: disk_inv_def temp_names_def)
    moreover from this have "d n = None" using st1(1) n(2) by (simp add: disk_inv_def)
    moreover have "d' k = (d(n \<mapsto> b)) k" for k
      using at [of k] clean [of k] none n(4) calculation by (cases "k = n") auto
    ultimately have "d n = None" "d' = d(n \<mapsto> b)" by (auto simp: fun_eq_iff)
    with n show "d' = d \<or> (\<exists>n b. n \<noteq> [] \<and> d n = None \<and> remove_error env True n \<noteq> None \<and> d' = d(n \<mapsto> b))" by blast
  qed
  moreover have "d' = d" if "\<forall>n opened. remove_error env opened n = None"
  proof
    show "d' n = d n" for n using first [of n] that by auto
  qed
  ultimately show ?thesis by blast
qed

section \<open>A body with two files\<close>

text \<open>A disk on which a file of the form \<open>t...t\<close> can be made unless it is full.\<close>

definition small_disk :: disk_env where
  "small_disk =
     \<lparr>temp_new = (\<lambda>d. if d ''t'' = None then Inr ''t'' else Inl ''full''), write_error = (\<lambda>_ _. None),
      remove_error = (\<lambda>_ _. None)\<rparr>"

lemma small_disk_fresh: "temp_fresh small_disk"
  by (simp add: temp_fresh_def small_disk_def)

definition file_part :: "string \<Rightarrow> bytes \<Rightarrow> part" where
  "file_part name b =
     \<lparr>part_name = ''f'', part_file = name, part_header = [], part_body = b, part_error = None\<rparr>"

lemma small_disk_reads:
  "ReadFormEx small_disk [file_part ''a'' ''12'', file_part ''b'' ''3456''] None 3 Map.empty =
     (Inr \<lparr>form_Value = [], form_File =
        [(''f'', [\<lparr>Filename = ''a'', Header = Some [], content = Some ''12'', tmpfile = [], LastArg = []\<rparr>,
                \<lparr>Filename = ''b'', Header = Some [], content = None, tmpfile = ''t'', LastArg = []\<rparr>])]\<rparr>,
      [''t'' \<mapsto> ''3456''])"
  by (simp add: ReadFormEx_def start_reading_def read_part_def read_file_def file_part_def CopyN_def
      copy_failed_def io_EOF_def add_file_def new_header_def spill_def small_disk_def Let_def)

theorem ReadFormEx_complete_witness:
  "files_of [file_part ''a'' ''12'', file_part ''b'' ''3456''] ''f'' = [(''a'', Some ''12''), (''b'', Some ''3456'')]"
  using ReadFormEx_complete [OF small_disk_fresh _ small_disk_reads, of "''f''"]
  by (simp add: files_lookup_def Open_def)

lemma small_disk_fails:
  "\<exists>d. ReadFormEx small_disk [file_part ''a'' ''1234'', file_part ''b'' ''3456''] None 3 Map.empty = (Inl ''full'', d)"
  by (simp add: ReadFormEx_def start_reading_def read_part_def read_file_def file_part_def CopyN_def
      copy_failed_def io_EOF_def add_file_def new_header_def spill_def small_disk_def Let_def)

theorem ReadFormEx_cleanup_witness:
  "ReadFormEx small_disk [file_part ''a'' ''1234'', file_part ''b'' ''3456''] None 3 Map.empty =
     (Inl ''full'', Map.empty)"
proof -
  obtain d where d: "ReadFormEx small_disk [file_part ''a'' ''1234'', file_part ''b'' ''3456''] None 3 Map.empty =
      (Inl ''full'', d)"
    using small_disk_fails by blast
  with ReadFormEx_cleanup [OF small_disk_fresh _ d] show ?thesis by (simp add: small_disk_def)
qed

end
