(* ===== verification/Ntlm.thy ===== *)
theory Ntlm
  imports Http
begin

text \<open>
  NTLM authentication by connection (\<open>auth/ntlm/ntlm_windows_amd64.go\<close>): a map from connections
  (remote addresses) to contexts.  The security package of the operating system is a record of parameters over
  its contexts \<open>'c\<close>; the pool of recycled contexts only leaves an old user name behind, which the
  model keeps by giving each new context an arbitrary one.  On Linux (\<open>ntlm_linux.go\<close>) every
  operation is an error.
\<close>

section \<open>Contexts\<close>

record 'c sspi =
  acquire :: "string option"                                \<comment> \<open>the error of acquiring credentials\<close>
  new_server :: "bytes \<Rightarrow> string + 'c \<times> bytes"
  sc_update :: "'c \<Rightarrow> bytes \<Rightarrow> string option \<times> 'c"
  impersonate :: "'c \<Rightarrow> string option"
  user_name :: "'c \<Rightarrow> string + string"

record 'c ctx =
  secctx :: 'c
  ctxUser :: string
  authenticated :: bool
  expiried :: time

record 'c contexts =
  ctxs :: "string \<rightharpoonup> 'c ctx"
  serverCreds :: bool
  ctxCounter :: int

definition no_contexts :: "'c contexts" where
  "no_contexts = \<lparr>ctxs = Map.empty, serverCreds = False, ctxCounter = 0\<rparr>"

definition ctx_init :: "'c sspi \<Rightarrow> 'c contexts \<Rightarrow> string option \<times> 'c contexts" where
  "ctx_init os c =
     (if serverCreds c then (None, c)
      else case acquire os of
             Some e \<Rightarrow> (Some e, c)
           | None \<Rightarrow> (None, c\<lparr>serverCreds := True\<rparr>))"

definition lifetime :: time where "lifetime = 30 * Second"

definition Exists :: "'c sspi \<Rightarrow> string \<Rightarrow> 'c contexts \<Rightarrow> (string + bool) \<times> 'c contexts" where
  "Exists os connId c =
     (case ctx_init os c of
        (Some e, c) \<Rightarrow> (Inl e, c)
      | (None, c) \<Rightarrow> (Inr (ctxs c connId \<noteq> None), c))"

text \<open>\<open>old\<close> is the user name a recycled context still has.\<close>

definition NewContext :: "'c sspi \<Rightarrow> time \<Rightarrow> string \<Rightarrow> string \<Rightarrow> bytes \<Rightarrow> 'c contexts \<Rightarrow> (string + string) \<times> 'c contexts" where
  "NewContext os now old connId negotiate c =
     (case ctx_init os c of
        (Some e, c) \<Rightarrow> (Inl e, c)
      | (None, c) \<Rightarrow>
          (case new_server os negotiate of
             Inl e \<Rightarrow> (Inl e, c)
           | Inr (s, ch) \<Rightarrow>
               (Inr (b64_encode ch),
                c\<lparr>ctxs := (ctxs c)(connId \<mapsto>
                    \<lparr>secctx = s, ctxUser = old, authenticated = False, expiried = now + lifetime\<rparr>),
                  ctxCounter := ctxCounter c + 1\<rparr>)))"

definition no_context_error :: string where
  "no_context_error = encode_runes [0x418, 0x43D, 0x438, 0x446, 0x438, 0x430, 0x43B, 0x438, 0x437, 0x438, 0x440, 0x43E,
    0x432, 0x430, 0x43D, 0x43D, 0x44B, 0x439, 0x20, 0x43A, 0x43E, 0x43D, 0x442, 0x435, 0x43A, 0x441,
    0x442, 0x20, 0x43E, 0x442, 0x441, 0x443, 0x442, 0x441, 0x442, 0x432, 0x443, 0x435, 0x442]"

definition Authenticate :: "'c sspi \<Rightarrow> time \<Rightarrow> string \<Rightarrow> bytes \<Rightarrow> 'c contexts \<Rightarrow> (string + string) \<times> 'c contexts" where
  "Authenticate os now connId msg c =
     (case ctx_init os c of
        (Some e, c) \<Rightarrow> (Inl e, c)
      | (None, c) \<Rightarrow>
          (case ctxs c connId of
             None \<Rightarrow> (Inl no_context_error, c)
           | Some cn \<Rightarrow>
               (case sc_update os (secctx cn) msg of
                  (Some e, s) \<Rightarrow> (Inl e, c\<lparr>ctxs := (ctxs c)(connId \<mapsto> cn\<lparr>secctx := s\<rparr>)\<rparr>)
                | (None, s) \<Rightarrow>
                    let cn = cn\<lparr>secctx := s\<rparr>; c' = c\<lparr>ctxs := (ctxs c)(connId \<mapsto> cn)\<rparr> in
                    (case impersonate os s of
                       Some e \<Rightarrow> (Inl e, c')
                     | None \<Rightarrow>
                         (case user_name os s of
                            Inl e \<Rightarrow> (Inl e, c')
                          | Inr un \<Rightarrow>
                              (Inr un, c\<lparr>ctxs := (ctxs c)(connId \<mapsto>
                                 cn\<lparr>ctxUser := un, expiried := now + lifetime, authenticated := True\<rparr>)\<rparr>))))))"

definition Authenticated :: "'c sspi \<Rightarrow> time \<Rightarrow> string \<Rightarrow> 'c contexts \<Rightarrow> (string + string \<times> bool) \<times> 'c contexts" where
  "Authenticated os now connId c =
     (case ctx_init os c of
        (Some e, c) \<Rightarrow> (Inl e, c)
      | (None, c) \<Rightarrow>
          (case ctxs c connId of
             None \<Rightarrow> (Inr ([], False), c)
           | Some cn \<Rightarrow>
               (Inr (ctxUser cn, authenticated cn),
                c\<lparr>ctxs := (ctxs c)(connId \<mapsto> cn\<lparr>expiried := now + lifetime\<rparr>)\<rparr>)))"

text \<open>\<open>cleanup\<close> drops the contexts that have expired.\<close>

definition expired_at :: "time \<Rightarrow> 'c contexts \<Rightarrow> string \<Rightarrow> bool" where
  "expired_at now c k = (case ctxs c k of None \<Rightarrow> False | Some cn \<Rightarrow> expiried cn - now < 0)"

definition cleanup :: "time \<Rightarrow> string list \<Rightarrow> 'c contexts \<Rightarrow> 'c contexts" where
  "cleanup now keys c =
     (let forClean = filter (expired_at now c) keys
      in c\<lparr>ctxs := (\<lambda>k. if k \<in> set forClean then None else ctxs c k),
           ctxCounter := ctxCounter c - int (length forClean)\<rparr>)"

section \<open>Who is authenticated\<close>

datatype ntlm_op =
    Op_Exists string
  | Op_New time string string bytes
  | Op_Authenticate time string bytes
  | Op_Query time string
  | Op_Cleanup time "string list"

fun ntlm_step :: "'c sspi \<Rightarrow> ntlm_op \<Rightarrow> 'c contexts \<Rightarrow> 'c contexts" where
  "ntlm_step os (Op_Exists k) c = snd (Exists os k c)"
| "ntlm_step os (Op_New now old k b) c = snd (NewContext os now old k b c)"
| "ntlm_step os (Op_Authenticate now k b) c = snd (Authenticate os now k b c)"
| "ntlm_step os (Op_Query now k) c = snd (Authenticated os now k c)"
| "ntlm_step os (Op_Cleanup now ks) c = cleanup now ks c"

definition ntlm_run :: "'c sspi \<Rightarrow> ntlm_op list \<Rightarrow> 'c contexts" where
  "ntlm_run os ops = foldl (\<lambda>c op. ntlm_step os op c) no_contexts ops"

lemma ntlm_run_snoc: "ntlm_run os (ops @ [op]) = ntlm_step os op (ntlm_run os ops)"
  by (simp add: ntlm_run_def)

lemma ctx_init_ctxs: "ctx_init os c = (e, c') \<Longrightarrow> ctxs c' = ctxs c"
  by (auto simp: ctx_init_def split: if_splits option.splits)

text \<open>A step makes a context authenticated only by a successful \<open>Authenticate\<close> of its
  connection; any other step keeps the name, takes the mark or the context away, or leaves both.\<close>

lemma step_authenticated:
  assumes "ctxs (ntlm_step os op c) k = Some cn" "authenticated cn"
  shows "(\<exists>now msg. op = Op_Authenticate now k msg \<and> fst (Authenticate os now k msg c) = Inr (ctxUser cn)) \<or>
     (\<exists>cn0. ctxs c k = Some cn0 \<and> authenticated cn0 \<and> ctxUser cn0 = ctxUser cn)"
proof -
  obtain e c1 where i: "ctx_init os c = (e, c1)" by (cases "ctx_init os c")
  have c1: "ctxs c1 = ctxs c" using ctx_init_ctxs [OF i] .
  show ?thesis
proof (cases op)
  case (Op_Exists k')
  then show ?thesis using assms i c1 by (auto simp: Exists_def split: option.splits)
next
  case (Op_New now old k' b)
  then show ?thesis using assms i c1
    by (auto simp: NewContext_def split: option.splits sum.splits if_splits)
next
  case (Op_Authenticate now k' msg)
  show ?thesis
  proof (cases "ctxs c k'")
    case None
    then show ?thesis using assms Op_Authenticate i c1
      by (auto simp: Authenticate_def split: option.splits)
  next
    case (Some cn0)
    obtain u s where u: "sc_update os (secctx cn0) msg = (u, s)" by (cases "sc_update os (secctx cn0) msg")
    show ?thesis using assms Op_Authenticate i c1 Some u
      by (cases "k' = k")
         (auto simp: Authenticate_def Let_def split: option.splits sum.splits if_splits)
  qed
next
  case (Op_Query now k')
  then show ?thesis using assms i c1 by (auto simp: Authenticated_def split: option.splits if_splits)
next
  case (Op_Cleanup now ks)
  then show ?thesis using assms by (auto simp: cleanup_def Let_def split: if_splits)
qed
qed

text \<open>C17: a connection counts as authenticated under a name only when the operating system accepted an
  authentication message of this very connection and gave this name.\<close>

theorem authenticated_by_os:
  assumes "fst (Authenticated os now k (ntlm_run os ops)) = Inr (u, True)"
  shows "\<exists>ops1 t msg ops2. ops = ops1 @ Op_Authenticate t k msg # ops2 \<and>
     fst (Authenticate os t k msg (ntlm_run os ops1)) = Inr u"
proof -
  obtain e c1 where i: "ctx_init os (ntlm_run os ops) = (e, c1)" by (cases "ctx_init os (ntlm_run os ops)")
  have "ctxs c1 = ctxs (ntlm_run os ops)" using ctx_init_ctxs [OF i] .
  with assms i obtain cn where "ctxs (ntlm_run os ops) k = Some cn" "authenticated cn" "ctxUser cn = u"
    by (auto simp: Authenticated_def split: option.splits)
  then show ?thesis
  proof (induction ops arbitrary: cn rule: rev_induct)
    case Nil
    then show ?case by (simp add: ntlm_run_def no_contexts_def)
  next
    case (snoc op ops)
    from step_authenticated [of os op "ntlm_run os ops" k cn] snoc.prems
    consider t msg where "op = Op_Authenticate t k msg" "fst (Authenticate os t k msg (ntlm_run os ops)) = Inr u"
      | cn0 where "ctxs (ntlm_run os ops) k = Some cn0" "authenticated cn0" "ctxUser cn0 = u"
      by (auto simp: ntlm_run_snoc)
    then show ?case
    proof cases
      case 1
      then show ?thesis by blast
    next
      case 2
      from snoc.IH [OF this] obtain ops1 t msg ops2 where
        "ops = ops1 @ Op_Authenticate t k msg # ops2" "fst (Authenticate os t k msg (ntlm_run os ops1)) = Inr u"
        by blast
      then show ?thesis by (intro exI [of _ ops1] exI [of _ t] exI [of _ msg] exI [of _ "ops2 @ [op]"]) simp
    qed
  qed
qed

text \<open>An operating system that takes the message for the name.\<close>

definition toy_sspi :: "bytes sspi" where
  "toy_sspi =
     \<lparr>acquire = None, new_server = (\<lambda>b. Inr (b, ''ch'')), sc_update = (\<lambda>s b. (None, b)),
      impersonate = (\<lambda>_. None), user_name = Inr\<rparr>"

definition toy_ops :: "ntlm_op list" where
  "toy_ops = [Op_New 0 [] ''1.2.3.4:5'' ''n'', Op_Authenticate 1 ''1.2.3.4:5'' ''ann'']"

theorem authenticated_by_os_witness:
  "\<exists>ops1 t msg ops2. toy_ops = ops1 @ Op_Authenticate t ''1.2.3.4:5'' msg # ops2"
proof -
  have "fst (Authenticated toy_sspi 2 ''1.2.3.4:5'' (ntlm_run toy_sspi toy_ops)) = Inr (''ann'', True)"
    by (simp add: ntlm_run_def toy_ops_def toy_sspi_def NewContext_def Authenticate_def Authenticated_def
        ctx_init_def no_contexts_def Let_def)
  from authenticated_by_os [OF this] show ?thesis by blast
qed

text \<open>The number of contexts is counted wrongly when a connection starts again: the counter grows, the
  map does not.\<close>

lemma restarted_context_counts_twice:
  "ctxCounter (ntlm_run toy_sspi [Op_New 0 [] ''a'' [], Op_New 0 [] ''a'' []]) = 2"
  "dom (ctxs (ntlm_run toy_sspi [Op_New 0 [] ''a'' [], Op_New 0 [] ''a'' []])) = {''a''}"
  by (simp_all add: ntlm_run_def toy_sspi_def NewContext_def ctx_init_def no_contexts_def)

end
