(* ===== verification/Auth.thy ===== *)
theory Auth
  imports Ntlm Users
begin

text \<open>
  The authenticator (\<open>auth.go\<close>): a handler that identifies the user, tells the handler behind
  it by headers of the request whom to log on as, and calls it.  Its three kinds are no authentication,
  basic authentication and NTLM.  The result is a response, or the request and writer the next handler
  gets.
\<close>

section \<open>The handler\<close>

datatype auth_outcome = Auth_Respond writer | Auth_Next request writer

record auth_conf =
  authType :: int
  authRealm :: string
  a_defUserName :: string
  a_defUserPass :: string
  a_NTLMUserName :: string
  a_NTLMUserPass :: string
  a_grps :: "int \<rightharpoonup> string"

record 'c auth_env =
  a_sspi :: "'c sspi"
  a_now :: time
  a_old :: string                     \<comment> \<open>the name left in a recycled context\<close>
  a_partial :: "string \<Rightarrow> bytes"    \<comment> \<open>what the decoder has read of a malformed payload\<close>
  a_cs :: string
  a_users :: users_state

definition http_error :: "string \<Rightarrow> int \<Rightarrow> writer \<Rightarrow> writer" where
  "http_error msg code w =
     Write (msg @ [LF])
       (WriteHeader code
         (w_set ''X-Content-Type-Options'' ''nosniff''
           (w_set ''Content-Type'' ''text/plain; charset=utf-8'' w)))"

definition StatusInternalServerError :: int where "StatusInternalServerError = 500"

definition initiateNTLM :: "writer \<Rightarrow> writer" where
  "initiateNTLM w = http_error ''Authorization required'' StatusUnauthorized (w_set ''WWW-Authenticate'' ''NTLM'' w)"

definition not_authorized :: "writer \<Rightarrow> writer" where
  "not_authorized w = Write ''Unauthorized'' (WriteHeader StatusUnauthorized w)"

definition req_add :: "string \<Rightarrow> string \<Rightarrow> request \<Rightarrow> request" where
  "req_add k v r = r\<lparr>ReqHeader := header_add (ReqHeader r) k v\<rparr>"

definition bool_text :: "bool \<Rightarrow> string" where
  "bool_text b = (if b then ''true'' else ''false'')"

definition login_headers :: "string \<Rightarrow> string \<Rightarrow> string \<Rightarrow> request \<Rightarrow> request" where
  "login_headers auth user pass r =
     req_add ''X-LoginPassword'' pass (req_add ''X-LoginUserName'' user (req_add ''X-AuthUserName'' auth r))"

definition connect_headers :: "string \<Rightarrow> bool \<Rightarrow> request \<Rightarrow> request" where
  "connect_headers cs many r = req_add ''X-LoginMany'' (bool_text many) (req_add ''X-LoginConnectionString'' cs r)"

definition auth_none :: "'c auth_env \<Rightarrow> auth_conf \<Rightarrow> request \<Rightarrow> writer \<Rightarrow> auth_outcome" where
  "auth_none env conf r w =
     (let r = login_headers (a_defUserName conf) (a_defUserName conf) (a_defUserPass conf) r;
          (isSpecial, cs) = getConnectionParams (a_cs env) (a_users env) (a_defUserName conf) (a_grps conf)
      in if cs = [] then Auth_Respond (not_authorized w)
         else Auth_Next (connect_headers cs isSpecial r) w)"

definition auth_basic :: "'c auth_env \<Rightarrow> auth_conf \<Rightarrow> request \<Rightarrow> writer \<Rightarrow> auth_outcome" where
  "auth_basic env conf r w =
     (let realm = ''Basic realm=\"'' @ Host r @ authRealm conf @ ''\"'' in
      case BasicAuth r of
        None \<Rightarrow> Auth_Respond (not_authorized (w_set ''WWW-Authenticate'' realm w))
      | Some (user, pass) \<Rightarrow>
          let r = login_headers user user pass r;
              (isSpecial, cs) = getConnectionParams (a_cs env) (a_users env) user (a_grps conf)
          in if cs = [] then Auth_Respond (not_authorized (w_set ''WWW-Authenticate'' realm w))
             else Auth_Next (connect_headers cs isSpecial r)
                    (w_set ''Persistent-Auth'' ''true'' (w_set ''Connection'' ''keep-alive'' w)))"

text \<open>The NTLM handshake: the user of the connection, or a response.\<close>

definition ntlm_payload :: "'c auth_env \<Rightarrow> string \<Rightarrow> bytes" where
  "ntlm_payload env s = (case b64_decode s of Some b \<Rightarrow> b | None \<Rightarrow> a_partial env s)"

definition ntlm_finish :: "'c auth_env \<Rightarrow> string \<Rightarrow> bytes \<Rightarrow> writer \<Rightarrow> 'c contexts \<Rightarrow> (writer + string) \<times> 'c contexts" where
  "ntlm_finish env addr payload w c =
     (case Authenticate (a_sspi env) (a_now env) addr payload c of
        (Inl e, c) \<Rightarrow> (Inl (http_error e StatusUnauthorized w), c)
      | (Inr u, c) \<Rightarrow> (if u = [] then Inl (initiateNTLM w) else Inr u, c))"

definition ntlm_challenge :: "'c auth_env \<Rightarrow> string \<Rightarrow> bytes \<Rightarrow> writer \<Rightarrow> 'c contexts \<Rightarrow> (writer + string) \<times> 'c contexts" where
  "ntlm_challenge env addr payload w c =
     (case NewContext (a_sspi env) (a_now env) (a_old env) addr payload c of
        (Inl e, c) \<Rightarrow> (Inl (http_error (''NTLM error: '' @ e) StatusInternalServerError w), c)
      | (Inr ch, c) \<Rightarrow>
          if ch \<noteq> []
          then (Inl (http_error ''Respond to challenge'' StatusUnauthorized
                  (w_set ''WWW-Authenticate'' (''NTLM '' @ ch) w)), c)
          else ntlm_finish env addr payload w c)"

definition ntlm_handshake :: "'c auth_env \<Rightarrow> request \<Rightarrow> writer \<Rightarrow> 'c contexts \<Rightarrow> (writer + string) \<times> 'c contexts" where
  "ntlm_handshake env r w c =
     (let auth = req_header r ''Authorization'' in
      case first_index (CHR '' '') auth of
        None \<Rightarrow> (Inl (initiateNTLM w), c)
      | Some i \<Rightarrow>
          if take i auth \<noteq> ''NTLM'' then (Inl (initiateNTLM w), c)
          else
            let payload = ntlm_payload env (drop (i + 1) auth) in
            (case Exists (a_sspi env) (RemoteAddr r) c of
               (Inl e, c) \<Rightarrow> (Inl (http_error (''NTLM error: '' @ e) StatusInternalServerError w), c)
             | (Inr False, c) \<Rightarrow> ntlm_challenge env (RemoteAddr r) payload w c
             | (Inr True, c) \<Rightarrow> ntlm_finish env (RemoteAddr r) payload w c))"

definition ntlm_user :: "'c auth_env \<Rightarrow> request \<Rightarrow> writer \<Rightarrow> 'c contexts \<Rightarrow> (writer + string) \<times> 'c contexts" where
  "ntlm_user env r w c =
     (case Authenticated (a_sspi env) (a_now env) (RemoteAddr r) c of
        (Inl e, c) \<Rightarrow> (Inl (http_error (''NTLM error: '' @ e) StatusInternalServerError w), c)
      | (Inr (u, True), c) \<Rightarrow> (Inr u, c)
      | (Inr (u, False), c) \<Rightarrow> ntlm_handshake env r w c)"

text \<open>The name without its domain: the piece after the first backslash.\<close>

definition account_name :: "string \<Rightarrow> string" where
  "account_name u = (let names = str_split u [CHR 0x5C] in if 1 < length names then names ! 1 else u)"

definition auth_ntlm :: "'c auth_env \<Rightarrow> auth_conf \<Rightarrow> request \<Rightarrow> writer \<Rightarrow> 'c contexts \<Rightarrow> auth_outcome \<times> 'c contexts" where
  "auth_ntlm env conf r w c =
     (case ntlm_user env r w c of
        (Inl w', c) \<Rightarrow> (Auth_Respond w', c)
      | (Inr u, c) \<Rightarrow>
          let user = account_name u;
              r' = login_headers user (a_NTLMUserName conf) (a_NTLMUserPass conf) r;
              (isSpecial, cs) = getConnectionParams (a_cs env) (a_users env) user (a_grps conf)
          in if cs = []
             then (Auth_Respond (not_authorized
                    (w_set ''WWW-Authenticate'' (''NTLM realm=\"'' @ Host r @ authRealm conf @ ''\"'') w)), c)
             else (Auth_Next (connect_headers cs isSpecial r') w, c))"

text \<open>A kind that does not exist answers nothing.\<close>

definition Authenticator :: "'c auth_env \<Rightarrow> auth_conf \<Rightarrow> request \<Rightarrow> writer \<Rightarrow> 'c contexts \<Rightarrow> auth_outcome \<times> 'c contexts" where
  "Authenticator env conf r w c =
     (if authType conf = 0 then (auth_none env conf r w, c)
      else if authType conf = 1 then (auth_basic env conf r w, c)
      else if authType conf = 2 then auth_ntlm env conf r w c
      else (Auth_Respond w, c))"

section \<open>What the next handler is told\<close>

lemma canonical_auth_keys:
  "CanonicalHeaderKey ''X-AuthUserName'' = ''X-Authusername''"
  "CanonicalHeaderKey ''X-LoginUserName'' = ''X-Loginusername''"
  "CanonicalHeaderKey ''X-LoginPassword'' = ''X-Loginpassword''"
  "CanonicalHeaderKey ''X-LoginConnectionString'' = ''X-Loginconnectionstring''"
  "CanonicalHeaderKey ''X-LoginMany'' = ''X-Loginmany''"
  by code_simp+

lemma auth_header_values:
  "vals_lookup (ReqHeader (connect_headers cs many (login_headers auth user pass r))) ''X-Loginusername'' =
     vals_lookup (ReqHeader r) ''X-Loginusername'' @ [user]"
  "vals_lookup (ReqHeader (connect_headers cs many (login_headers auth user pass r))) ''X-Authusername'' =
     vals_lookup (ReqHeader r) ''X-Authusername'' @ [auth]"
  "vals_lookup (ReqHeader (connect_headers cs many (login_headers auth user pass r))) ''X-Loginconnectionstring'' =
     vals_lookup (ReqHeader r) ''X-Loginconnectionstring'' @ [cs]"
  "vals_lookup (ReqHeader (connect_headers cs many (login_headers auth user pass r))) ''X-Loginpassword'' =
     vals_lookup (ReqHeader r) ''X-Loginpassword'' @ [pass]"
  "vals_lookup (ReqHeader (connect_headers cs many (login_headers auth user pass r))) ''X-Loginmany'' =
     vals_lookup (ReqHeader r) ''X-Loginmany'' @ [bool_text many]"
  by (simp_all add: connect_headers_def login_headers_def req_add_def header_add_def canonical_auth_keys)

lemma Authenticator_next:
  assumes "Authenticator env conf r w c = (Auth_Next r' w', c')"
  obtains cs many auth user pass where "r' = connect_headers cs many (login_headers auth user pass r)"
  using assms unfolding Authenticator_def auth_none_def auth_basic_def auth_ntlm_def
  by (auto simp: Let_def split: if_splits prod.splits option.splits sum.splits)

text \<open>The five headers of the authenticator.\<close>

definition auth_keys :: "string list" where
  "auth_keys = [''X-AuthUserName'', ''X-LoginUserName'', ''X-LoginPassword'', ''X-LoginConnectionString'', ''X-LoginMany'']"

text \<open>C36: the five headers by which the authenticator names the user, the account to log on as and the
  database are added to those of the client and not put in their place: a client that sends one of them itself is
  believed, since the first value of a header is the one that is read.\<close>

theorem client_header_wins:
  assumes "Authenticator env conf r w c = (Auth_Next r' w', c')" "key \<in> set auth_keys"
    and "vals_lookup (ReqHeader r) (CanonicalHeaderKey key) = forged # others"
  shows "req_header r' key = forged"
proof -
  obtain cs many auth user pass where "r' = connect_headers cs many (login_headers auth user pass r)"
    using assms(1) by (rule Authenticator_next)
  with assms(2,3) show ?thesis
    by (auto simp: auth_keys_def req_header_def header_get_def vals_get_def canonical_auth_keys auth_header_values)
qed

definition one_user_env :: "bytes auth_env" where
  "one_user_env =
     \<lparr>a_sspi = toy_sspi, a_now = 0, a_old = [], a_partial = (\<lambda>_. []), a_cs = ''db'',
      a_users = \<lparr>ulist = [''APP'' \<mapsto> \<lparr>IsSpecial = False, GrpID = 1\<rparr>], prev = [], users_log = []\<rparr>\<rparr>"

definition open_conf :: auth_conf where
  "open_conf =
     \<lparr>authType = 0, authRealm = [], a_defUserName = ''app'', a_defUserPass = ''pw'',
      a_NTLMUserName = [], a_NTLMUserPass = [], a_grps = [1 \<mapsto> ''x'']\<rparr>"

definition forging_request :: request where
  "forging_request =
     \<lparr>Method = ''GET'', URL_Path = ''/'', RawQuery = [], Host = [], RemoteAddr = [], Proto = [], TLS = False,
      ReqHeader = [(''X-Loginusername'', [''sys''])], ReqForm = [], PostForm = [], MultipartForm = None\<rparr>"

theorem client_header_wins_witness:
  "\<exists>r' w' c'. Authenticator one_user_env open_conf forging_request new_writer no_contexts = (Auth_Next r' w', c') \<and>
     req_header r' ''X-LoginUserName'' = ''sys''"
proof -
  have "\<exists>r' w' c'. Authenticator one_user_env open_conf forging_request new_writer no_contexts = (Auth_Next r' w', c')"
    by (simp add: Authenticator_def auth_none_def open_conf_def one_user_env_def getConnectionParams_def
        getUserInfo_def Let_def str_eval)
  then obtain r' w' c' where
    a: "Authenticator one_user_env open_conf forging_request new_writer no_contexts = (Auth_Next r' w', c')"
    by blast
  have "vals_lookup (ReqHeader forging_request) ''X-Loginusername'' = [''sys'']"
    by (simp add: forging_request_def vals_lookup_def)
  then have "vals_lookup (ReqHeader forging_request) (CanonicalHeaderKey ''X-LoginUserName'') = [''sys'']"
    by (simp only: canonical_auth_keys)
  moreover have "''X-LoginUserName'' \<in> set auth_keys" by (simp add: auth_keys_def)
  ultimately show ?thesis using client_header_wins [OF a] a by blast
qed

end
