(* ===== verification/Soap.thy ===== *)
theory Soap
  imports Http Go_Fmt
begin

text \<open>
  The SOAP handler (\<open>soap.go\<close>): the body of the request is passed to the function the path
  names, its result is the response.  The database is a record of what its calls return.
\<close>

record soap_lob =
  sl_size :: int
  sl_data :: "string + bytes"

datatype soap_value = Value_Lob "soap_lob option" | Value_Other

record soap_db =
  sdb_connect :: "string option"
  sdb_in_var :: "string option"
  sdb_set_in :: "string option"
  sdb_out_var :: "string option"
  sdb_exec :: "string \<Rightarrow> bytes \<Rightarrow> string option"
  sdb_out :: "string \<Rightarrow> bytes \<Rightarrow> string + soap_value"

definition stm :: string where
  "stm = ''DECLARE t CLOB := EMPTY_CLOB(); BEGIN t := %s(:1); :2 := t; dbms_session.modify_package_state(dbms_session.reinitialize);END;''"

definition soap_proc :: "request \<Rightarrow> string" where
  "soap_proc r = snd (filepath_split (path_clean (URL_Path r)))"

definition soap_statement :: "request \<Rightarrow> string" where
  "soap_statement r = sprintf stm [soap_proc r]"

definition wsdl_requested :: "request \<Rightarrow> bool" where
  "wsdl_requested r = (Method r = ''GET'' \<and> to_upper (RawQuery r) = ''WSDL'')"

text \<open>The input; an error of reading the body leaves it empty.\<close>

definition soap_input :: "string + bytes \<Rightarrow> request \<Rightarrow> bytes" where
  "soap_input body r =
     (if wsdl_requested r then ''WSDL'' else case body of Inl e \<Rightarrow> [] | Inr b \<Rightarrow> b)"

definition soap_error :: "string \<Rightarrow> string \<Rightarrow> string + bytes" where
  "soap_error what e = Inl (''soap: '' @ what @ e)"

definition soap_output :: "soap_value \<Rightarrow> string + bytes" where
  "soap_output v =
     (case v of
        Value_Other \<Rightarrow> soap_error ''Error read response: '' ''Invalid variable type''
      | Value_Lob None \<Rightarrow> Inr []
      | Value_Lob (Some ext) \<Rightarrow>
          if sl_size ext = 0 then Inr []
          else (case sl_data ext of Inl e \<Rightarrow> soap_error ''Error read response: '' e | Inr b \<Rightarrow> Inr b))"

definition soap_call :: "soap_db \<Rightarrow> string + bytes \<Rightarrow> request \<Rightarrow> string + bytes" where
  "soap_call db body r =
     (let buf = soap_input body r; st = soap_statement r in
      if buf = [] then soap_error ''Body required'' []
      else case sdb_connect db of Some e \<Rightarrow> soap_error ''Error connecting to DB: '' e | None \<Rightarrow>
           case sdb_in_var db of Some e \<Rightarrow> soap_error ''Error prepare variable: '' e | None \<Rightarrow>
           case sdb_set_in db of Some e \<Rightarrow> soap_error ''Error setting input variable value: '' e | None \<Rightarrow>
           case sdb_out_var db of Some e \<Rightarrow> soap_error ''Error prepare variable: '' e | None \<Rightarrow>
           case sdb_exec db st buf of Some e \<Rightarrow> soap_error ''Error exec statement: '' e | None \<Rightarrow>
           case sdb_out db st buf of Inl e \<Rightarrow> soap_error ''Error read response: '' e | Inr v \<Rightarrow>
           soap_output v)"

definition writeError :: "int \<Rightarrow> string \<Rightarrow> writer \<Rightarrow> writer" where
  "writeError status msg w =
     Write msg (w_set ''Content-Type'' ''text/plain; charset=utf-8'' (WriteHeader status w))"

definition StatusBadRequest :: int where "StatusBadRequest = 400"

definition newSoap :: "soap_db \<Rightarrow> string + bytes \<Rightarrow> request \<Rightarrow> writer \<Rightarrow> writer" where
  "newSoap db body r w =
     (case soap_call db body r of
        Inl e \<Rightarrow> writeError StatusBadRequest e w
      | Inr out \<Rightarrow>
          Write out (WriteHeader StatusOK (w_set ''Content-Type'' ''text/xml; charset=utf-8'' w)))"

text \<open>A SOAP request is answered with status 200 and the bytes the function returned, or with
  status 400 and the error; an error page has no content type, which is set after the headers are sent.\<close>

theorem newSoap_reply:
  "(case soap_call db body r of
      Inr out \<Rightarrow> status_of (newSoap db body r new_writer) = StatusOK \<and>
        w_body (newSoap db body r new_writer) = out \<and>
        headers_of (newSoap db body r new_writer) = [(''Content-Type'', [''text/xml; charset=utf-8''])]
    | Inl e \<Rightarrow> status_of (newSoap db body r new_writer) = StatusBadRequest \<and>
        w_body (newSoap db body r new_writer) = e \<and> headers_of (newSoap db body r new_writer) = [])"
proof -
  have "CanonicalHeaderKey ''Content-Type'' = ''Content-Type''" by code_simp
  then show ?thesis
    by (auto simp: newSoap_def writeError_def status_of_def headers_of_def w_set_def header_set_def
        split: sum.split)
qed

text \<open>The statement is the text of the path between two fixed texts: the path of a request, which needs
  no credentials, can carry statements of its own.\<close>

lemma soap_statement_text:
  "soap_statement r =
     ''DECLARE t CLOB := EMPTY_CLOB(); BEGIN t := '' @ soap_proc r @
     ''(:1); :2 := t; dbms_session.modify_package_state(dbms_session.reinitialize);END;''"
  by (simp add: soap_statement_def stm_def)

lemma soap_injection:
  "URL_Path r = ''/soap/f(:1); delete t; x := g'' \<Longrightarrow>
     soap_statement r = ''DECLARE t CLOB := EMPTY_CLOB(); BEGIN t := f(:1); delete t; x := g(:1); :2 := t; dbms_session.modify_package_state(dbms_session.reinitialize);END;''"
proof -
  assume "URL_Path r = ''/soap/f(:1); delete t; x := g''"
  moreover have "path_clean ''/soap/f(:1); delete t; x := g'' = ''/soap/f(:1); delete t; x := g''"
    by code_simp
  ultimately have "soap_proc r = ''f(:1); delete t; x := g''"
    by (simp add: soap_proc_def filepath_split_def)
  then show ?thesis by (simp add: soap_statement_text)
qed

end
