(* ===== verification/Timer_Pool.thy ===== *)
theory Timer_Pool
  imports Owa_Types
begin

text \<open>
  The pool of timers (\<open>otasker/timer.go\<close>).  A timer runs, or has expired and is about to send its
  tick, or rests; its channel holds at most one tick.  The run time moves timers on by itself; a goroutine
  takes timers from the pool and gives them back.
\<close>

datatype run_state = Resting | Running_Timer | Sending

record timer =
  t_run :: run_state
  t_tick :: bool

record timers =
  store :: "nat \<Rightarrow> timer"
  pool :: "nat list"
  next_timer :: nat
  numberOfUsedTimers :: int
  numberOfCreationOfTimer :: int
  numberOfAcquiringOfTimer :: int
  numberOfReleasingOfTimer :: int

text \<open>\<open>Stop\<close> and \<open>Reset\<close> tell whether the timer was running.\<close>

definition t_stop :: "timer \<Rightarrow> bool \<times> timer" where
  "t_stop t = (t_run t = Running_Timer, if t_run t = Running_Timer then t\<lparr>t_run := Resting\<rparr> else t)"

definition t_reset :: "timer \<Rightarrow> bool \<times> timer" where
  "t_reset t = (t_run t = Running_Timer, t\<lparr>t_run := Running_Timer\<rparr>)"

definition set_timer :: "nat \<Rightarrow> timer \<Rightarrow> timers \<Rightarrow> timers" where
  "set_timer i t s = s\<lparr>store := (store s)(i := t)\<rparr>"

text \<open>The timer, or nothing when it panics.  The pool may also have dropped its timers.\<close>

definition acquireTimer :: "timers \<Rightarrow> nat option \<times> timers" where
  "acquireTimer s =
     (let s = s\<lparr>numberOfUsedTimers := numberOfUsedTimers s + 1\<rparr> in
      case pool s of
        [] \<Rightarrow>
          (Some (next_timer s),
           set_timer (next_timer s) \<lparr>t_run = Running_Timer, t_tick = False\<rparr>
             (s\<lparr>next_timer := next_timer s + 1, numberOfCreationOfTimer := numberOfCreationOfTimer s + 1\<rparr>))
      | i # is \<Rightarrow>
          let s = s\<lparr>pool := is, numberOfAcquiringOfTimer := numberOfAcquiringOfTimer s + 1\<rparr>;
              (stopped, t) = t_stop (store s i);
              (active, t) = t_reset t
          in (if active then None else Some i, set_timer i t s))"

definition releaseTimer :: "nat \<Rightarrow> timers \<Rightarrow> timers" where
  "releaseTimer i s =
     (let (stopped, t) = t_stop (store s i);
          t = (if stopped then t else t\<lparr>t_tick := False\<rparr>)
      in (set_timer i t s)\<lparr>pool := i # pool s, numberOfUsedTimers := numberOfUsedTimers s - 1,
            numberOfReleasingOfTimer := numberOfReleasingOfTimer s + 1\<rparr>)"

text \<open>The run time: a running timer expires, then its tick goes into the channel unless one is
  there.\<close>

definition expire :: "nat \<Rightarrow> timers \<Rightarrow> timers" where
  "expire i s =
     (if t_run (store s i) = Running_Timer then set_timer i ((store s i)\<lparr>t_run := Sending\<rparr>) s else s)"

definition send_tick :: "nat \<Rightarrow> timers \<Rightarrow> timers" where
  "send_tick i s =
     (if t_run (store s i) = Sending
      then set_timer i ((store s i)\<lparr>t_run := Resting, t_tick := True\<rparr>) s else s)"

lemma acquire_never_panics: "fst (acquireTimer s) \<noteq> None"
  by (auto simp: acquireTimer_def Let_def t_stop_def t_reset_def split: list.split)

lemma used_timers_balance:
  "numberOfUsedTimers (snd (acquireTimer s)) = numberOfUsedTimers s + 1"
  "numberOfUsedTimers (releaseTimer i s) = numberOfUsedTimers s - 1"
  by (auto simp: acquireTimer_def releaseTimer_def set_timer_def Let_def split: list.split prod.split)

text \<open>Releasing takes the tick of a timer that has sent it, but not of one that has expired and has not
  sent it yet: the tick arrives in the pool and the next owner sees a time-out at once.\<close>

lemma released_without_tick: "\<not> t_tick (store s i) \<or> t_run (store s i) \<noteq> Running_Timer \<Longrightarrow>
    \<not> t_tick (store (releaseTimer i s) i)"
  by (auto simp: releaseTimer_def set_timer_def t_stop_def)

definition one_timer :: timers where
  "one_timer =
     \<lparr>store = (\<lambda>_. \<lparr>t_run = Resting, t_tick = False\<rparr>), pool = [], next_timer = 0, numberOfUsedTimers = 0,
      numberOfCreationOfTimer = 0, numberOfAcquiringOfTimer = 0, numberOfReleasingOfTimer = 0\<rparr>"

lemma stale_tick:
  "let s1 = snd (acquireTimer one_timer);
       s2 = send_tick 0 (releaseTimer 0 (expire 0 s1));
       (t, s3) = acquireTimer s2
   in t = Some 0 \<and> t_run (store s3 0) = Running_Timer \<and> t_tick (store s3 0)"
  by (simp add: one_timer_def acquireTimer_def releaseTimer_def expire_def send_tick_def set_timer_def
      t_stop_def t_reset_def Let_def)

end
