(* ===== verification/Config.thy ===== *)
theory Config
  imports Owa_Props "HOL-Library.Word"
begin

text \<open>
  The configuration of the server (\<open>server.go\<close>: \<open>parseConfig\<close>, \<open>resetConfig\<close>,
  \<open>confServer\<close>, \<open>confUsers\<close>).  A configuration is read again and again; the routes and
  the users follow the last one that could be read, the server's own parameters stay those of the first.
  Parameters: \<open>json.Unmarshal\<close> and \<open>json.Marshal\<close>, and whether the router accepts a new
  route (it panics when it does not).
\<close>

section \<open>The parsed configuration\<close>

record handler_section =
  h_Path :: string
  h_Type :: string
  h_RootDir :: string
  h_RedirectPath :: string
  h_SessionIdleTimeout :: int
  h_SessionWaitTimeout :: int
  h_RequestUserInfo :: bool
  h_RequestUserRealm :: string
  h_DefUserName :: string
  h_DefUserPass :: string
  h_BeforeScript :: string
  h_AfterScript :: string
  h_ParamStoreProc :: string
  h_DocumentTable :: string
  h_Templates :: "(string \<times> string) list"
  h_Grps :: "(int \<times> string) list"
  h_SoapUserName :: string
  h_SoapUserPass :: string
  h_SoapConnStr :: string

record serverConfigHolder =
  sc_ServiceName :: string
  sc_ServiceDispName :: string
  sc_HTTPPort :: int
  sc_HTTPDebugPort :: int
  sc_HTTPReadTimeout :: int
  sc_HTTPWriteTimeout :: int
  sc_HTTPSsl :: bool
  sc_HTTPSslCert :: string
  sc_HTTPSslKey :: string
  sc_HTTPLogDir :: string
  sc_HTTPUsers :: bytes
  sc_Handlers :: "handler_section list"

definition defHTTPtimeout :: int where "defHTTPtimeout = 2400000"

definition empty_config :: serverConfigHolder where
  "empty_config =
     \<lparr>sc_ServiceName = [], sc_ServiceDispName = [], sc_HTTPPort = 0, sc_HTTPDebugPort = 0,
      sc_HTTPReadTimeout = 0, sc_HTTPWriteTimeout = 0, sc_HTTPSsl = False, sc_HTTPSslCert = [],
      sc_HTTPSslKey = [], sc_HTTPLogDir = [], sc_HTTPUsers = [], sc_Handlers = []\<rparr>"

definition default_config :: serverConfigHolder where
  "default_config =
     empty_config\<lparr>sc_HTTPReadTimeout := defHTTPtimeout, sc_HTTPWriteTimeout := defHTTPtimeout,
       sc_HTTPLogDir := ''${app_dir}'' @ [CHR 0x5C] @ ''log'' @ [CHR 0x5C]\<rparr>"

section \<open>Routes\<close>

datatype route_handler =
    Redirect_Handler string
  | Files_Handler string
  | Owa_Handler owa_conf
  | Soap_Handler string string string string

type_synonym route = "string \<times> string \<times> route_handler"

text \<open>\<open>time.Duration(i) * time.Millisecond\<close> is a product of 64 bits.\<close>

definition millisecond_duration :: "int \<Rightarrow> time" where
  "millisecond_duration i = sint (word_of_int i * word_of_int Millisecond :: 64 word)"

definition owa_type :: "string \<Rightarrow> int option" where
  "owa_type t =
     (if t = ''owa_apex'' then Some 1
      else if t = ''owa_classic'' then Some 0
      else if t = ''owa_ekb'' then Some 2
      else None)"

definition owa_conf_of :: "string \<Rightarrow> int \<Rightarrow> handler_section \<Rightarrow> owa_conf" where
  "owa_conf_of upath ty h =
     \<lparr>c_path = upath, c_type = ty,
      c_idle = millisecond_duration (h_SessionIdleTimeout h),
      c_wait = millisecond_duration (h_SessionWaitTimeout h),
      c_reqUserInfo = h_RequestUserInfo h, c_realm = h_RequestUserRealm h,
      c_defUser = h_DefUserName h, c_defPass = h_DefUserPass h,
      c_before = h_BeforeScript h, c_after = h_AfterScript h, c_store = h_ParamStoreProc h,
      c_docTable = h_DocumentTable h,
      c_templates = foldl (\<lambda>m (code, body). m(code \<mapsto> body)) Map.empty (h_Templates h),
      c_grps = foldl (\<lambda>m (i, sid). m(i \<mapsto> sid)) Map.empty (h_Grps h)\<rparr>"

definition section_routes :: "handler_section \<Rightarrow> route list" where
  "section_routes h =
     (if h_Path h = [] then []
      else
        let upath = to_lower (h_Path h) in
        if h_Type h = ''Redirect'' then [(''GET'', upath, Redirect_Handler (h_RedirectPath h))]
        else if h_Type h = ''Static'' then [(''GET'', upath @ ''/*filepath'', Files_Handler (h_RootDir h))]
        else case owa_type (h_Type h) of
          Some ty \<Rightarrow>
            [(''GET'', upath @ ''/*proc'', Owa_Handler (owa_conf_of upath ty h)),
             (''POST'', upath @ ''/*proc'', Owa_Handler (owa_conf_of upath ty h))]
        | None \<Rightarrow>
            if h_Type h = ''SOAP'' then
              (let soap = Soap_Handler upath (h_SoapUserName h) (h_SoapUserPass h) (h_SoapConnStr h)
               in [(''GET'', upath @ ''/*proc'', soap), (''POST'', upath @ ''/*proc'', soap)])
            else [])"

text \<open>Registering one route after the other; the router panics at the first it does not accept.\<close>

fun register :: "(route list \<Rightarrow> route \<Rightarrow> bool) \<Rightarrow> route list \<Rightarrow> route list \<Rightarrow> route list option" where
  "register accepts rt [] = Some rt"
| "register accepts rt (r # rs) = (if accepts rt r then register accepts (rt @ [r]) rs else None)"

lemma register_Some: "register accepts rt rs = Some rt' \<Longrightarrow> rt' = rt @ rs"
  by (induction rs arbitrary: rt) (fastforce split: if_splits)+

section \<open>The server's state\<close>

record server_params =
  p_ServiceName :: string
  p_ServiceDispName :: string
  p_HTTPPort :: int
  p_HTTPDebugPort :: int
  p_HTTPReadTimeout :: int
  p_HTTPWriteTimeout :: int
  p_HTTPSsl :: bool
  p_HTTPSslCert :: string
  p_HTTPSslKey :: string
  p_HTTPLogDir :: string

record server_state =
  confServerReaded :: bool
  params :: server_params
  router :: "route list"
  prevConf :: bytes
  users_of :: users_state

record conf_env =
  unmarshal :: "bytes \<Rightarrow> serverConfigHolder \<Rightarrow> string + serverConfigHolder"
  accepts :: "route list \<Rightarrow> route \<Rightarrow> bool"
  parse_users :: users_parser

datatype conf_result = Conf_Ok | Conf_Error string | Conf_Panic

definition zero_params :: server_params where
  "zero_params =
     \<lparr>p_ServiceName = [], p_ServiceDispName = [], p_HTTPPort = 0, p_HTTPDebugPort = 0,
      p_HTTPReadTimeout = 0, p_HTTPWriteTimeout = 0, p_HTTPSsl = False, p_HTTPSslCert = [],
      p_HTTPSslKey = [], p_HTTPLogDir = []\<rparr>"

definition init_server :: server_state where
  "init_server =
     \<lparr>confServerReaded = False, params = zero_params, router = [], prevConf = [], users_of = init_users\<rparr>"

definition params_of :: "serverConfigHolder \<Rightarrow> server_params" where
  "params_of c =
     \<lparr>p_ServiceName = sc_ServiceName c @ ''_'' @ itoa (sc_HTTPPort c),
      p_ServiceDispName = sc_ServiceDispName c, p_HTTPPort = sc_HTTPPort c,
      p_HTTPDebugPort = sc_HTTPDebugPort c, p_HTTPReadTimeout = sc_HTTPReadTimeout c,
      p_HTTPWriteTimeout = sc_HTTPWriteTimeout c, p_HTTPSsl = sc_HTTPSsl c,
      p_HTTPSslCert = sc_HTTPSslCert c, p_HTTPSslKey = sc_HTTPSslKey c,
      p_HTTPLogDir = sc_HTTPLogDir c\<rparr>"

definition install :: "conf_env \<Rightarrow> bytes \<Rightarrow> serverConfigHolder \<Rightarrow> route list \<Rightarrow> server_state \<Rightarrow> server_state" where
  "install env buf c newRouter st =
     (let st = (if confServerReaded st then st else st\<lparr>params := params_of c, confServerReaded := True\<rparr>)
      in st\<lparr>users_of := updateUsers (parse_users env) (sc_HTTPUsers c) (users_of st),
            router := newRouter, prevConf := go_copy (prevConf st) buf\<rparr>)"

definition parseConfig :: "conf_env \<Rightarrow> bytes \<Rightarrow> server_state \<Rightarrow> conf_result \<times> server_state" where
  "parseConfig env buf st =
     (if prevConf st = buf then (Conf_Ok, st)
      else case unmarshal env buf default_config of
             Inl e \<Rightarrow> (Conf_Error (''error parsing configuration: '' @ e), st)
           | Inr c \<Rightarrow>
               (case register (accepts env) [] (concat (map section_routes (sc_Handlers c))) of
                  None \<Rightarrow> (Conf_Panic, st)
                | Some rt \<Rightarrow> (Conf_Ok, install env buf c rt st)))"

definition resetConfig :: "conf_env \<Rightarrow> server_state \<Rightarrow> server_state" where
  "resetConfig env st =
     st\<lparr>params := zero_params\<lparr>p_HTTPReadTimeout := defHTTPtimeout, p_HTTPWriteTimeout := defHTTPtimeout\<rparr>,
        confServerReaded := False,
        users_of := updateUsers (parse_users env) [] (users_of st),
        router := [], prevConf := []\<rparr>"

text \<open>The debug pages write the server's parameters and the users as JSON.\<close>

definition confServer :: "(serverConfigHolder \<Rightarrow> string + bytes) \<Rightarrow> server_state \<Rightarrow> writer \<Rightarrow> writer" where
  "confServer marshal st w =
     (let p = params st;
          c = empty_config\<lparr>sc_ServiceName := p_ServiceName p, sc_ServiceDispName := p_ServiceDispName p,
            sc_HTTPPort := p_HTTPPort p, sc_HTTPDebugPort := p_HTTPDebugPort p,
            sc_HTTPReadTimeout := p_HTTPReadTimeout p, sc_HTTPWriteTimeout := p_HTTPWriteTimeout p,
            sc_HTTPSsl := p_HTTPSsl p, sc_HTTPSslCert := p_HTTPSslCert p, sc_HTTPSslKey := p_HTTPSslKey p,
            sc_HTTPLogDir := p_HTTPLogDir p\<rparr>
      in case marshal c of
           Inl e \<Rightarrow> Write e (WriteHeader StatusOK w)
         | Inr buf \<Rightarrow> Write buf (WriteHeader StatusOK w))"

definition confUsers :: "((string \<rightharpoonup> userInfo) \<Rightarrow> string + bytes) \<Rightarrow> server_state \<Rightarrow> writer \<Rightarrow> writer" where
  "confUsers marshal st w =
     (case getUsers marshal (users_of st) of
        Inl e \<Rightarrow> Write e (WriteHeader StatusOK w)
      | Inr buf \<Rightarrow> Write buf (WriteHeader StatusOK w))"

definition newRedirect :: "(string \<Rightarrow> string option) \<Rightarrow> string \<Rightarrow> request \<Rightarrow> writer \<Rightarrow> writer" where
  "newRedirect scheme redirectPath r w = http_redirect scheme r redirectPath StatusMovedPermanently w"

section \<open>What a configuration run does\<close>

inductive conf_reachable :: "conf_env \<Rightarrow> server_state \<Rightarrow> bool" for env where
  conf_init: "conf_reachable env init_server"
| conf_parse: "conf_reachable env st \<Longrightarrow> conf_reachable env (snd (parseConfig env buf st))"
| conf_reset: "conf_reachable env st \<Longrightarrow> conf_reachable env (resetConfig env st)"

lemma install_simps [simp]:
  "router (install env buf c rt st) = rt"
  "users_of (install env buf c rt st) = updateUsers (parse_users env) (sc_HTTPUsers c) (users_of st)"
  "confServerReaded (install env buf c rt st)"
  "params (install env buf c rt st) = (if confServerReaded st then params st else params_of c)"
  "prevConf (install env buf c rt st) = go_copy (prevConf st) buf"
  by (auto simp: install_def)

lemma parseConfig_failed: "fst (parseConfig env buf st) \<noteq> Conf_Ok \<Longrightarrow> snd (parseConfig env buf st) = st"
  by (cases "unmarshal env buf default_config") (auto simp: parseConfig_def split: option.split)

lemma prevConf_empty: "conf_reachable env st \<Longrightarrow> prevConf st = []"
proof (induction rule: conf_reachable.induct)
  case (conf_parse st buf)
  then show ?case by (simp add: parseConfig_def split: sum.split option.split)
qed (simp_all add: init_server_def resetConfig_def)

lemma users_of_reachable: "conf_reachable env st \<Longrightarrow> users_reachable (parse_users env) (users_of st)"
proof (induction rule: conf_reachable.induct)
  case conf_init
  show ?case by (simp add: init_server_def users_init)
next
  case (conf_parse st buf)
  then show ?case by (auto simp: parseConfig_def intro: users_update split: sum.split option.split)
next
  case (conf_reset st)
  then show ?case by (simp add: resetConfig_def users_update)
qed

text \<open>C10: a configuration that cannot be read, or that the router refuses, changes nothing; one
  that can be read and is not empty replaces all routes by its own and leaves the server's port, time-outs,
  certificates and directories as the first configuration set them.\<close>

theorem parseConfig_atomic:
  assumes "conf_reachable env st" "parseConfig env buf st = (result, st')"
  shows "(result \<noteq> Conf_Ok \<longrightarrow> st' = st) \<and>
    (confServerReaded st \<longrightarrow> params st' = params st \<and> confServerReaded st') \<and>
    (result = Conf_Ok \<and> buf \<noteq> [] \<longrightarrow>
      (\<exists>c. unmarshal env buf default_config = Inr c \<and>
         router st' = concat (map section_routes (sc_Handlers c)) \<and>
         users_of st' = updateUsers (parse_users env) (sc_HTTPUsers c) (users_of st) \<and>
         (\<not> confServerReaded st \<longrightarrow> params st' = params_of c)))"
proof -
  have "prevConf st = []" using assms(1) by (rule prevConf_empty)
  with assms(2) show ?thesis
    by (auto simp: parseConfig_def split: if_splits sum.splits option.splits dest!: register_Some)
qed

definition demo_section :: handler_section where
  "demo_section =
     \<lparr>h_Path = ''/PLS'', h_Type = ''owa_classic'', h_RootDir = [], h_RedirectPath = [],
      h_SessionIdleTimeout = 60000, h_SessionWaitTimeout = - 1, h_RequestUserInfo = True,
      h_RequestUserRealm = ''r'', h_DefUserName = [], h_DefUserPass = [], h_BeforeScript = [],
      h_AfterScript = [], h_ParamStoreProc = [], h_DocumentTable = [], h_Templates = [],
      h_Grps = [(1, ''db'')], h_SoapUserName = [], h_SoapUserPass = [], h_SoapConnStr = []\<rparr>"

definition demo_conf_env :: conf_env where
  "demo_conf_env =
     \<lparr>unmarshal = (\<lambda>buf c. if buf = ''bad'' then Inl ''bad'' else
        Inr (c\<lparr>sc_HTTPPort := int (length buf), sc_Handlers := [demo_section]\<rparr>)),
      accepts = (\<lambda>_ _. True), parse_users = two_users\<rparr>"

theorem parseConfig_atomic_witness:
  "let st = snd (parseConfig demo_conf_env ''first'' init_server);
       st' = snd (parseConfig demo_conf_env ''second!'' st)
   in params st' = params st"
proof -
  define st where "st = snd (parseConfig demo_conf_env ''first'' init_server)"
  have r: "conf_reachable demo_conf_env st" unfolding st_def by (intro conf_parse conf_init)
  have "confServerReaded st"
    by (simp add: st_def parseConfig_def init_server_def demo_conf_env_def section_routes_def demo_section_def
        owa_type_def Let_def)
  with parseConfig_atomic [OF r, of "''second!''"] show ?thesis
    by (cases "parseConfig demo_conf_env ''second!'' st") (auto simp: Let_def st_def)
qed

section \<open>Time-outs\<close>

lemma sint_word_of_int_range:
  "- (2 ^ 63) \<le> k \<Longrightarrow> k < 2 ^ 63 \<Longrightarrow> sint (word_of_int k :: 64 word) = k"
  by (simp add: int_word_sint)

lemma millisecond_duration_eq: "millisecond_duration i = sint (word_of_int (i * Millisecond) :: 64 word)"
  by (simp add: millisecond_duration_def)

text \<open>C28: exactly the time-outs from 0 to 9223372036854 milliseconds mean what they say.  A negative one
  (from that many milliseconds below zero on) means no limit.  Above, the product of 64 bits wraps around: up to
  18446744073709 milliseconds it is negative, so the time-out turns into none; the next one, 18446744073710, is a
  time-out of 448384 nanoseconds.\<close>

theorem timeout_bounds:
  "(no_limit (millisecond_duration i) = i * Millisecond \<longleftrightarrow> 0 \<le> i \<and> i \<le> 9223372036854) \<and>
   (- 9223372036854 \<le> i \<and> i < 0 \<longrightarrow> no_limit (millisecond_duration i) = MaxInt64) \<and>
   (9223372036855 \<le> i \<and> i \<le> 18446744073709 \<longrightarrow> no_limit (millisecond_duration i) = MaxInt64) \<and>
   no_limit (millisecond_duration 18446744073710) = 448384"
proof -
  have small: "millisecond_duration i = i * Millisecond" if "- 9223372036854 \<le> i" "i \<le> 9223372036854"
    unfolding millisecond_duration_eq using that by (intro sint_word_of_int_range) (auto simp: Millisecond_def)
  have exact: "no_limit (millisecond_duration i) = i * Millisecond" if "0 \<le> i" "i \<le> 9223372036854"
    using small that by (simp add: no_limit_def Millisecond_def)
  have less: "no_limit (millisecond_duration i) = MaxInt64" if "- 9223372036854 \<le> i" "i < 0"
    using small that by (simp add: no_limit_def Millisecond_def)
  have wrapped: "no_limit (millisecond_duration i) = MaxInt64" if "9223372036855 \<le> i" "i \<le> 18446744073709"
  proof -
    let ?k = "i * Millisecond"
    have k: "2 ^ 63 \<le> ?k" "?k < 2 ^ 64" using that by (auto simp: Millisecond_def)
    have "millisecond_duration i = (?k + 2 ^ 63) mod 2 ^ 64 - 2 ^ 63"
      unfolding millisecond_duration_eq by (subst int_word_sint) simp
    also have "(?k + 2 ^ 63) mod 2 ^ 64 = (?k - 2 ^ 63 + 2 ^ 64) mod 2 ^ 64"
      by (rule arg_cong [where f = "\<lambda>x. x mod 2 ^ 64"]) simp
    also have "\<dots> = (?k - 2 ^ 63) mod 2 ^ 64" by (rule mod_add_self2)
    also have "\<dots> = ?k - 2 ^ 63" using k by (intro mod_pos_pos_trivial) auto
    finally show ?thesis using k by (simp add: no_limit_def)
  qed
  have only: "0 \<le> i \<and> i \<le> 9223372036854" if "no_limit (millisecond_duration i) = i * Millisecond"
  proof -
    have "millisecond_duration i \<le> MaxInt64"
      using sint_lt [of "word_of_int i * word_of_int Millisecond :: 64 word"]
      by (simp add: millisecond_duration_def MaxInt64_def)
    then have "0 \<le> no_limit (millisecond_duration i)" "no_limit (millisecond_duration i) \<le> MaxInt64"
      by (simp_all add: no_limit_def MaxInt64_def)
    then show ?thesis unfolding that by (simp add: Millisecond_def MaxInt64_def)
  qed
  have "no_limit (millisecond_duration 18446744073710) = 448384"
    unfolding millisecond_duration_eq by (subst int_word_sint) (simp add: no_limit_def Millisecond_def)
  with exact less wrapped only show ?thesis by blast
qed

theorem timeout_bounds_witness:
  "no_limit (millisecond_duration 60000) = 60000 * Millisecond \<and>
   no_limit (millisecond_duration 9223372036855) = MaxInt64"
  using timeout_bounds [of 60000] timeout_bounds [of 9223372036855] by simp

section \<open>Registered handlers\<close>

lemma section_routes_owa:
  "(m, p, Owa_Handler conf) \<in> set (section_routes h) \<Longrightarrow>
     p = c_path conf @ ''/*proc'' \<and> (m = ''GET'' \<or> m = ''POST'') \<and> to_lower (c_path conf) = c_path conf \<and>
     c_type conf \<in> {0, 1, 2}"
  by (auto simp: section_routes_def Let_def owa_conf_of_def owa_type_def split: if_splits option.splits)

definition routes_ok :: "server_state \<Rightarrow> bool" where
  "routes_ok st = (\<exists>hs. router st = concat (map section_routes hs))"

lemma routes_ok_reachable: "conf_reachable env st \<Longrightarrow> routes_ok st"
proof (induction rule: conf_reachable.induct)
  case conf_init
  have "router init_server = concat (map section_routes [])" by (simp add: init_server_def)
  then show ?case unfolding routes_ok_def by blast
next
  case (conf_parse st buf)
  then show ?case
    by (auto simp: parseConfig_def routes_ok_def dest: register_Some split: sum.split option.split)
next
  case (conf_reset st)
  have "router (resetConfig env st) = concat (map section_routes [])" by (simp add: resetConfig_def)
  then show ?case unfolding routes_ok_def by blast
qed

text \<open>The two calls that can end the process: the slice of the path, and the expansion of the name of the
  error dump.\<close>

lemma dump_name_None: "dump_name env user = None \<longleftrightarrow> mentions_log_dir (LogDir (file_env env))"
proof
  assume "mentions_log_dir (LogDir (file_env env))"
  moreover have "mentions_log_dir (''${log_dir}/err_'' @ user @ ''_${datetime}.log'')"
    by (simp add: mentions_log_dir_def tokens_Cons getShellName_def first_index_def str_eval)
  ultimately show "dump_name env user = None" by (simp only: dump_name_def expandFileName_def expand_loops)
next
  assume "dump_name env user = None"
  then show "mentions_log_dir (LogDir (file_env env))"
    using expandFileName_total unfolding dump_name_def by (metis option.distinct(1))
qed

lemma owa_before_Crash:
  "owa_before env conf req w = Crash \<longleftrightarrow>
     proc_name conf req = None \<or>
     (proc_name conf req \<noteq> Some ''!'' \<and> credentials conf (snd (parsed_request env req)) \<noteq> None \<and>
      mentions_log_dir (LogDir (file_env env)))"
proof (cases "mentions_log_dir (LogDir (file_env env))")
  case True
  then have "dump_name env user = None" for user by (simp only: dump_name_None)
  with True show ?thesis
    by (auto simp: owa_before_def split: prod.split option.split)
next
  case False
  have "(case dump_name env user of None \<Rightarrow> Crash | Some dump \<Rightarrow> f dump) = f (the (dump_name env user))" for user f
    using False dump_name_None [of env user] by (auto split: option.split)
  with False show ?thesis
    by (auto simp: owa_before_def Let_def split: prod.split option.split)
qed


lemma demo_router:
  "router (snd (parseConfig demo_conf_env ''first'' init_server)) = section_routes demo_section"
  by (simp add: parseConfig_def init_server_def demo_conf_env_def section_routes_def demo_section_def
      owa_type_def Let_def)


end
