(* ===== verification/Reader.thy ===== *)
theory Reader
  imports Config
begin

text \<open>
  Reading the configuration from the database (\<open>reader.go\<close>): the connection that is kept between
  two readings, the query, and the loop that reads at every tick.  The database is a record over a state
  \<open>'d\<close>; the driver's errors are texts, as \<open>otasker.UnMask\<close> leaves them.
\<close>

datatype config_row = Row_String string | Row_Other string

record 'd config_db =
  cd_connected :: "'d \<Rightarrow> bool"
  cd_ping :: "'d \<Rightarrow> string option \<times> 'd"
  cd_close :: "'d \<Rightarrow> 'd"
  cd_free :: "'d \<Rightarrow> 'd"
  cd_connect :: "string \<Rightarrow> string \<Rightarrow> string \<Rightarrow> 'd \<Rightarrow> string option \<times> 'd"
  cd_exec :: "string \<Rightarrow> string list \<Rightarrow> 'd \<Rightarrow> string option \<times> 'd"
  cd_fetch :: "'d \<Rightarrow> string + config_row list"

record reader_conf =
  reader_username :: string
  reader_password :: string
  reader_sid :: string
  configname :: string
  hostname :: string

record 'd reader =
  rd_conn :: bool
  rd_db :: 'd

definition stmReadConfig :: string where
  "stmReadConfig = ''select * from table(c.config(:1, :2, '' @ [CHR 0x27, CHR 0x27] @ ''))''"

definition initReading :: "(string \<Rightarrow> string \<times> string \<times> string) \<Rightarrow> string \<Rightarrow> string + string \<Rightarrow>
    string \<Rightarrow> string \<Rightarrow> string + reader_conf" where
  "initReading splitDSN hostFlag os_host dsn configName =
     (let (user, pass, sid) = splitDSN dsn;
          conf = (\<lambda>h. \<lparr>reader_username = user, reader_password = pass, reader_sid = sid,
                        configname = configName, hostname = h\<rparr>)
      in if hostFlag \<noteq> [] then Inr (conf hostFlag)
         else case os_host of
                Inl e \<Rightarrow> Inl (''Error getting host name: '' @ e @ [LF])
              | Inr h \<Rightarrow> Inr (conf h))"

text \<open>A connection that is lost, or does not answer, is given up.\<close>

definition check_conn :: "'d config_db \<Rightarrow> 'd reader \<Rightarrow> 'd reader" where
  "check_conn cdb r =
     (if \<not> rd_conn r then r
      else if \<not> cd_connected cdb (rd_db r) then r\<lparr>rd_db := cd_free cdb (rd_db r), rd_conn := False\<rparr>
      else case cd_ping cdb (rd_db r) of
             (None, d) \<Rightarrow> r\<lparr>rd_db := d\<rparr>
           | (Some e, d) \<Rightarrow> r\<lparr>rd_db := cd_free cdb (cd_close cdb d), rd_conn := False\<rparr>)"

definition open_conn :: "'d config_db \<Rightarrow> reader_conf \<Rightarrow> 'd reader \<Rightarrow> string option \<times> 'd reader" where
  "open_conn cdb conf r =
     (if rd_conn r then (None, r)
      else case cd_connect cdb (reader_username conf) (reader_password conf) (reader_sid conf) (rd_db r) of
             (None, d) \<Rightarrow> (None, r\<lparr>rd_db := d, rd_conn := True\<rparr>)
           | (Some e, d) \<Rightarrow> (Some e, r\<lparr>rd_db := cd_free cdb d, rd_conn := False\<rparr>))"

fun join_rows :: "config_row list \<Rightarrow> string + bytes" where
  "join_rows [] = Inr []"
| "join_rows (Row_Other ty # rows) = Inl (''data is not String, but '' @ ty)"
| "join_rows (Row_String s # rows) =
     (case join_rows rows of Inl e \<Rightarrow> Inl e | Inr buf \<Rightarrow> Inr (s @ buf))"

definition exec_error :: "string \<Rightarrow> string" where
  "exec_error e = ''error executing `c.config`: '' @ e"

definition readConfig :: "'d config_db \<Rightarrow> reader_conf \<Rightarrow> 'd reader \<Rightarrow> (string + bytes) \<times> 'd reader" where
  "readConfig cdb conf r =
     (case open_conn cdb conf (check_conn cdb r) of
        (Some e, r) \<Rightarrow> (Inl e, r)
      | (None, r) \<Rightarrow>
          (case cd_exec cdb stmReadConfig [configname conf, hostname conf] (rd_db r) of
             (Some e, d) \<Rightarrow> (Inl (exec_error e), r\<lparr>rd_db := d\<rparr>)
           | (None, d) \<Rightarrow>
               let r = r\<lparr>rd_db := d\<rparr> in
               (case cd_fetch cdb d of
                  Inl e \<Rightarrow> (Inl (exec_error e), r)
                | Inr rows \<Rightarrow>
                    (case join_rows rows of
                       Inl e \<Rightarrow> (Inl e, r)
                     | Inr buf \<Rightarrow>
                         if buf = ''{}'' then (Inl (''Configuration \"'' @ configname conf @ ''\" does not exists''), r)
                         else (Inr buf, r)))))"

text \<open>One tick of the loop: what is logged is the error, if there is one.  A configuration the router
  refuses ends the process.\<close>

definition reader_tick :: "'d config_db \<Rightarrow> reader_conf \<Rightarrow> conf_env \<Rightarrow> 'd reader \<times> server_state \<Rightarrow>
    conf_result \<times> 'd reader \<times> server_state" where
  "reader_tick cdb conf env s =
     (case readConfig cdb conf (fst s) of
        (Inl e, r) \<Rightarrow> (Conf_Error (''Error read configuration: '' @ e @ [LF]), r, snd s)
      | (Inr buf, r) \<Rightarrow>
          (case parseConfig env buf (snd s) of
             (Conf_Error e, st) \<Rightarrow> (Conf_Error (''Error parse configuration: '' @ e @ [LF]), r, st)
           | (result, st) \<Rightarrow> (result, r, st)))"

definition startReading :: "'d config_db \<Rightarrow> string + reader_conf \<Rightarrow> conf_env \<Rightarrow> 'd reader \<times> server_state \<Rightarrow>
    conf_result \<times> 'd reader \<times> server_state" where
  "startReading cdb init env s =
     (case init of
        Inl e \<Rightarrow> (Conf_Error e, s)
      | Inr conf \<Rightarrow> reader_tick cdb conf env s)"

definition stopReading :: "'d config_db \<Rightarrow> 'd reader \<Rightarrow> 'd reader" where
  "stopReading cdb r = r\<lparr>rd_db := cd_free cdb (rd_db r), rd_conn := False\<rparr>"

section \<open>What is read\<close>

lemma join_rows_texts: "join_rows (map Row_String ls) = Inr (concat ls)"
  by (induction ls) auto

lemma join_rows_other: "Row_Other ty \<in> set rows \<Longrightarrow> \<exists>e. join_rows rows = Inl e"
  by (induction rows rule: join_rows.induct) (auto split: sum.split)

lemma readConfig_conn:
  "readConfig cdb conf r = (Inr buf, r') \<Longrightarrow> rd_conn r'"
  by (auto simp: readConfig_def open_conn_def Let_def split: if_splits option.splits sum.splits prod.splits)

lemma open_conn_failed:
  "open_conn cdb conf r = (Some e, r') \<Longrightarrow> \<not> rd_conn r'"
  by (auto simp: open_conn_def split: if_splits option.splits prod.splits)

text \<open>A tick that fails leaves routes, users and parameters of the server as they were; so the server
  goes on with the last configuration that could be read.\<close>

lemma tick_keeps_server:
  assumes "reader_tick cdb conf env (r, st) = (result, r', st')" "result \<noteq> Conf_Ok"
  shows "st' = st"
proof (cases "readConfig cdb conf r")
  case (Pair x r1)
  show ?thesis
  proof (cases x)
    case (Inl e)
    with Pair assms show ?thesis by (simp add: reader_tick_def)
  next
    case (Inr buf)
    show ?thesis using Pair Inr assms parseConfig_failed [of env buf st]
      by (cases "parseConfig env buf st"; cases "fst (parseConfig env buf st)") (auto simp: reader_tick_def)
  qed
qed

end
