(* ===== verification/Access_Log.thy ===== *)
theory Access_Log
  imports Stat Expand Http
begin

text \<open>
  The log of requests (\<open>logger.go\<close>): the response writer that remembers status and length, the
  handler that writes a line for each request, and the goroutine that writes the lines to one file a day.
  Date, time and the elapsed times come as texts.
\<close>

section \<open>The remembering writer\<close>

record status_writer =
  sw_inner :: writer
  sw_status :: int
  sw_length :: int

definition sw_WriteHeader :: "int \<Rightarrow> status_writer \<Rightarrow> status_writer" where
  "sw_WriteHeader s w = w\<lparr>sw_status := s, sw_inner := WriteHeader s (sw_inner w)\<rparr>"

definition sw_Write :: "bytes \<Rightarrow> status_writer \<Rightarrow> status_writer" where
  "sw_Write b w =
     w\<lparr>sw_status := (if sw_status w = 0 then 200 else sw_status w), sw_length := int (length b),
       sw_inner := Write b (sw_inner w)\<rparr>"

definition new_status_writer :: status_writer where
  "new_status_writer = \<lparr>sw_inner = new_writer, sw_status = 0, sw_length = 0\<rparr>"

datatype writer_op = Op_WriteHeader int | Op_Write bytes

fun sw_op :: "writer_op \<Rightarrow> status_writer \<Rightarrow> status_writer" where
  "sw_op (Op_WriteHeader s) w = sw_WriteHeader s w"
| "sw_op (Op_Write b) w = sw_Write b w"

definition sw_run :: "writer_op list \<Rightarrow> status_writer" where
  "sw_run ops = fold sw_op ops new_status_writer"

lemma fold_writes:
  "sw_status w \<noteq> 0 \<Longrightarrow> w_sent (sw_inner w) \<noteq> None \<Longrightarrow>
     sw_status (fold sw_op (map Op_Write bs) w) = sw_status w \<and>
     status_of (sw_inner (fold sw_op (map Op_Write bs) w)) = status_of (sw_inner w)"
proof (induction bs arbitrary: w)
  case (Cons b bs)
  from Cons.IH [of "sw_Write b w"] Cons.prems show ?case
    by (auto simp: sw_Write_def status_kept)
qed simp

text \<open>The logged status is the one sent when the status is set once, before any write.\<close>

lemma logged_status:
  "s \<noteq> 0 \<Longrightarrow> sw_status (sw_run (Op_WriteHeader s # map Op_Write bs)) =
     status_of (sw_inner (sw_run (Op_WriteHeader s # map Op_Write bs)))"
  using fold_writes [of "sw_WriteHeader s new_status_writer" bs]
  by (simp add: sw_run_def sw_WriteHeader_def new_status_writer_def status_kept)

text \<open>A second \<open>WriteHeader\<close> changes the log but not the response, and the length is that of the
  last write only.\<close>

lemma logged_status_wrong:
  "sw_status (sw_run [Op_WriteHeader 200, Op_WriteHeader 500]) = 500 \<and>
   status_of (sw_inner (sw_run [Op_WriteHeader 200, Op_WriteHeader 500])) = 200"
  by (simp add: sw_run_def sw_WriteHeader_def new_status_writer_def status_kept)

lemma logged_length_last: "sw_length (sw_run [Op_Write ''abc'', Op_Write ''d'']) = 1"
  by (simp add: sw_run_def sw_Write_def new_status_writer_def)

section \<open>A line for each request\<close>

definition pad_left :: "nat \<Rightarrow> string \<Rightarrow> string" where
  "pad_left n s = replicate (n - length s) (CHR '' '') @ s"

text \<open>\<open>url.Values.Encode\<close>: the keys in order, keys and values escaped.\<close>

definition form_encode :: "multimap \<Rightarrow> string" where
  "form_encode form =
     str_join (concat (map (\<lambda>k. map (\<lambda>v. query_escape k @ ''='' @ query_escape v) (vals_lookup form k))
       (insertion_sort str_less (remdups (map fst form))))) ''&''"

record log_times =
  lt_date :: string
  lt_time :: string
  lt_millis :: int
  lt_latency :: string

definition log_line :: "log_times \<Rightarrow> int \<Rightarrow> request \<Rightarrow> status_writer \<Rightarrow> string" where
  "log_line t contentLength r w =
     (let user = (case BasicAuth r of Some (u, p) \<Rightarrow> u | None \<Rightarrow> ''-'');
          ps = form_encode (ReqForm r);
          url = (if ps \<noteq> [] then URL_Path r @ ''?'' @ ps else URL_Path r)
      in RemoteAddr r @ '', '' @ pad_left 20 user @ '', '' @ lt_date t @ '', '' @ lt_time t @ '', '' @
         pad_left 12 (itoa (sw_length w)) @ '', '' @ pad_left 12 (itoa contentLength) @ '', '' @
         pad_left 8 (itoa (lt_millis t)) @ '', '' @ itoa (sw_status w) @ '', '' @ Method r @ '', '' @
         url @ '', '' @ lt_latency t @ [CR, LF])"

text \<open>The handler lowers the path before the handler behind it sees the request; that handler may fill
  in the form.  \<open>serveHTTP\<close> of \<open>server.go\<close> is the same over the current router.\<close>

definition logged_ServeHTTP ::
    "log_times \<Rightarrow> int \<Rightarrow> (request \<Rightarrow> status_writer \<Rightarrow> request \<times> status_writer) \<Rightarrow> request \<Rightarrow> status_writer \<times> string" where
  "logged_ServeHTTP t contentLength handler r =
     (let (r', w) = handler (r\<lparr>URL_Path := to_lower (URL_Path r)\<rparr>) new_status_writer
      in (w, log_line t contentLength r' w))"

definition serveHTTP ::
    "log_times \<Rightarrow> int \<Rightarrow> (request \<Rightarrow> status_writer \<Rightarrow> request \<times> status_writer) \<Rightarrow> request \<Rightarrow> status_writer \<times> string" where
  "serveHTTP t contentLength rt r =
     (let (r', w) = rt (r\<lparr>URL_Path := to_lower (URL_Path r)\<rparr>) new_status_writer
      in (w, log_line t contentLength r' w))"

section \<open>One file a day\<close>

record log_state =
  last_day :: string
  log_file :: "string option"
  log_files :: "string \<Rightarrow> bytes"

text \<open>A day whose file cannot be opened loses the line; the next line tries again.  A nil file
  takes no bytes.\<close>

definition log_message :: "(string \<Rightarrow> bool) \<Rightarrow> string \<Rightarrow> string \<Rightarrow> string \<Rightarrow> log_state \<Rightarrow> log_state" where
  "log_message can_open today fileName str s =
     (let s1 = (if last_day s = today then s
                else s\<lparr>log_file := (if can_open fileName then Some fileName else None)\<rparr>)
      in if last_day s \<noteq> today \<and> \<not> can_open fileName then s1
         else (case log_file s1 of
                 None \<Rightarrow> s1\<lparr>last_day := today\<rparr>
               | Some f \<Rightarrow> s1\<lparr>last_day := today, log_files := (log_files s1)(f := log_files s1 f @ str)\<rparr>))"

text \<open>The lines of a day, all of them, in their order, are what its file gets, when it can be opened.\<close>

lemma day_log:
  assumes "can_open f" "last_day s \<noteq> today"
  shows "log_files (foldl (\<lambda>s str. log_message can_open today f str s) s (str # strs)) f =
     log_files s f @ concat (str # strs)"
proof -
  have cont: "last_day s = today \<Longrightarrow> log_file s = Some f \<Longrightarrow>
      log_files (foldl (\<lambda>s str. log_message can_open today f str s) s strs) f = log_files s f @ concat strs" for s
    by (induction strs arbitrary: s) (auto simp: log_message_def)
  show ?thesis using assms cont [of "log_message can_open today f str s"] by (simp add: log_message_def Let_def)
qed

end
