(* ===== verification/Spec2Isabelle.thy ===== *)
theory Spec2Isabelle
  imports Worker_Props Text_Filters Ora_Errors Sql_Props Describe Tasker_Term Sql_Request
    Owa_Service Multipart Auth Soap Timer_Pool Reader Access_Log
begin

text \<open>
  A verification development of \<open>iplsgo\<close>, an HTTP server that runs PL/SQL procedures of an Oracle
  database and sends the pages they make.

  The program.  A service (\<open>src/main_*.go\<close>) reads its configuration from the database
  (\<open>src/reader.go\<close>) and turns it into users (\<open>src/users.go\<close>) and routes (\<open>src/server.go\<close>).  A
  request to a virtual directory reaches the handler \<open>newOwa\<close>.  It finds out the user, looks up the
  connection string, makes identifiers of session and task (\<open>src/commonUtils.go\<close>,
  \<open>src/cgienvparams.go\<close>) and calls the scheduler \<open>otasker.Run\<close> (\<open>src/otasker/worker.go\<close>).  The
  scheduler makes a goroutine, the worker, for each session of a virtual directory; the worker owns a
  tasker (\<open>src/otasker/oratasker.go\<close>) with one connection to the database, to which it gives one task
  at a time.  A request that waits too long gets a waiting page and may ask again with the same task
  identifier.  The tasker describes the procedure (\<open>src/otasker/describe.go\<close>), makes a PL/SQL block for
  its parameters from the text of its kind (\<open>owaclassic.go\<close>, \<open>owaapex.go\<close>, \<open>owaekb.go\<close>), executes
  it, reads the page in pieces, and classifies errors; the result is a status code, by which the handler
  chooses a page.

  Theories and sources.

    \<^item> Libraries: Prelude, Go_Utf8, Go_Strings, Go_Fmt and Http are what the program uses of Go's
      standard library (runes, strings, decimal numbers, base64, requests and responses); strings and byte
      slices are lists of bytes.  Prelude has the locales \<open>codec\<close>, \<open>normaliser\<close> and \<open>recoder\<close>, the
      contracts of the encoders and filters; each is interpreted where the program has one (decimal
      numbers, base64, quoted literals, line ends, query strings, meta tags, cleaned paths).
    \<^item> Owa_Types: results, headers, forms, status codes.
    \<^item> Worker: the scheduler as a transition system.  A state has the callers of \<open>Run\<close> and
      \<open>Break\<close> and the listeners at the points where they may be interrupted, the registry, the workers
      with their token and channels.  Worker_Inv and Worker_Live have its invariants, Worker_Props what
      follows: a worker runs one task at a time, answers are the caller's own, answers are delivered, and
      the orders of events in which things go wrong, such as two workers of one session.
    \<^item> Tasker, Tasker_Run: the tasker's methods as state passing over a record of the driver's
      calls; Tasker_Frame and Tasker_Safe have the reasoning about methods (the locale \<open>quiet_view\<close> for
      what a method leaves alone, the judgement \<open>safe\<close> for methods that do not panic), Tasker_Props the
      connection, the outcomes of requests that return and the reading of pages, Tasker_Term that requests
      return (the judgement \<open>settles\<close> for methods for which some fuel is enough).
    \<^item> Sql_Params: \<open>prepareParam\<close>; Sql_Texts: the PL/SQL texts word for word.  Sql_Templates,
      Sql_Blocks, Sql_Exec and Sql_Request show that each executed text has exactly the placeholders
      that are bound; Sql_Props what the quoted values mean.
    \<^item> Describe: the description cache, a refinement of the data dictionary (locale
      \<open>description_source\<close>), with the compilation of invalid objects.  Ora_Errors: \<open>packError\<close>, \<open>UnMask\<close>.  Text_Filters: \<open>crutches.go\<close>, line
      ends and file names.
    \<^item> Owa_Handler: \<open>newOwa\<close> and \<open>templates.go\<close>; Sessions_Page: the page with the list of sessions;
      Owa_Props: its properties; Owa_Service: handler and scheduler together.
    \<^item> Users, Handler_Ids (\<open>commonUtils.go\<close>, \<open>cgienvparams.go\<close>), Expand (\<open>expandFileName\<close>), Config
      (\<open>parseConfig\<close> and routes), Reader (\<open>reader.go\<close>), Stat (\<open>stat.go\<close>), Timer_Pool (\<open>timer.go\<close>), Multipart
      (\<open>oraparsemultipart.go\<close>), Auth (\<open>auth.go\<close>), Ntlm (\<open>ntlm_windows_amd64.go\<close>), Soap (\<open>soap.go\<close>),
      Access_Log (\<open>logger.go\<close>).

  Parameters.  What is not in the repository is an argument: the Oracle driver, \<open>encoding/json\<close>, the
  router's refusals, \<open>html/template\<close>, \<open>url.Parse\<close>, the media type parser, identifiers made by \<open>uuid\<close>,
  the parts a multipart reader delivers, the security package of Windows, \<open>sort.Sort\<close>, the repair of query
  strings, the clock.  The theorems that need something of them say so: \<open>parser_ok\<close> (parsing a
  multipart body leaves path and headers alone), \<open>temp_fresh\<close> (a temporary file is new), \<open>sorts\<close>, and for the
  outcome of requests \<open>typed_driver\<close> (the variables of the PL/SQL blocks have values of their types in the
  states in which the code reads them; the error texts are null on success and are not read then),
  \<open>no_null_chunk\<close> (no later piece of a page is null), \<open>driver_returns\<close> (every call of the driver returns) and
  \<open>pages_end\<close> (the database says of every page at some point that there is no more of it).

  Bounds and fuel.  The loop of \<open>getRestChunks\<close> has the fuel \<open>chunk_fuel\<close>: the theorems on its content
  ask for as many rounds as there are pieces, no fuel shows as an outcome of its own, and \<open>Run\<close> is shown to
  return for every fuel from some number on when pages end.
  \<open>expandFileName\<close> calls itself through the log directory; a depth of two is shown to be enough for
  every call that returns.  Time-outs are integers of 64 bits where they are multiplied, durations in the
  statistics are words of 32 bits; other counters are unbounded integers.

  Not modelled.  Mutexes: what the code does under one lock is one step.  The opening of sockets, TLS,
  the profiling handlers and the hijacking of connections (\<open>startServer\<close>, \<open>Hijack\<close>), the
  command line and the service manager (\<open>main_*.go\<close>, \<open>version.go\<close>), metrics: they are
  calls of libraries.  The channel between requests and log file is the order of the calls.  Whether the
  system removes a temporary file, open or closed, is a parameter.  The handler of the virtual directories reads forms by a copy of
  \<open>oraparsemultipart.go\<close> in a vendored package, which is a parameter there.
\<close>

end
